(* ===== verification/Skid_Prelude.thy ===== *)
theory Skid_Prelude
  imports Main "HOL-Library.Word" "HOL-Library.Monad_Syntax" "HOL-Library.Sublist"
begin

text \<open>
  The shared vocabulary of the development: fixed-width integer types, results
  (\<open>Result\<close> as a sum with the error on the left), panics (an \<open>option\<close> whose \<open>None\<close> is
  the panic), Rust's checked and saturating arithmetic, slices, and the big-endian
  byte encodings (\<open>to_be_bytes\<close> / \<open>from_be_bytes\<close>) with the codec interface they
  satisfy. The named collections below carry the facts the component proofs use.
\<close>

section \<open>Types and collections\<close>

type_synonym u8 = "8 word"
type_synonym u16 = "16 word"
type_synonym u32 = "32 word"
type_synonym u64 = "64 word"
type_synonym i64 = "64 word"
type_synonym bytes = "u8 list"

named_theorems result_simps \<open>elimination of result combinators\<close>
named_theorems slice_simps \<open>slices and in-place writes that are in range\<close>
named_theorems arith_simps \<open>checked and saturating word arithmetic\<close>

section \<open>Results\<close>

fun and_then :: "'e + 'a \<Rightarrow> ('a \<Rightarrow> 'e + 'b) \<Rightarrow> 'e + 'b" where
  "and_then (Inl e) k = Inl e"
| "and_then (Inr a) k = k a"

fun map_err :: "('e \<Rightarrow> 'f) \<Rightarrow> 'e + 'a \<Rightarrow> 'f + 'a" where
  "map_err f (Inl e) = Inl (f e)"
| "map_err f (Inr a) = Inr a"

fun map_ok :: "('a \<Rightarrow> 'b) \<Rightarrow> 'e + 'a \<Rightarrow> 'e + 'b" where
  "map_ok f (Inl e) = Inl e"
| "map_ok f (Inr a) = Inr (f a)"

fun ok_or :: "'e \<Rightarrow> 'a option \<Rightarrow> 'e + 'a" where
  "ok_or e None = Inl e"
| "ok_or e (Some a) = Inr a"

fun is_ok :: "'e + 'a \<Rightarrow> bool" where
  "is_ok (Inl _) = False"
| "is_ok (Inr _) = True"

fun ok_opt :: "'e + 'a \<Rightarrow> 'a option" where
  "ok_opt (Inl _) = None"
| "ok_opt (Inr a) = Some a"

fun try_map :: "('a \<Rightarrow> 'e + 'b) \<Rightarrow> 'a list \<Rightarrow> 'e + 'b list" where
  "try_map f [] = Inr []"
| "try_map f (x # xs) = and_then (f x) (\<lambda>y. and_then (try_map f xs) (\<lambda>ys. Inr (y # ys)))"

fun opt_or :: "'a option \<Rightarrow> 'a option \<Rightarrow> 'a option" where
  "opt_or None b = b"
| "opt_or (Some a) b = Some a"

fun opt_filter :: "('a \<Rightarrow> bool) \<Rightarrow> 'a option \<Rightarrow> 'a option" where
  "opt_filter P None = None"
| "opt_filter P (Some a) = (if P a then Some a else None)"

fun unwrap_or :: "'a \<Rightarrow> 'a option \<Rightarrow> 'a" where
  "unwrap_or d None = d"
| "unwrap_or d (Some a) = a"

section \<open>Panics: slices, indexing, in-place writes\<close>

definition idx :: "'a list \<Rightarrow> nat \<Rightarrow> 'a option" where
  "idx xs i = (if i < length xs then Some (xs ! i) else None)"

definition slice :: "'a list \<Rightarrow> nat \<Rightarrow> nat \<Rightarrow> 'a list option" where
  "slice xs a b = (if a \<le> b \<and> b \<le> length xs then Some (take (b - a) (drop a xs)) else None)"

definition copy_at :: "nat \<Rightarrow> 'a list \<Rightarrow> 'a list \<Rightarrow> 'a list option" where
  "copy_at i src out =
     (if i + length src \<le> length out
      then Some (take i out @ src @ drop (i + length src) out) else None)"

section \<open>Checked and saturating arithmetic\<close>

definition checked_add :: "'a::len word \<Rightarrow> 'a word \<Rightarrow> 'a word option" where
  "checked_add a b = (if unat a + unat b < 2 ^ LENGTH('a) then Some (a + b) else None)"

definition sat_add :: "'a::len word \<Rightarrow> 'a word \<Rightarrow> 'a word" where
  "sat_add a b = (if unat a + unat b < 2 ^ LENGTH('a) then a + b else - 1)"

definition sat_sub :: "'a::len word \<Rightarrow> 'a word \<Rightarrow> 'a word" where
  "sat_sub a b = (if b \<le> a then a - b else 0)"

section \<open>Big-endian bytes\<close>

definition u16_to_be :: "u16 \<Rightarrow> bytes" where
  "u16_to_be w = [ucast (drop_bit 8 w), ucast w]"

definition u32_to_be :: "u32 \<Rightarrow> bytes" where
  "u32_to_be w = [ucast (drop_bit 24 w), ucast (drop_bit 16 w), ucast (drop_bit 8 w), ucast w]"

definition u64_to_be :: "u64 \<Rightarrow> bytes" where
  "u64_to_be w = u32_to_be (ucast (drop_bit 32 w)) @ u32_to_be (ucast w)"

definition be_acc :: "'a::len word \<Rightarrow> u8 \<Rightarrow> 'a word" where
  "be_acc acc b = push_bit 8 acc + ucast b"

definition u16_from_be :: "bytes \<Rightarrow> u16" where
  "u16_from_be bs = foldl be_acc 0 bs"

definition u32_from_be :: "bytes \<Rightarrow> u32" where
  "u32_from_be bs = foldl be_acc 0 bs"

definition u64_from_be :: "bytes \<Rightarrow> u64" where
  "u64_from_be bs = foldl be_acc 0 bs"

section \<open>Lemmas on results\<close>

lemma and_then_eq_Inr [result_simps]:
  "and_then r k = Inr b \<longleftrightarrow> (\<exists>a. r = Inr a \<and> k a = Inr b)"
  by (cases r) auto

lemma and_then_eq_Inl [result_simps]:
  "and_then r k = Inl e \<longleftrightarrow> r = Inl e \<or> (\<exists>a. r = Inr a \<and> k a = Inl e)"
  by (cases r) auto

lemma map_err_eq_Inr [result_simps]: "map_err f r = Inr a \<longleftrightarrow> r = Inr a"
  by (cases r) auto

lemma map_err_eq_Inl [result_simps]: "map_err f r = Inl e \<longleftrightarrow> (\<exists>e'. r = Inl e' \<and> e = f e')"
  by (cases r) auto

lemma map_ok_eq_Inr [result_simps]: "map_ok f r = Inr b \<longleftrightarrow> (\<exists>a. r = Inr a \<and> b = f a)"
  by (cases r) auto

lemma map_ok_eq_Inl [result_simps]: "map_ok f r = Inl e \<longleftrightarrow> r = Inl e"
  by (cases r) auto

lemma ok_or_eq_Inr [result_simps]: "ok_or e r = Inr b \<longleftrightarrow> r = Some b"
  by (cases r) auto

lemma ok_or_eq_Inl [result_simps]: "ok_or e r = Inl e' \<longleftrightarrow> r = None \<and> e' = e"
  by (cases r) auto

lemma opt_filter_eq_Some [result_simps]: "opt_filter P x = Some a \<longleftrightarrow> x = Some a \<and> P a"
  by (cases x) auto

lemma opt_filter_eq_None [result_simps]: "opt_filter P x = None \<longleftrightarrow> (\<forall>a. x = Some a \<longrightarrow> \<not> P a)"
  by (cases x) auto

lemma opt_or_eq_Some [result_simps]:
  "opt_or x y = Some a \<longleftrightarrow> x = Some a \<or> x = None \<and> y = Some a"
  by (cases x) auto

lemma opt_or_eq_None [result_simps]: "opt_or x y = None \<longleftrightarrow> x = None \<and> y = None"
  by (cases x) auto

lemma is_ok_iff: "is_ok r \<longleftrightarrow> (\<exists>a. r = Inr a)"
  by (cases r) auto

lemma try_map_Inr_length: "try_map f xs = Inr ys \<Longrightarrow> length ys = length xs"
  by (induction xs arbitrary: ys) (auto simp: result_simps)

lemma try_map_Inr_iff: "try_map f xs = Inr ys \<longleftrightarrow> list_all2 (\<lambda>x y. f x = Inr y) xs ys"
proof (induction xs arbitrary: ys)
  case Nil
  then show ?case by auto
next
  case (Cons x xs)
  then show ?case by (cases ys) (auto simp: result_simps)
qed

lemma try_map_all_Inr: "(\<And>x. x \<in> set xs \<Longrightarrow> f x = Inr (g x)) \<Longrightarrow> try_map f xs = Inr (map g xs)"
  by (induction xs) auto

lemma try_map_Inl: "try_map f xs = Inl e \<Longrightarrow> \<exists>x \<in> set xs. f x = Inl e"
  by (induction xs) (auto simp: result_simps)

section \<open>Lemmas on slices\<close>

lemma idx_in [slice_simps]: "i < length xs \<Longrightarrow> idx xs i = Some (xs ! i)"
  by (simp add: idx_def)

lemma slice_in [slice_simps]:
  "a \<le> b \<Longrightarrow> b \<le> length xs \<Longrightarrow> slice xs a b = Some (take (b - a) (drop a xs))"
  by (simp add: slice_def)

lemma copy_at_in [slice_simps]:
  "i + length src \<le> length out \<Longrightarrow>
    copy_at i src out = Some (take i out @ src @ drop (i + length src) out)"
  by (simp add: copy_at_def)

lemma copy_at_length: "copy_at i src out = Some out' \<Longrightarrow> length out' = length out"
  by (auto simp: copy_at_def split: if_splits)

lemma copy_at_extend:
  "copy_at (length pre) src (pre @ rest) =
     (if length src \<le> length rest then Some ((pre @ src) @ drop (length src) rest) else None)"
  by (auto simp: copy_at_def)

section \<open>Lemmas on arithmetic\<close>

lemma checked_add_Some [arith_simps]:
  "checked_add a b = Some c \<longleftrightarrow>
     unat a + unat b < 2 ^ LENGTH('a) \<and> c = a + b" for a :: "'a::len word"
  by (auto simp: checked_add_def)

lemma checked_add_unat:
  "checked_add a b = Some c \<Longrightarrow> unat c = unat a + unat b" for a :: "'a::len word"
  by (auto simp: checked_add_def unat_word_ariths split: if_splits)

lemma checked_add_code [code]:
  "checked_add a b = (let c = a + b in if c < a then None else Some c)" for a :: "'a::len word"
proof -
  let ?N = "2 ^ LENGTH('a) :: nat"
  have lt: "unat a < ?N" "unat b < ?N"
    by (rule unsigned_less)+
  have "unat (a + b) < unat a \<longleftrightarrow> \<not> unat a + unat b < ?N"
  proof (cases "unat a + unat b < ?N")
    case True
    then have "unat (a + b) = unat a + unat b" by (simp add: unat_word_ariths)
    then show ?thesis using True by linarith
  next
    case False
    have "unat a + unat b - ?N < ?N" using lt by linarith
    then have "unat (a + b) = unat a + unat b - ?N"
      using False by (simp add: unat_word_ariths le_mod_geq)
    then show ?thesis using False lt by linarith
  qed
  then have "a + b < a \<longleftrightarrow> \<not> unat a + unat b < ?N"
    by (simp only: word_less_nat_alt)
  then show ?thesis by (simp add: checked_add_def Let_def)
qed

lemma unat_minus_one: "unat (- 1 :: 'a::len word) = 2 ^ LENGTH('a) - 1"
  by (simp add: unsigned_minus_1_eq_mask mask_eq_exp_minus_1)

lemma unat_le_max: "unat a \<le> 2 ^ LENGTH('a) - 1" for a :: "'a::len word"
  using unsigned_less [of a, where 'a = nat] by arith

lemma unat_sat_add: "unat (sat_add a b) = min (unat a + unat b) (2 ^ LENGTH('a) - 1)"
  for a :: "'a::len word"
  by (auto simp: sat_add_def unat_word_ariths unat_minus_one)

lemma sat_add_ge: "a \<le> sat_add a b" for a :: "'a::len word"
  using unat_le_max [of a] by (simp add: word_le_nat_alt unat_sat_add)

lemma unat_sat_sub: "unat (sat_sub a b) = unat a - unat b" for a :: "'a::len word"
  by (auto simp: sat_sub_def unat_sub word_le_nat_alt)

lemma unat_dec: "w \<noteq> 0 \<Longrightarrow> unat (w - 1) = unat w - 1" for w :: "'a::len word"
  by (metis One_nat_def less_one linorder_not_le unat_1 unat_eq_zero unat_sub word_le_nat_alt)

section \<open>Fixed-width codecs\<close>

text \<open>
  The contract of a fixed-width byte encoding, as every wire field and the storage
  keys use it: the width is constant and decoding inverts encoding both ways.
\<close>

locale fixed_codec =
  fixes enc :: "'a \<Rightarrow> bytes"
    and dec :: "bytes \<Rightarrow> 'a"
    and width :: nat
  assumes enc_length: "length (enc x) = width"
    and dec_enc: "dec (enc x) = x"
    and enc_dec: "length bs = width \<Longrightarrow> enc (dec bs) = bs"
begin

lemma enc_inj: "enc x = enc y \<longleftrightarrow> x = y"
  using dec_enc by metis

lemma dec_inj: "length bs = width \<Longrightarrow> length cs = width \<Longrightarrow> dec bs = dec cs \<Longrightarrow> bs = cs"
  using enc_dec by metis

lemma dec_take_enc: "dec (take width (enc x @ rest)) = x"
  by (simp add: enc_length dec_enc)

lemma drop_enc: "drop width (enc x @ rest) = rest"
  by (simp add: enc_length)

end

section \<open>The big-endian encodings are codecs\<close>

lemma unat_be_acc:
  "unat (be_acc a b) = (unat a * 256 + unat b) mod 2 ^ LENGTH('a)"
  if "8 \<le> LENGTH('a)" for a :: "'a::len word"
  using that
  by (simp add: be_acc_def unat_word_ariths push_bit_eq_mult unsigned_ucast_eq take_bit_eq_mod
      mod_simps mult.commute)

lemma unat_byte: "unat (b::8 word) < 256"
  using unsigned_less [of b] by simp

lemma unat_u16: "unat (b::16 word) < 65536"
  using unsigned_less [of b] by simp

lemma unat_u32: "unat (b::32 word) < 4294967296"
  using unsigned_less [of b] by simp

lemma unat_u64: "unat (b::64 word) < 18446744073709551616"
  using unsigned_less [of b] by simp

lemmas be_unfold = unat_be_acc unat_drop_bit_eq unsigned_ucast_eq take_bit_eq_mod drop_bit_eq_div
  unat_div_distrib word_unat_eq_iff

lemma u16_dec_enc: "u16_from_be (u16_to_be w) = w"
  using unat_u16 [of w]
  by (simp add: u16_from_be_def u16_to_be_def be_unfold)

lemma u16_enc_dec: "u16_to_be (u16_from_be [a, b]) = [a, b]"
  using unat_byte [of a] unat_byte [of b]
  by (simp add: u16_from_be_def u16_to_be_def be_unfold)

lemma byte_split: "256 * (n div 256) + n mod 256 = (n::nat)"
  by simp

lemma div_steps:
  shows "(n::nat) div 65536 = n div 256 div 256"
  and "n div 16777216 = n div 256 div 256 div 256"
  by (simp_all add: div_mult2_eq [symmetric])

lemma be4_join:
  "16777216 * (n div 16777216) + 65536 * (n div 65536 mod 256) + n div 256 mod 256 * 256 + n mod 256 = (n::nat)"
  unfolding div_steps
  using byte_split [of n] byte_split [of "n div 256"] byte_split [of "n div 256 div 256"] by linarith

lemma byte_join:
  shows "d < 256 \<Longrightarrow> (256 * m + d) div 256 = (m::nat)"
    and "d < 256 \<Longrightarrow> (256 * m + d) mod 256 = (d::nat)"
  by simp_all

lemma be4_split:
  assumes "a < 256" "b < 256" "c < 256" "d < (256::nat)"
  shows "(16777216 * a + 65536 * b + c * 256 + d) div 16777216 = a"
    "(16777216 * a + 65536 * b + c * 256 + d) div 65536 mod 256 = b"
    "(16777216 * a + 65536 * b + c * 256 + d) div 256 mod 256 = c"
    "(16777216 * a + 65536 * b + c * 256 + d) mod 256 = d"
proof -
  let ?n = "16777216 * a + 65536 * b + c * 256 + d"
  have n: "?n = 256 * (256 * (256 * a + b) + c) + d" by simp
  have 1: "?n div 256 = 256 * (256 * a + b) + c" and m: "?n mod 256 = d"
    unfolding n by (rule byte_join, rule assms)+
  have 2: "?n div 256 div 256 = 256 * a + b" and m2: "?n div 256 mod 256 = c"
    unfolding 1 by (rule byte_join, rule assms)+
  show "?n div 16777216 = a" "?n div 65536 mod 256 = b" "?n div 256 mod 256 = c" "?n mod 256 = d"
    unfolding div_steps 2 m2 m using assms by simp_all
qed

lemma u32_dec_enc: "u32_from_be (u32_to_be w) = w"
  using unat_u32 [of w] be4_join [of "unat w"]
  by (simp add: u32_from_be_def u32_to_be_def be_unfold)

lemma u32_enc_dec: "u32_to_be (u32_from_be [a, b, c, d]) = [a, b, c, d]"
  using be4_split [OF unat_byte [of a] unat_byte [of b] unat_byte [of c] unat_byte [of d]]
    unat_byte[of a] unat_byte[of b] unat_byte[of c] unat_byte[of d]
  by (simp add: u32_from_be_def u32_to_be_def be_unfold)

lemma len4: "length xs = 4 \<longleftrightarrow> (\<exists>a b c d. xs = [a, b, c, d])"
  by (auto simp: numeral_eq_Suc length_Suc_conv)

lemma u64_from_be_append:
  assumes "length hs = 4" "length ls = 4"
  shows "unat (u64_from_be (hs @ ls)) = 4294967296 * unat (u32_from_be hs) + unat (u32_from_be ls)"
proof -
  obtain a b c d e f g h where hs: "hs = [a, b, c, d]" and ls: "ls = [e, f, g, h]"
    using assms unfolding len4 by blast
  show ?thesis
    using unat_byte[of a] unat_byte[of b] unat_byte[of c] unat_byte[of d]
      unat_byte[of e] unat_byte[of f] unat_byte[of g] unat_byte[of h]
    by (simp add: hs ls u64_from_be_def u32_from_be_def unat_be_acc)
qed

lemma length_u32_to_be: "length (u32_to_be w) = 4"
  by (simp add: u32_to_be_def)

lemma u64_dec_enc: "u64_from_be (u64_to_be w) = w"
proof -
  have "unat (u64_from_be (u64_to_be w)) = 4294967296 * (unat w div 4294967296) + unat w mod 4294967296"
    using unat_u64 [of w]
    by (simp add: u64_to_be_def u64_from_be_append length_u32_to_be u32_dec_enc be_unfold)
  then show ?thesis by (simp add: word_unat_eq_iff)
qed

lemma u64_enc_dec:
  assumes "length bs = 8" shows "u64_to_be (u64_from_be bs) = bs"
proof -
  obtain hs ls where bs: "bs = hs @ ls" and len: "length hs = 4" "length ls = 4"
    using assms by (metis (no_types) append_take_drop_id length_take length_drop min.absorb2 add_diff_cancel_left' numeral_Bit0 le_add2)
  have eq: "unat (u64_from_be bs) = 4294967296 * unat (u32_from_be hs) + unat (u32_from_be ls)"
    unfolding bs using len by (rule u64_from_be_append)
  have hi: "ucast (drop_bit 32 (u64_from_be bs)) = u32_from_be hs" 
    and lo: "ucast (u64_from_be bs) = u32_from_be ls"
    using eq unat_u32 [of "u32_from_be hs"] unat_u32 [of "u32_from_be ls"] by (simp_all add: be_unfold)
  show ?thesis unfolding u64_to_be_def hi lo
    using len unfolding len4 bs by (auto simp: u32_enc_dec)
qed

lemma length_u16_to_be [simp]: "length (u16_to_be w) = 2"
  by (simp add: u16_to_be_def)

lemma length_u64_to_be [simp]: "length (u64_to_be w) = 8"
  by (simp add: u64_to_be_def length_u32_to_be)

interpretation be16: fixed_codec u16_to_be u16_from_be 2
proof unfold_locales
  fix bs :: bytes
  assume "length bs = 2"
  then obtain a b where "bs = [a, b]"
    by (auto simp: numeral_eq_Suc length_Suc_conv)
  then show "u16_to_be (u16_from_be bs) = bs"
    by (simp add: u16_enc_dec)
qed (simp_all add: u16_dec_enc)

interpretation be32: fixed_codec u32_to_be u32_from_be 4
  by unfold_locales (auto simp: len4 length_u32_to_be u32_dec_enc u32_enc_dec)

interpretation be64: fixed_codec u64_to_be u64_from_be 8
  by unfold_locales (simp_all add: u64_dec_enc u64_enc_dec)

end
