(* ===== verification/Rust_Text.thy ===== *)
theory Rust_Text
  imports Skid_Prelude
begin

text \<open>
  The part of Rust's \<open>str\<close>, \<open>String\<close> and integer formatting the program uses. A Rust
  string is its UTF-8 byte sequence; here it is a \<open>string\<close> whose characters are these
  bytes, so \<open>length\<close> is Rust's \<open>len()\<close>. The functions that look at Unicode characters
  (\<open>trim\<close>, \<open>split_whitespace\<close>, \<open>char::is_control\<close>, \<open>from_utf8\<close>, \<open>from_utf8_lossy\<close>)
  recognise the byte patterns of those characters.
\<close>

section \<open>Bytes and characters\<close>

definition byte_of_char :: "char \<Rightarrow> u8" where
  "byte_of_char c = of_nat (of_char c)"

definition char_of_byte :: "u8 \<Rightarrow> char" where
  "char_of_byte b = char_of (unat b)"

definition as_bytes :: "string \<Rightarrow> bytes" where
  "as_bytes s = map byte_of_char s"

definition str_of_bytes :: "bytes \<Rightarrow> string" where
  "str_of_bytes bs = map char_of_byte bs"

definition code :: "char \<Rightarrow> nat" where
  "code c = of_char c"

section \<open>UTF-8\<close>

definition safe_get :: "bytes \<Rightarrow> nat \<Rightarrow> u8" where
  "safe_get bs i = (if i < length bs then bs ! i else 0)"

definition utf8_cont :: "u8 \<Rightarrow> bool" where
  "utf8_cont b \<longleftrightarrow> 0x80 \<le> b \<and> b \<le> 0xBF"

definition utf8_second3 :: "u8 \<Rightarrow> u8 \<Rightarrow> bool" where
  "utf8_second3 b c \<longleftrightarrow>
     (if b = 0xE0 then 0xA0 \<le> c \<and> c \<le> 0xBF
      else if b = 0xED then 0x80 \<le> c \<and> c \<le> 0x9F
      else utf8_cont c)"

definition utf8_second4 :: "u8 \<Rightarrow> u8 \<Rightarrow> bool" where
  "utf8_second4 b c \<longleftrightarrow>
     (if b = 0xF0 then 0x90 \<le> c \<and> c \<le> 0xBF
      else if b = 0xF4 then 0x80 \<le> c \<and> c \<le> 0x8F
      else utf8_cont c)"

text \<open>The first character: how many bytes it takes and whether they are well formed.\<close>

definition utf8_head :: "u8 \<Rightarrow> bytes \<Rightarrow> nat \<times> bool" where
  "utf8_head b r =
     (if b < 0x80 then (1, True)
      else if 0xC2 \<le> b \<and> b \<le> 0xDF then
        (if utf8_cont (safe_get r 0) then (2, True) else (1, False))
      else if 0xE0 \<le> b \<and> b \<le> 0xEF then
        (if \<not> utf8_second3 b (safe_get r 0) then (1, False)
         else if \<not> utf8_cont (safe_get r 1) then (2, False) else (3, True))
      else if 0xF0 \<le> b \<and> b \<le> 0xF4 then
        (if \<not> utf8_second4 b (safe_get r 0) then (1, False)
         else if \<not> utf8_cont (safe_get r 1) then (2, False)
         else if \<not> utf8_cont (safe_get r 2) then (3, False) else (4, True))
      else (1, False))"

function utf8_valid :: "bytes \<Rightarrow> bool" where
  "utf8_valid [] = True"
| "utf8_valid (b # r) =
     (snd (utf8_head b r) \<and> utf8_valid (drop (fst (utf8_head b r)) (b # r)))"
  by pat_completeness auto
termination
  by (relation "measure length") (auto simp: utf8_head_def)

definition replacement_char :: bytes where
  "replacement_char = [0xEF, 0xBF, 0xBD]"

function utf8_lossy :: "bytes \<Rightarrow> bytes" where
  "utf8_lossy [] = []"
| "utf8_lossy (b # r) =
     (let n = fst (utf8_head b r)
      in (if snd (utf8_head b r) then take n (b # r) else replacement_char)
         @ utf8_lossy (drop n (b # r)))"
  by pat_completeness auto
termination
  by (relation "measure length") (auto simp: utf8_head_def)

definition is_text :: "string \<Rightarrow> bool" where
  "is_text s \<longleftrightarrow> utf8_valid (as_bytes s)"

definition from_utf8 :: "bytes \<Rightarrow> string option" where
  "from_utf8 bs = (if utf8_valid bs then Some (str_of_bytes bs) else None)"

definition from_utf8_lossy :: "bytes \<Rightarrow> string" where
  "from_utf8_lossy bs = str_of_bytes (utf8_lossy bs)"

section \<open>White space and control characters\<close>

definition ws3 :: "nat \<Rightarrow> nat \<Rightarrow> nat \<Rightarrow> bool" where
  "ws3 a b c \<longleftrightarrow>
     a = 0xE1 \<and> b = 0x9A \<and> c = 0x80 \<or>
     a = 0xE2 \<and> b = 0x80 \<and> (0x80 \<le> c \<and> c \<le> 0x8A \<or> c = 0xA8 \<or> c = 0xA9 \<or> c = 0xAF) \<or>
     a = 0xE2 \<and> b = 0x81 \<and> c = 0x9F \<or>
     a = 0xE3 \<and> b = 0x80 \<and> c = 0x80"

definition ws2 :: "nat \<Rightarrow> nat \<Rightarrow> bool" where
  "ws2 a b \<longleftrightarrow> a = 0xC2 \<and> (b = 0x85 \<or> b = 0xA0)"

definition ws1 :: "nat \<Rightarrow> bool" where
  "ws1 a \<longleftrightarrow> 9 \<le> a \<and> a \<le> 13 \<or> a = 32"

text \<open>The number of bytes of a leading (trailing) white-space character, or 0.\<close>

fun ws_head :: "string \<Rightarrow> nat" where
  "ws_head [] = 0"
| "ws_head [a] = (if ws1 (code a) then 1 else 0)"
| "ws_head [a, b] = (if ws1 (code a) then 1 else if ws2 (code a) (code b) then 2 else 0)"
| "ws_head (a # b # c # r) =
     (if ws1 (code a) then 1 else if ws2 (code a) (code b) then 2
      else if ws3 (code a) (code b) (code c) then 3 else 0)"

fun ws_tail :: "string \<Rightarrow> nat" where
  "ws_tail [] = 0"
| "ws_tail [a] = (if ws1 (code a) then 1 else 0)"
| "ws_tail [b, a] = (if ws1 (code b) then 1 else if ws2 (code a) (code b) then 2 else 0)"
| "ws_tail (c # b # a # r) =
     (if ws1 (code c) then 1 else if ws2 (code b) (code c) then 2
      else if ws3 (code a) (code b) (code c) then 3 else 0)"

function trim_start :: "string \<Rightarrow> string" where
  "trim_start s = (if s = [] \<or> ws_head s = 0 then s else trim_start (drop (ws_head s) s))"
  by pat_completeness auto
termination
  by (relation "measure length") auto

function trim_rev :: "string \<Rightarrow> string" where
  "trim_rev s = (if s = [] \<or> ws_tail s = 0 then s else trim_rev (drop (ws_tail s) s))"
  by pat_completeness auto
termination
  by (relation "measure length") auto

declare trim_start.simps [simp del] trim_rev.simps [simp del]

definition trim_end :: "string \<Rightarrow> string" where
  "trim_end s = rev (trim_rev (rev s))"

definition trim :: "string \<Rightarrow> string" where
  "trim s = trim_end (trim_start s)"

fun has_control :: "string \<Rightarrow> bool" where
  "has_control [] = False"
| "has_control [a] = (code a < 32 \<or> code a = 127)"
| "has_control (a # b # r) =
     (code a < 32 \<or> code a = 127 \<or> code a = 0xC2 \<and> 0x80 \<le> code b \<and> code b \<le> 0x9F
      \<or> has_control (b # r))"

text \<open>\<open>split_whitespace\<close>: the maximal runs of bytes outside white-space characters.\<close>

function split_ws_from :: "string \<Rightarrow> string \<Rightarrow> string list" where
  "split_ws_from acc [] = (if acc = [] then [] else [acc])"
| "split_ws_from acc (c # r) =
     (if ws_head (c # r) = 0 then split_ws_from (acc @ [c]) r
      else (if acc = [] then [] else [acc]) @ split_ws_from [] (drop (ws_head (c # r)) (c # r)))"
  by pat_completeness auto
termination
  by (relation "measure (\<lambda>(acc, s). length s)") auto

definition split_whitespace :: "string \<Rightarrow> string list" where
  "split_whitespace s = split_ws_from [] s"

definition ascii_ws :: "char \<Rightarrow> bool" where
  "ascii_ws c \<longleftrightarrow> code c \<in> {9, 10, 12, 13, 32}"

fun split_on :: "(char \<Rightarrow> bool) \<Rightarrow> string \<Rightarrow> string list" where
  "split_on P [] = [[]]"
| "split_on P (c # r) =
     (if P c then [] # split_on P r
      else case split_on P r of [] \<Rightarrow> [[c]] | x # xs \<Rightarrow> (c # x) # xs)"

definition split_ascii_whitespace :: "string \<Rightarrow> string list" where
  "split_ascii_whitespace s = filter (\<lambda>x. x \<noteq> []) (split_on ascii_ws s)"

fun split_once :: "char \<Rightarrow> string \<Rightarrow> (string \<times> string) option" where
  "split_once d [] = None"
| "split_once d (c # r) =
     (if c = d then Some ([], r)
      else map_option (\<lambda>(x, y). (c # x, y)) (split_once d r))"

section \<open>ASCII case, prefixes and substrings\<close>

definition ascii_lower :: "char \<Rightarrow> char" where
  "ascii_lower c = (if 65 \<le> code c \<and> code c \<le> 90 then char_of (code c + 32) else c)"

definition ascii_upper :: "char \<Rightarrow> char" where
  "ascii_upper c = (if 97 \<le> code c \<and> code c \<le> 122 then char_of (code c - 32) else c)"

definition to_ascii_lowercase :: "string \<Rightarrow> string" where
  "to_ascii_lowercase s = map ascii_lower s"

definition to_ascii_uppercase :: "string \<Rightarrow> string" where
  "to_ascii_uppercase s = map ascii_upper s"

definition eq_ignore_ascii_case :: "string \<Rightarrow> string \<Rightarrow> bool" where
  "eq_ignore_ascii_case a b \<longleftrightarrow> to_ascii_lowercase a = to_ascii_lowercase b"

definition starts_with :: "string \<Rightarrow> string \<Rightarrow> bool" where
  "starts_with s p \<longleftrightarrow> take (length p) s = p"

fun str_contains :: "string \<Rightarrow> string \<Rightarrow> bool" where
  "str_contains [] p = (p = [])"
| "str_contains (c # r) p = (starts_with (c # r) p \<or> str_contains r p)"

definition strip_suffix_char :: "char \<Rightarrow> string \<Rightarrow> string option" where
  "strip_suffix_char c s = (if s \<noteq> [] \<and> last s = c then Some (butlast s) else None)"

definition trim_end_char :: "char \<Rightarrow> string \<Rightarrow> string" where
  "trim_end_char c s = rev (dropWhile (\<lambda>d. d = c) (rev s))"

fun str_join :: "string \<Rightarrow> string list \<Rightarrow> string" where
  "str_join sep [] = []"
| "str_join sep [s] = s"
| "str_join sep (s # t # r) = s @ sep @ str_join sep (t # r)"

section \<open>Decimal numbers\<close>

definition is_digit :: "char \<Rightarrow> bool" where
  "is_digit c \<longleftrightarrow> 48 \<le> code c \<and> code c \<le> 57"

definition digit_char :: "nat \<Rightarrow> char" where
  "digit_char d = char_of (48 + d)"

function show_nat :: "nat \<Rightarrow> string" where
  "show_nat n = (if n < 10 then [digit_char n] else show_nat (n div 10) @ [digit_char (n mod 10)])"
  by pat_completeness auto
termination
  by (relation "measure id") auto

declare show_nat.simps [simp del]

definition dec_acc :: "nat \<Rightarrow> char \<Rightarrow> nat" where
  "dec_acc n c = 10 * n + (code c - 48)"

definition dec_value :: "string \<Rightarrow> nat" where
  "dec_value s = foldl dec_acc 0 s"

definition parse_u64 :: "string \<Rightarrow> u64 option" where
  "parse_u64 s =
     (let ds = (case s of [] \<Rightarrow> [] | c # r \<Rightarrow> if c = CHR ''+'' then r else s)
      in if ds \<noteq> [] \<and> list_all is_digit ds \<and> dec_value ds < 2 ^ 64
         then Some (of_nat (dec_value ds)) else None)"

definition show_u64 :: "u64 \<Rightarrow> string" where
  "show_u64 w = show_nat (unat w)"

section \<open>Facts about bytes and UTF-8\<close>

lemma unat_byte_of_char [simp]: "unat (byte_of_char c) = code c"
proof -
  have "(of_char c :: nat) mod 256 = of_char c" by simp
  then show ?thesis
    by (simp add: byte_of_char_def code_def unat_of_nat)
qed

lemma char_of_byte_of_char [simp]: "char_of_byte (byte_of_char c) = c"
  by (simp add: char_of_byte_def code_def)

lemma byte_of_char_of_byte [simp]: "byte_of_char (char_of_byte b) = b"
  using unat_byte [of b]
  by (simp add: byte_of_char_def char_of_byte_def)

lemma str_of_bytes_as_bytes [simp]: "str_of_bytes (as_bytes s) = s"
  by (simp add: str_of_bytes_def as_bytes_def comp_def)

lemma as_bytes_str_of_bytes [simp]: "as_bytes (str_of_bytes bs) = bs"
  by (simp add: str_of_bytes_def as_bytes_def comp_def)

lemma length_as_bytes [simp]: "length (as_bytes s) = length s"
  by (simp add: as_bytes_def)

lemma from_utf8_as_bytes: "is_text s \<Longrightarrow> from_utf8 (as_bytes s) = Some s"
  by (simp add: from_utf8_def is_text_def)

lemma from_utf8_Some: "from_utf8 bs = Some s \<longleftrightarrow> is_text s \<and> bs = as_bytes s"
  by (auto simp: from_utf8_def is_text_def)

lemma utf8_valid_ascii: "list_all (\<lambda>b. b < 0x80) bs \<Longrightarrow> utf8_valid bs"
  by (induction bs) (auto simp: utf8_head_def)

lemma is_text_ascii: "list_all (\<lambda>c. code c < 128) s \<Longrightarrow> is_text s"
  unfolding is_text_def as_bytes_def
  by (rule utf8_valid_ascii) (auto simp: list_all_iff word_less_nat_alt)

lemma utf8_lossy_valid: "utf8_valid bs \<Longrightarrow> utf8_lossy bs = bs"
  by (induction bs rule: utf8_lossy.induct) (auto simp: Let_def simp del: take_Suc_Cons drop_Suc_Cons)

lemma from_utf8_lossy_text: "is_text s \<Longrightarrow> from_utf8_lossy (as_bytes s) = s"
  by (simp add: from_utf8_lossy_def is_text_def utf8_lossy_valid)

section \<open>Facts about trimming\<close>

lemma ws_head_append: "ws_head s \<noteq> 0 \<Longrightarrow> ws_head (s @ t) = ws_head s"
  by (induction s rule: ws_head.induct; cases t rule: ws_head.cases) (auto split: if_splits)

lemma trim_start_fixed: "ws_head s = 0 \<Longrightarrow> trim_start s = s"
  by (simp add: trim_start.simps)

lemma ws_head_trim_start: "ws_head (trim_start s) = 0"
proof (induction s rule: trim_start.induct)
  case (1 s)
  show ?case
    by (cases "s = [] \<or> ws_head s = 0")
      (use 1 in \<open>auto simp: trim_start.simps [of s]\<close>)
qed

lemma trim_rev_fixed: "ws_tail s = 0 \<Longrightarrow> trim_rev s = s"
  by (simp add: trim_rev.simps)

lemma ws_tail_trim_rev: "ws_tail (trim_rev s) = 0"
proof (induction s rule: trim_rev.induct)
  case (1 s)
  show ?case
    by (cases "s = [] \<or> ws_tail s = 0")
      (use 1 in \<open>auto simp: trim_rev.simps [of s]\<close>)
qed

lemma trim_rev_suffix: "\<exists>p. s = p @ trim_rev s"
proof (induction s rule: trim_rev.induct)
  case (1 s)
  show ?case
  proof (cases "s = [] \<or> ws_tail s = 0")
    case False
    obtain p where "drop (ws_tail s) s = p @ trim_rev (drop (ws_tail s) s)"
      using 1 [OF False] by blast
    then have "s = (take (ws_tail s) s @ p) @ trim_rev (drop (ws_tail s) s)"
      by (metis append_assoc append_take_drop_id)
    moreover have "trim_rev s = trim_rev (drop (ws_tail s) s)"
      using False by (simp add: trim_rev.simps [of s])
    ultimately show ?thesis by metis
  qed (auto simp: trim_rev.simps [of s])
qed

lemma trim_end_prefix: "\<exists>q. s = trim_end s @ q"
proof -
  obtain p where "rev s = p @ trim_rev (rev s)"
    using trim_rev_suffix by blast
  then have "s = rev (trim_rev (rev s)) @ rev p"
    by (metis rev_append rev_rev_ident)
  then show ?thesis by (auto simp: trim_end_def)
qed

lemma ws_head_trim: "ws_head (trim s) = 0"
proof -
  obtain q where "trim_start s = trim s @ q"
    using trim_end_prefix by (auto simp: trim_def)
  then show ?thesis
    using ws_head_trim_start [of s] ws_head_append [of "trim s" q] by auto
qed

lemma trim_idem [simp]: "trim (trim s) = trim s"
  using ws_head_trim [of s] ws_tail_trim_rev [of "rev (trim_start s)"]
  by (simp add: trim_def trim_start_fixed trim_end_def trim_rev_fixed)

lemma length_trim_start: "length (trim_start s) \<le> length s"
proof (induction s rule: trim_start.induct)
  case (1 s)
  show ?case
    by (cases "s = [] \<or> ws_head s = 0")
      (use 1 in \<open>auto simp: trim_start.simps [of s]\<close>)
qed

lemma length_trim: "length (trim s) \<le> length s"
proof -
  obtain q where "trim_start s = trim s @ q"
    using trim_end_prefix by (auto simp: trim_def)
  then have "length (trim s) \<le> length (trim_start s)"
    by (metis le_add1 length_append)
  then show ?thesis using length_trim_start le_trans by blast
qed

section \<open>Facts about decimal numbers\<close>

lemma code_digit_char: "d < 10 \<Longrightarrow> code (digit_char d) = 48 + d"
  by (simp add: code_def digit_char_def of_char_of)

lemma is_digit_digit_char [simp]: "d < 10 \<Longrightarrow> is_digit (digit_char d)"
  by (simp add: is_digit_def code_digit_char)

lemma show_nat_not_Nil [simp]: "show_nat n \<noteq> []"
  by (simp add: show_nat.simps [of n])

lemma show_nat_digits: "list_all is_digit (show_nat n)"
proof (induction n rule: show_nat.induct)
  case (1 n)
  then show ?case by (cases "n < 10") (auto simp: show_nat.simps [of n])
qed

lemma dec_value_snoc: "dec_value (s @ [c]) = 10 * dec_value s + (code c - 48)"
  by (simp add: dec_value_def dec_acc_def)

lemma dec_value_show_nat [simp]: "dec_value (show_nat n) = n"
proof (induction n rule: show_nat.induct)
  case (1 n)
  show ?case
  proof (cases "n < 10")
    case True
    then show ?thesis
      by (simp add: show_nat.simps [of n] dec_value_def dec_acc_def code_digit_char)
  next
    case False
    with 1 show ?thesis
      by (simp add: show_nat.simps [of n] dec_value_snoc code_digit_char)
  qed
qed

lemma show_nat_inj: "show_nat m = show_nat n \<longleftrightarrow> m = n"
  by (metis dec_value_show_nat)

lemma length_show_nat: "n < 10 ^ k \<Longrightarrow> 0 < k \<Longrightarrow> length (show_nat n) \<le> k"
proof (induction n arbitrary: k rule: show_nat.induct)
  case (1 n)
  show ?case
  proof (cases "n < 10")
    case True
    then show ?thesis using "1.prems" by (simp add: show_nat.simps [of n])
  next
    case False
    obtain j where k: "k = Suc j" using "1.prems" by (cases k) auto
    have "0 < j" using "1.prems" False k by (cases j) auto
    moreover have "n div 10 < 10 ^ j" using "1.prems" k by (simp add: less_mult_imp_div_less mult.commute)
    ultimately show ?thesis
      using "1.IH" [of j] False k by (simp add: show_nat.simps [of n])
  qed
qed

lemma length_show_u64: "length (show_u64 w) \<le> 20"
  unfolding show_u64_def by (rule length_show_nat) (use unat_u64 [of w] in simp_all)

lemma show_nat_no_plus: "show_nat n \<noteq> CHR ''+'' # r"
proof
  assume "show_nat n = CHR ''+'' # r"
  then have "is_digit CHR ''+''" using show_nat_digits [of n] by simp
  then show False by (simp add: is_digit_def code_def)
qed

lemma parse_show_u64 [simp]: "parse_u64 (show_u64 w) = Some w"
proof -
  have "(case show_nat (unat w) of [] \<Rightarrow> [] | c # r \<Rightarrow> if c = CHR ''+'' then r else show_nat (unat w))
      = show_nat (unat w)"
    using show_nat_no_plus [of "unat w"] by (auto split: list.split)
  then show ?thesis
    using unat_u64 [of w]
    by (simp add: parse_u64_def show_u64_def show_nat_digits)
qed

lemma show_u64_inj: "show_u64 v = show_u64 w \<longleftrightarrow> v = w"
  by (metis option.inject parse_show_u64)

end
