(* ===== verification/Rust_Float.thy ===== *)
theory Rust_Float
  imports Rust_Text
begin

text \<open>
  The floating-point operations the program uses, on IEEE bit patterns: the widening cast
  \<open>f32 as f64\<close>, the rounding cast \<open>i64 as f64\<close>, comparison and \<open>is_finite\<close>. A finite \<open>f64\<close>
  is an integer multiple of \<open>2\<^sup>-\<^sup>1\<^sup>0\<^sup>7\<^sup>4\<close> and a finite \<open>f32\<close> one of \<open>2\<^sup>-\<^sup>1\<^sup>4\<^sup>9\<close>; \<open>f64_scaled\<close> and
  \<open>f32_scaled\<close> are these integers, so exact statements need no real arithmetic. An
  infinity has the scaled value that its pattern would have as a number, which is beyond
  every finite one, so the comparisons need no separate case for it.
\<close>

type_synonym f32 = u32
type_synonym f64 = u64

section \<open>Fields of a bit pattern\<close>

definition f32_sign :: "f32 \<Rightarrow> nat" where "f32_sign x = unat x div 2 ^ 31"
definition f32_exp :: "f32 \<Rightarrow> nat" where "f32_exp x = unat x div 2 ^ 23 mod 2 ^ 8"
definition f32_frac :: "f32 \<Rightarrow> nat" where "f32_frac x = unat x mod 2 ^ 23"

definition f64_sign :: "f64 \<Rightarrow> nat" where "f64_sign x = unat x div 2 ^ 63"
definition f64_exp :: "f64 \<Rightarrow> nat" where "f64_exp x = unat x div 2 ^ 52 mod 2 ^ 11"
definition f64_frac :: "f64 \<Rightarrow> nat" where "f64_frac x = unat x mod 2 ^ 52"

definition f64_pack :: "nat \<Rightarrow> nat \<Rightarrow> nat \<Rightarrow> f64" where
  "f64_pack s e f = of_nat (s * 2 ^ 63 + e * 2 ^ 52 + f)"

definition signed :: "nat \<Rightarrow> nat \<Rightarrow> int" where
  "signed s m = (if s = 0 then int m else - int m)"

definition f32_mag :: "nat \<Rightarrow> nat \<Rightarrow> nat" where
  "f32_mag e f = (if e = 0 then f else (2 ^ 23 + f) * 2 ^ (e - 1))"

definition f64_mag :: "nat \<Rightarrow> nat \<Rightarrow> nat" where
  "f64_mag e f = (if e = 0 then f else (2 ^ 52 + f) * 2 ^ (e - 1))"

definition f32_scaled :: "f32 \<Rightarrow> int" where
  "f32_scaled x = signed (f32_sign x) (f32_mag (f32_exp x) (f32_frac x))"

definition f64_scaled :: "f64 \<Rightarrow> int" where
  "f64_scaled x = signed (f64_sign x) (f64_mag (f64_exp x) (f64_frac x))"

definition f64_is_nan :: "f64 \<Rightarrow> bool" where
  "f64_is_nan x \<longleftrightarrow> f64_exp x = 2047 \<and> f64_frac x \<noteq> 0"

definition f64_is_finite :: "f64 \<Rightarrow> bool" where
  "f64_is_finite x \<longleftrightarrow> f64_exp x \<noteq> 2047"

section \<open>Comparison\<close>

definition f64_le :: "f64 \<Rightarrow> f64 \<Rightarrow> bool" where
  "f64_le x y \<longleftrightarrow> \<not> f64_is_nan x \<and> \<not> f64_is_nan y \<and> f64_scaled x \<le> f64_scaled y"

definition f64_lt :: "f64 \<Rightarrow> f64 \<Rightarrow> bool" where
  "f64_lt x y \<longleftrightarrow> \<not> f64_is_nan x \<and> \<not> f64_is_nan y \<and> f64_scaled x < f64_scaled y"

section \<open>Casts\<close>

function nat_log2 :: "nat \<Rightarrow> nat" where
  "nat_log2 n = (if n < 2 then 0 else Suc (nat_log2 (n div 2)))"
  by pat_completeness auto
termination
  by (relation "measure id") auto

declare nat_log2.simps [simp del]

text \<open>
  A subnormal \<open>f32\<close> becomes a normal \<open>f64\<close>; a NaN keeps its payload bits. (Which NaN the
  cast of a NaN gives is left open by the language.)
\<close>

definition f32_to_f64 :: "f32 \<Rightarrow> f64" where
  "f32_to_f64 x =
     (let s = f32_sign x; e = f32_exp x; f = f32_frac x in
      if e = 255 then f64_pack s 2047 (f * 2 ^ 29)
      else if e \<noteq> 0 then f64_pack s (e + 896) (f * 2 ^ 29)
      else if f = 0 then f64_pack s 0 0
      else let k = nat_log2 f in f64_pack s (k + 874) ((f - 2 ^ k) * 2 ^ (52 - k)))"

definition round_shift :: "nat \<Rightarrow> nat \<Rightarrow> nat" where
  "round_shift n k =
     (let q = n div 2 ^ k; r = n mod 2 ^ k in
      if 2 * r > 2 ^ k \<or> 2 * r = 2 ^ k \<and> odd q then q + 1 else q)"

definition i64_to_f64 :: "i64 \<Rightarrow> f64" where
  "i64_to_f64 w =
     (let n = nat \<bar>sint w\<bar>; s = (if sint w < 0 then 1 else 0) in
      if n = 0 then 0
      else let k = nat_log2 n in
        if k \<le> 52 then f64_pack s (k + 1023) ((n - 2 ^ k) * 2 ^ (52 - k))
        else of_nat (s * 2 ^ 63 + (k + 1022) * 2 ^ 52 + round_shift n (k - 52)))"

section \<open>Packing\<close>

lemma unat_of_nat_u64: "n < 2 ^ 64 \<Longrightarrow> unat (of_nat n :: u64) = n"
  by (simp add: unat_of_nat)

lemma f64_fields_pack:
  assumes "s < 2" "e < 2048" "f < 2 ^ 52"
  shows "f64_sign (f64_pack s e f) = s" "f64_exp (f64_pack s e f) = e"
    "f64_frac (f64_pack s e f) = f"
proof -
  have b: "e * 2 ^ 52 + f < 2 ^ 63"
  proof -
    have "e * 2 ^ 52 \<le> 2047 * 2 ^ 52" using assms(2) by simp
    then show ?thesis using assms(3) by simp
  qed
  have "s * 2 ^ 63 + e * 2 ^ 52 + f < 2 ^ 64"
    using b assms(1) by (cases "s = 0") auto
  then have u: "unat (f64_pack s e f) = s * 2 ^ 63 + e * 2 ^ 52 + f"
    unfolding f64_pack_def by (rule unat_of_nat_u64)
  have "(s * 2 ^ 63 + (e * 2 ^ 52 + f)) div 2 ^ 63 = s"
    using b by (simp only: div_mult_self3) simp
  then show "f64_sign (f64_pack s e f) = s"
    by (simp only: f64_sign_def u add.assoc)
  have d: "(s * 2 ^ 63 + e * 2 ^ 52 + f) = (s * 2 ^ 11 + e) * 2 ^ 52 + f"
    by simp
  have "((s * 2 ^ 11 + e) * 2 ^ 52 + f) div 2 ^ 52 = s * 2 ^ 11 + e"
    using assms(3) by (simp only: div_mult_self3) simp
  then show "f64_exp (f64_pack s e f) = e"
    using assms(2) by (simp only: f64_exp_def u d) simp
  show "f64_frac (f64_pack s e f) = f"
    using assms(3) by (simp only: f64_frac_def u d mod_mult_self3 mod_less)
qed

lemma f32_fields_bound:
  "f32_sign x < 2" "f32_exp x < 256" "f32_frac x < 2 ^ 23"
  using unat_u32 [of x] by (auto simp: f32_sign_def f32_exp_def f32_frac_def)

lemma nat_log2_bounds: "0 < n \<Longrightarrow> 2 ^ nat_log2 n \<le> n \<and> n < 2 * 2 ^ nat_log2 n"
proof (induction n rule: nat_log2.induct)
  case (1 n)
  show ?case
  proof (cases "n < 2")
    case True
    then show ?thesis using "1.prems" by (simp add: nat_log2.simps [of n])
  next
    case False
    then have "2 ^ nat_log2 (n div 2) \<le> n div 2 \<and> n div 2 < 2 * 2 ^ nat_log2 (n div 2)"
      using "1.IH" by simp
    then show ?thesis using False by (auto simp: nat_log2.simps [of n])
  qed
qed

section \<open>The widening cast is exact\<close>

lemma f64_scaled_pack:
  assumes "s < 2" "e < 2048" "f < 2 ^ 52"
  shows "f64_scaled (f64_pack s e f) = signed s (f64_mag e f)"
  by (simp only: f64_scaled_def f64_fields_pack [OF assms])

lemma signed_mult: "signed s (m * c) = signed s m * int c"
  by (simp add: signed_def)

lemma widen_mag_normal:
  assumes "0 < e"
  shows "f64_mag (e + 896) (f * 2 ^ 29) = f32_mag e f * 2 ^ 925"
proof -
  have "(2::nat) ^ (e + 895) * 2 ^ 29 = 2 ^ (e - 1) * 2 ^ 925"
    using assms by (simp only: power_add [symmetric]) simp
  moreover have "(2 ^ 52 + f * 2 ^ 29 :: nat) = (2 ^ 23 + f) * 2 ^ 29"
    by simp
  ultimately show ?thesis
    using assms unfolding f64_mag_def f32_mag_def
    by (simp only: mult.assoc mult.commute [of "2 ^ 29"] split: if_split)
      (simp add: add.commute)
qed

lemma widen_mag_subnormal:
  assumes "0 < f" "f < 2 ^ 23"
  shows "f64_mag (nat_log2 f + 874) ((f - 2 ^ nat_log2 f) * 2 ^ (52 - nat_log2 f)) = f * 2 ^ 925"
    and "(f - 2 ^ nat_log2 f) * 2 ^ (52 - nat_log2 f) < 2 ^ 52" and "nat_log2 f < 23"
proof -
  let ?k = "nat_log2 f"
  have b: "2 ^ ?k \<le> f" "f < 2 * 2 ^ ?k"
    using nat_log2_bounds [OF assms(1)] by auto
  then have "(2::nat) ^ ?k < 2 ^ 23" using assms(2) by linarith
  then show k: "?k < 23" by (rule power_less_imp_less_exp [rotated]) simp
  have p: "(2::nat) ^ 52 = 2 ^ ?k * 2 ^ (52 - ?k)"
    using k by (simp only: power_add [symmetric]) simp
  have s: "2 ^ 52 + (f - 2 ^ ?k) * 2 ^ (52 - ?k) = f * 2 ^ (52 - ?k)"
    unfolding p using b(1) by (simp only: add_mult_distrib [symmetric]) simp
  have "(2::nat) ^ (52 - ?k) * 2 ^ (?k + 873) = 2 ^ 925"
    using k by (simp only: power_add [symmetric]) simp
  then show "f64_mag (?k + 874) ((f - 2 ^ ?k) * 2 ^ (52 - ?k)) = f * 2 ^ 925"
    unfolding f64_mag_def s by (simp only: mult.assoc split: if_split) (simp add: add.commute)
  have "f - 2 ^ ?k < 2 ^ ?k" using b by linarith
  then show "(f - 2 ^ ?k) * 2 ^ (52 - ?k) < 2 ^ 52"
    unfolding p by simp
qed

lemma f32_to_f64_exact:
  assumes "f32_exp x \<noteq> 255"
  shows "f64_scaled (f32_to_f64 x) = f32_scaled x * 2 ^ 925"
    and "f64_is_finite (f32_to_f64 x)"
proof -
  have b: "f32_sign x < 2" "f32_exp x < 255" "f32_frac x < 2 ^ 23"
    using f32_fields_bound [of x] assms by auto
  have fr: "f32_frac x * 2 ^ 29 < 2 ^ 52"
    using b(3) by simp
  consider "f32_exp x \<noteq> 0" | "f32_exp x = 0" "f32_frac x = 0" | "f32_exp x = 0" "f32_frac x \<noteq> 0"
    by blast
  then have "\<exists>e f. f32_to_f64 x = f64_pack (f32_sign x) e f \<and> e < 2047 \<and> f < 2 ^ 52 \<and>
      f64_mag e f = f32_mag (f32_exp x) (f32_frac x) * 2 ^ 925"
  proof cases
    case 1
    then show ?thesis
      using b fr widen_mag_normal [of "f32_exp x" "f32_frac x"] by (force simp: f32_to_f64_def Let_def)
  next
    case 2
    then show ?thesis
      by (intro exI [of _ 0]) (simp add: f32_to_f64_def f64_mag_def f32_mag_def)
  next
    case 3
    then have "f32_to_f64 x = f64_pack (f32_sign x) (nat_log2 (f32_frac x) + 874)
        ((f32_frac x - 2 ^ nat_log2 (f32_frac x)) * 2 ^ (52 - nat_log2 (f32_frac x)))"
      by (simp only: f32_to_f64_def Let_def) simp
    then show ?thesis
      using 3 b widen_mag_subnormal [of "f32_frac x"]
      by (intro exI) (auto simp: f32_mag_def simp del: power_numeral)
  qed
  then show "f64_scaled (f32_to_f64 x) = f32_scaled x * 2 ^ 925" "f64_is_finite (f32_to_f64 x)"
    using b(1)
    by (auto simp: f64_scaled_pack f32_scaled_def signed_mult f64_is_finite_def f64_fields_pack
        simp del: power_numeral)
qed

end
