(* ===== verification/Edge_Wire.thy ===== *)
theory Edge_Wire
  imports Rust_Float
begin

text \<open>
  The compact edge-device wire format (\<open>skid-edge-wire/src/lib.rs\<close>): the frame encoder
  that writes into a caller's buffer, the frame decoder, and the record iterator. A
  result of \<open>None\<close> is a Rust panic (an index or slice out of range), so the encoder and
  the decoder are shown never to panic. An \<open>f32\<close> is its bit pattern, which is all the
  wire format reads of it (\<open>to_bits\<close> / \<open>from_bits\<close>).
\<close>

section \<open>Data\<close>



definition MAGIC :: bytes where "MAGIC = [0x53, 0x45]"
definition VERSION :: u8 where "VERSION = 1"
definition FRAME_KIND_METRICS :: u8 where "FRAME_KIND_METRICS = 1"
definition HEADER_LEN :: nat where "HEADER_LEN = 10"
definition RECORD_LEN :: nat where "RECORD_LEN = 10"

datatype encode_error =
    FieldTooLong
  | TooManyMetrics
  | OutputTooSmall
  | EncReservedMetricId
  | EncReservedSensorId

datatype decode_error =
    TooShort
  | BadMagic
  | UnsupportedVersion
  | UnsupportedKind
  | InvalidUtf8
  | TruncatedIdentity
  | BadRecordLength
  | ReservedMetricId
  | ReservedSensorId
  | UnknownMetricKind
  | UnknownUnit

record edge_identity =
  ei_device_id :: string
  ei_node_name :: string

datatype metric_id = MetricId (metric_id_get: u16)

datatype sensor_id = SensorId (sensor_id_get: u16)

datatype edge_metric_kind = EdgeGauge | EdgeSum | EdgeHistogram

datatype edge_unit = UnitNone | Celsius | Volt | Dbm | Count | Percent

record edge_metric_sample =
  es_metric_id :: metric_id
  es_sensor_id :: sensor_id
  es_kind :: edge_metric_kind
  es_unit :: edge_unit
  es_value :: f32

record edge_metrics_frame =
  ef_seq :: u16
  ef_flags :: u8
  ef_device_id :: string
  ef_node_name :: string
  ef_metric_count :: u8
  ef_records :: bytes

record edge_metric_iter =
  it_records :: bytes
  it_remaining :: u8

section \<open>Identifiers, kinds and units\<close>

definition metric_id_new :: "u16 \<Rightarrow> metric_id option" where
  "metric_id_new value = (if value = 0 then None else Some (MetricId value))"

definition metric_known_name :: "metric_id \<Rightarrow> string option" where
  "metric_known_name m =
     (let v = metric_id_get m in
      if v = 1 then Some ''edge.temperature''
      else if v = 2 then Some ''edge.voltage.input''
      else if v = 3 then Some ''edge.network.rssi''
      else if v = 4 then Some ''edge.boot.count''
      else if v = 5 then Some ''edge.watchdog.resets''
      else None)"

definition sensor_id_new :: "u16 \<Rightarrow> sensor_id option" where
  "sensor_id_new value = (if value = 0 then None else Some (SensorId value))"

definition sensor_known_name :: "sensor_id \<Rightarrow> string option" where
  "sensor_known_name s =
     (let v = sensor_id_get s in
      if v = 1 then Some ''enclosure''
      else if v = 2 then Some ''power''
      else if v = 3 then Some ''wifi''
      else if v = 4 then Some ''runtime''
      else None)"

fun kind_as_u8 :: "edge_metric_kind \<Rightarrow> u8" where
  "kind_as_u8 EdgeGauge = 1"
| "kind_as_u8 EdgeSum = 2"
| "kind_as_u8 EdgeHistogram = 3"

definition kind_from_u8 :: "u8 \<Rightarrow> edge_metric_kind option" where
  "kind_from_u8 value =
     (if value = 1 then Some EdgeGauge
      else if value = 2 then Some EdgeSum
      else if value = 3 then Some EdgeHistogram
      else None)"

fun unit_as_u8 :: "edge_unit \<Rightarrow> u8" where
  "unit_as_u8 UnitNone = 0"
| "unit_as_u8 Celsius = 1"
| "unit_as_u8 Volt = 2"
| "unit_as_u8 Dbm = 3"
| "unit_as_u8 Count = 4"
| "unit_as_u8 Percent = 5"

definition unit_from_u8 :: "u8 \<Rightarrow> edge_unit option" where
  "unit_from_u8 value =
     (if value = 0 then Some UnitNone
      else if value = 1 then Some Celsius
      else if value = 2 then Some Volt
      else if value = 3 then Some Dbm
      else if value = 4 then Some Count
      else if value = 5 then Some Percent
      else None)"

fun unit_as_str :: "edge_unit \<Rightarrow> string option" where
  "unit_as_str UnitNone = None"
| "unit_as_str Celsius = Some ''C''"
| "unit_as_str Volt = Some ''V''"
| "unit_as_str Dbm = Some ''dBm''"
| "unit_as_str Count = Some ''1''"
| "unit_as_str Percent = Some ''%''"

section \<open>The record iterator\<close>

definition frame_records :: "edge_metrics_frame \<Rightarrow> edge_metric_iter" where
  "frame_records f = \<lparr>it_records = ef_records f, it_remaining = ef_metric_count f\<rparr>"

definition decode_record :: "bytes \<Rightarrow> (decode_error + edge_metric_sample) option" where
  "decode_record record = do {
     r0 \<leftarrow> idx record 0; r1 \<leftarrow> idx record 1;
     case metric_id_new (u16_from_be [r0, r1]) of
       None \<Rightarrow> Some (Inl ReservedMetricId)
     | Some metric_id \<Rightarrow> do {
     r2 \<leftarrow> idx record 2; r3 \<leftarrow> idx record 3;
     case sensor_id_new (u16_from_be [r2, r3]) of
       None \<Rightarrow> Some (Inl ReservedSensorId)
     | Some sensor_id \<Rightarrow> do {
     r4 \<leftarrow> idx record 4;
     case kind_from_u8 r4 of
       None \<Rightarrow> Some (Inl UnknownMetricKind)
     | Some kind \<Rightarrow> do {
     r5 \<leftarrow> idx record 5;
     case unit_from_u8 r5 of
       None \<Rightarrow> Some (Inl UnknownUnit)
     | Some unit \<Rightarrow> do {
     r6 \<leftarrow> idx record 6; r7 \<leftarrow> idx record 7; r8 \<leftarrow> idx record 8; r9 \<leftarrow> idx record 9;
     Some (Inr \<lparr>es_metric_id = metric_id, es_sensor_id = sensor_id, es_kind = kind,
       es_unit = unit, es_value = u32_from_be [r6, r7, r8, r9]\<rparr>) }}}}}"

definition iter_next ::
  "edge_metric_iter \<Rightarrow> ((decode_error + edge_metric_sample) option \<times> edge_metric_iter) option"
where
  "iter_next it =
     (if it_remaining it = 0 then Some (None, it)
      else if length (it_records it) < RECORD_LEN
      then Some (Some (Inl BadRecordLength), it\<lparr>it_remaining := 0\<rparr>)
      else do {
        record \<leftarrow> slice (it_records it) 0 RECORD_LEN;
        rest \<leftarrow> slice (it_records it) RECORD_LEN (length (it_records it));
        item \<leftarrow> decode_record record;
        Some (Some item, \<lparr>it_records = rest, it_remaining = it_remaining it - 1\<rparr>) })"

lemma iter_next_decreases:
  assumes "iter_next it = Some (Some r, it')"
  shows "unat (it_remaining it') < unat (it_remaining it)"
proof -
  have nz: "it_remaining it \<noteq> 0"
    using assms by (auto simp: iter_next_def)
  then have pos: "0 < unat (it_remaining it)"
    by (simp add: unat_gt_0)
  from assms nz consider "it_remaining it' = 0" | "it_remaining it' = it_remaining it - 1"
    by (auto simp: iter_next_def split: if_splits bind_splits)
  then show ?thesis
    using pos nz by cases (auto simp: unat_dec)
qed

text \<open>Driving the iterator to its end, as a \<open>for\<close> loop does.\<close>

function iter_run :: "edge_metric_iter \<Rightarrow> (decode_error + edge_metric_sample) list" where
  "iter_run it =
     (case iter_next it of Some (Some r, it') \<Rightarrow> r # iter_run it' | _ \<Rightarrow> [])"
  by pat_completeness auto
termination
  by (relation "measure (\<lambda>it. unat (it_remaining it))") (auto dest: iter_next_decreases)

declare iter_run.simps [simp del]

section \<open>Encoding and decoding frames\<close>

definition is_edge_wire_frame :: "bytes \<Rightarrow> bool" where
  "is_edge_wire_frame input \<longleftrightarrow> HEADER_LEN \<le> length input \<and> slice input 0 2 = Some MAGIC"

fun write_samples :: "edge_metric_sample list \<Rightarrow> nat \<Rightarrow> bytes \<Rightarrow> bytes option" where
  "write_samples [] cursor out = Some out"
| "write_samples (sample # rest) cursor out = do {
     out \<leftarrow> copy_at cursor (u16_to_be (metric_id_get (es_metric_id sample))) out;
     out \<leftarrow> copy_at (cursor + 2) (u16_to_be (sensor_id_get (es_sensor_id sample))) out;
     out \<leftarrow> copy_at (cursor + 4) [kind_as_u8 (es_kind sample)] out;
     out \<leftarrow> copy_at (cursor + 5) [unit_as_u8 (es_unit sample)] out;
     out \<leftarrow> copy_at (cursor + 6) (u32_to_be (es_value sample)) out;
     write_samples rest (cursor + RECORD_LEN) out }"

definition encode_metrics_frame ::
  "bytes \<Rightarrow> u16 \<Rightarrow> edge_identity \<Rightarrow> edge_metric_sample list \<Rightarrow>
    ((encode_error + nat) \<times> bytes) option"
where
  "encode_metrics_frame out seq identity metrics =
     (let device_id = as_bytes (ei_device_id identity);
          node_name = as_bytes (ei_node_name identity)
      in
      if length device_id > 255 \<or> length node_name > 255 then Some (Inl FieldTooLong, out)
      else if length metrics > 255 then Some (Inl TooManyMetrics, out)
      else if list_ex (\<lambda>s. metric_id_get (es_metric_id s) = 0) metrics
      then Some (Inl EncReservedMetricId, out)
      else if list_ex (\<lambda>s. sensor_id_get (es_sensor_id s) = 0) metrics
      then Some (Inl EncReservedSensorId, out)
      else
        let required = HEADER_LEN + length device_id + length node_name
                         + length metrics * RECORD_LEN
        in
        if length out < required then Some (Inl OutputTooSmall, out)
        else do {
          out \<leftarrow> copy_at 0 MAGIC out;
          out \<leftarrow> copy_at 2 [VERSION] out;
          out \<leftarrow> copy_at 3 [FRAME_KIND_METRICS] out;
          out \<leftarrow> copy_at 4 [0] out;
          out \<leftarrow> copy_at 5 (u16_to_be seq) out;
          out \<leftarrow> copy_at 7 [of_nat (length metrics)] out;
          out \<leftarrow> copy_at 8 [of_nat (length device_id)] out;
          out \<leftarrow> copy_at 9 [of_nat (length node_name)] out;
          out \<leftarrow> copy_at HEADER_LEN device_id out;
          out \<leftarrow> copy_at (HEADER_LEN + length device_id) node_name out;
          out \<leftarrow> write_samples metrics (HEADER_LEN + length device_id + length node_name) out;
          Some (Inr required, out) })"

definition decode_metrics_frame ::
  "bytes \<Rightarrow> (decode_error + edge_metrics_frame) option"
where
  "decode_metrics_frame input =
     (if length input < HEADER_LEN then Some (Inl TooShort) else do {
      magic \<leftarrow> slice input 0 2;
      if magic \<noteq> MAGIC then Some (Inl BadMagic) else do {
      version \<leftarrow> idx input 2;
      if version \<noteq> VERSION then Some (Inl UnsupportedVersion) else do {
      kind \<leftarrow> idx input 3;
      if kind \<noteq> FRAME_KIND_METRICS then Some (Inl UnsupportedKind) else do {
      flags \<leftarrow> idx input 4;
      s0 \<leftarrow> idx input 5; s1 \<leftarrow> idx input 6;
      metric_count \<leftarrow> idx input 7;
      dl \<leftarrow> idx input 8; nl \<leftarrow> idx input 9;
      let device_id_len = unat dl; node_name_len = unat nl in
      if length input < HEADER_LEN + (device_id_len + node_name_len)
      then Some (Inl TruncatedIdentity) else do {
      device \<leftarrow> slice input HEADER_LEN (HEADER_LEN + device_id_len);
      case from_utf8 device of None \<Rightarrow> Some (Inl InvalidUtf8) | Some device_id \<Rightarrow> do {
      node \<leftarrow> slice input (HEADER_LEN + device_id_len)
                         (HEADER_LEN + device_id_len + node_name_len);
      case from_utf8 node of None \<Rightarrow> Some (Inl InvalidUtf8) | Some node_name \<Rightarrow> do {
      records \<leftarrow> slice input (HEADER_LEN + device_id_len + node_name_len) (length input);
      if length records \<noteq> unat metric_count * RECORD_LEN
      then Some (Inl BadRecordLength)
      else Some (Inr \<lparr>ef_seq = u16_from_be [s0, s1], ef_flags = flags,
             ef_device_id = device_id, ef_node_name = node_name,
             ef_metric_count = metric_count, ef_records = records\<rparr>) }}}}}}})"

section \<open>The frame layout\<close>

definition record_bytes :: "edge_metric_sample \<Rightarrow> bytes" where
  "record_bytes s = u16_to_be (metric_id_get (es_metric_id s))
     @ u16_to_be (sensor_id_get (es_sensor_id s))
     @ [kind_as_u8 (es_kind s), unit_as_u8 (es_unit s)] @ u32_to_be (es_value s)"

definition frame_bytes :: "u8 \<Rightarrow> u16 \<Rightarrow> edge_identity \<Rightarrow> edge_metric_sample list \<Rightarrow> bytes" where
  "frame_bytes flags seq identity metrics =
     MAGIC @ [VERSION, FRAME_KIND_METRICS, flags] @ u16_to_be seq
     @ [of_nat (length metrics), of_nat (length (ei_device_id identity)),
        of_nat (length (ei_node_name identity))]
     @ as_bytes (ei_device_id identity) @ as_bytes (ei_node_name identity)
     @ concat (map record_bytes metrics)"

definition encodable :: "edge_identity \<Rightarrow> edge_metric_sample list \<Rightarrow> bool" where
  "encodable identity metrics \<longleftrightarrow>
     length (ei_device_id identity) \<le> 255 \<and> length (ei_node_name identity) \<le> 255 \<and>
     length metrics \<le> 255 \<and>
     list_all (\<lambda>s. metric_id_get (es_metric_id s) \<noteq> 0 \<and> sensor_id_get (es_sensor_id s) \<noteq> 0) metrics"

section \<open>Records\<close>

lemma kind_from_as [simp]: "kind_from_u8 (kind_as_u8 k) = Some k"
  by (cases k) (simp_all add: kind_from_u8_def)

lemma kind_from_u8_Some: "kind_from_u8 b = Some k \<longleftrightarrow> b = kind_as_u8 k"
  by (cases k) (auto simp: kind_from_u8_def)

lemma unit_from_as [simp]: "unit_from_u8 (unit_as_u8 u) = Some u"
  by (cases u) (simp_all add: unit_from_u8_def)

lemma unit_from_u8_Some: "unit_from_u8 b = Some u \<longleftrightarrow> b = unit_as_u8 u"
  by (cases u) (auto simp: unit_from_u8_def)

lemma metric_id_new_Some: "metric_id_new v = Some m \<longleftrightarrow> v \<noteq> 0 \<and> m = MetricId v"
  by (auto simp: metric_id_new_def)

lemma sensor_id_new_Some: "sensor_id_new v = Some m \<longleftrightarrow> v \<noteq> 0 \<and> m = SensorId v"
  by (auto simp: sensor_id_new_def)

lemma len10: "length xs = 10 \<longleftrightarrow> (\<exists>a b c d e f g h i j. xs = [a, b, c, d, e, f, g, h, i, j])"
  by (auto simp: numeral_eq_Suc length_Suc_conv)

lemma length_record_bytes [simp]: "length (record_bytes s) = RECORD_LEN"
  by (simp add: record_bytes_def RECORD_LEN_def length_u32_to_be)

lemma decode_record_cons:
  "decode_record [a, b, c, d, e, f, g, h, i, j] = Some
     (case metric_id_new (u16_from_be [a, b]) of None \<Rightarrow> Inl ReservedMetricId | Some m \<Rightarrow>
      case sensor_id_new (u16_from_be [c, d]) of None \<Rightarrow> Inl ReservedSensorId | Some s \<Rightarrow>
      case kind_from_u8 e of None \<Rightarrow> Inl UnknownMetricKind | Some k \<Rightarrow>
      case unit_from_u8 f of None \<Rightarrow> Inl UnknownUnit | Some u \<Rightarrow>
        Inr \<lparr>es_metric_id = m, es_sensor_id = s, es_kind = k, es_unit = u,
             es_value = u32_from_be [g, h, i, j]\<rparr>)"
  by (simp add: decode_record_def idx_def split: option.split)

lemma decode_record_total: "length bs = RECORD_LEN \<Longrightarrow> \<exists>r. decode_record bs = Some r"
  by (auto simp: RECORD_LEN_def len10 decode_record_cons)

lemma decode_record_bytes:
  assumes "metric_id_get (es_metric_id s) \<noteq> 0" "sensor_id_get (es_sensor_id s) \<noteq> 0"
  shows "decode_record (record_bytes s) = Some (Inr s)"
proof -
  obtain a b where m: "u16_to_be (metric_id_get (es_metric_id s)) = [a, b]"
    by (simp add: u16_to_be_def)
  obtain c d where n: "u16_to_be (sensor_id_get (es_sensor_id s)) = [c, d]"
    by (simp add: u16_to_be_def)
  obtain g h i j where v: "u32_to_be (es_value s) = [g, h, i, j]"
    by (simp add: u32_to_be_def)
  show ?thesis
    using assms be16.dec_enc [of "metric_id_get (es_metric_id s)"]
      be16.dec_enc [of "sensor_id_get (es_sensor_id s)"] be32.dec_enc [of "es_value s"]
    by (simp add: record_bytes_def m n v decode_record_cons metric_id_new_def sensor_id_new_def)
qed

lemma record_bytes_decode:
  assumes "length bs = RECORD_LEN" "decode_record bs = Some (Inr s)"
  shows "record_bytes s = bs \<and> metric_id_get (es_metric_id s) \<noteq> 0 \<and> sensor_id_get (es_sensor_id s) \<noteq> 0"
  using assms
  by (auto simp: RECORD_LEN_def len10 decode_record_cons record_bytes_def kind_from_u8_Some
      unit_from_u8_Some metric_id_new_Some sensor_id_new_Some u16_enc_dec u32_enc_dec
      split: option.splits)

section \<open>The iterator\<close>

lemma iter_next_step:
  assumes "it_remaining it \<noteq> 0" "it_records it = r @ rest" "length r = RECORD_LEN"
  shows "iter_next it = Some (Some (the (decode_record r)),
    \<lparr>it_records = rest, it_remaining = it_remaining it - 1\<rparr>)"
  using decode_record_total [OF assms(3)] assms
  by (auto simp: iter_next_def slice_def)

lemma iter_next_total: "\<exists>y. iter_next it = Some y"
proof (cases "it_remaining it = 0 \<or> length (it_records it) < RECORD_LEN")
  case True
  then show ?thesis by (auto simp: iter_next_def)
next
  case False
  then have "length (take RECORD_LEN (it_records it)) = RECORD_LEN" by simp
  then show ?thesis
    using iter_next_step [of it "take RECORD_LEN (it_records it)" "drop RECORD_LEN (it_records it)"]
      False by auto
qed

lemma iter_run_chunks:
  assumes "list_all (\<lambda>r. length r = RECORD_LEN) rs" "length rs = unat n"
  shows "iter_run \<lparr>it_records = concat rs, it_remaining = n\<rparr> = map (the \<circ> decode_record) rs"
  using assms
proof (induction rs arbitrary: n)
  case Nil
  then show ?case by (simp add: iter_run.simps iter_next_def unat_eq_zero [symmetric])
next
  case (Cons r rs)
  let ?it = "\<lparr>it_records = concat (r # rs), it_remaining = n\<rparr>"
  have nz: "n \<noteq> 0" using Cons.prems by auto
  have "iter_next ?it = Some (Some (the (decode_record r)),
      \<lparr>it_records = concat rs, it_remaining = n - 1\<rparr>)"
    using iter_next_step [of ?it r "concat rs"] nz Cons.prems by simp
  moreover have "length rs = unat (n - 1)"
    using Cons.prems nz by (simp add: unat_dec)
  moreover have "list_all (\<lambda>r. length r = RECORD_LEN) rs"
    using Cons.prems by simp
  ultimately show ?case
    using Cons.IH [of "n - 1"] by (subst iter_run.simps) simp
qed

lemma chunked:
  assumes "length bs = n * k"
  shows "\<exists>rs. bs = concat rs \<and> list_all (\<lambda>r. length r = k) rs \<and> length rs = n"
  using assms
proof (induction n arbitrary: bs)
  case (Suc n)
  obtain rs where rs: "drop k bs = concat rs" "list_all (\<lambda>r. length r = k) rs" "length rs = n"
    using Suc.IH [of "drop k bs"] Suc.prems by auto
  have "bs = concat (take k bs # rs)" by (simp add: rs(1) [symmetric])
  then show ?case using rs Suc.prems by (intro exI [of _ "take k bs # rs"]) auto
qed simp

section \<open>The encoder writes the frame layout\<close>

lemma copy_at_snoc:
  assumes "length pre = n" "m = n + length src" "m \<le> length buf" "post = pre @ src"
  shows "copy_at n src (pre @ drop n buf) = Some (post @ drop m buf)"
  using assms by (simp add: copy_at_def add.commute)

lemma write_samples_bytes:
  assumes "length pre = n" "n + length metrics * RECORD_LEN \<le> length buf"
  shows "write_samples metrics n (pre @ drop n buf) =
    Some ((pre @ concat (map record_bytes metrics)) @ drop (n + length metrics * RECORD_LEN) buf)"
  using assms
proof (induction metrics arbitrary: n pre)
  case (Cons s ss)
  let ?m = "u16_to_be (metric_id_get (es_metric_id s))"
  let ?n = "u16_to_be (sensor_id_get (es_sensor_id s))"
  let ?k = "[kind_as_u8 (es_kind s)]" and ?u = "[unit_as_u8 (es_unit s)]"
  let ?v = "u32_to_be (es_value s)"
  have len: "length pre = n" "n + 10 \<le> length buf" "length ?v = 4"
    using Cons.prems by (auto simp: RECORD_LEN_def length_u32_to_be)
  have w: "copy_at n ?m (pre @ drop n buf) = Some ((pre @ ?m) @ drop (n + 2) buf)"
    "copy_at (n + 2) ?n ((pre @ ?m) @ drop (n + 2) buf) = Some (((pre @ ?m) @ ?n) @ drop (n + 4) buf)"
    "copy_at (n + 4) ?k (((pre @ ?m) @ ?n) @ drop (n + 4) buf)
      = Some ((((pre @ ?m) @ ?n) @ ?k) @ drop (n + 5) buf)"
    "copy_at (n + 5) ?u ((((pre @ ?m) @ ?n) @ ?k) @ drop (n + 5) buf)
      = Some (((((pre @ ?m) @ ?n) @ ?k) @ ?u) @ drop (n + 6) buf)"
    "copy_at (n + 6) ?v (((((pre @ ?m) @ ?n) @ ?k) @ ?u) @ drop (n + 6) buf)
      = Some ((((((pre @ ?m) @ ?n) @ ?k) @ ?u) @ ?v) @ drop (n + 10) buf)"
    by (rule copy_at_snoc; use len in simp)+
  have rb: "((((pre @ ?m) @ ?n) @ ?k) @ ?u) @ ?v = pre @ record_bytes s"
    by (simp add: record_bytes_def)
  have "write_samples (s # ss) n (pre @ drop n buf)
      = write_samples ss (n + RECORD_LEN) ((pre @ record_bytes s) @ drop (n + RECORD_LEN) buf)"
    unfolding write_samples.simps w bind.bind_lunit rb by (simp add: RECORD_LEN_def)
  also have "\<dots> = Some (((pre @ record_bytes s) @ concat (map record_bytes ss))
      @ drop (n + RECORD_LEN + length ss * RECORD_LEN) buf)"
    using Cons.prems by (intro Cons.IH) (auto simp: algebra_simps)
  finally show ?case by (simp add: algebra_simps)
qed simp

lemma length_frame_bytes:
  "length (frame_bytes flags seq identity metrics) =
    HEADER_LEN + length (ei_device_id identity) + length (ei_node_name identity)
      + length metrics * RECORD_LEN"
proof -
  have "length (concat (map record_bytes metrics)) = length metrics * RECORD_LEN"
    by (induction metrics) auto
  then show ?thesis
    by (simp add: frame_bytes_def MAGIC_def HEADER_LEN_def)
qed

lemma encode_ok:
  assumes enc: "encodable identity metrics"
    and room: "length (frame_bytes 0 seq identity metrics) \<le> length out"
  shows "encode_metrics_frame out seq identity metrics =
    Some (Inr (length (frame_bytes 0 seq identity metrics)),
      frame_bytes 0 seq identity metrics @ drop (length (frame_bytes 0 seq identity metrics)) out)"
proof -
  let ?d = "as_bytes (ei_device_id identity)" and ?n = "as_bytes (ei_node_name identity)"
  let ?dl = "length (ei_device_id identity)" and ?nl = "length (ei_node_name identity)"
  let ?L = "10 + ?dl + ?nl + length metrics * RECORD_LEN"
  have L: "length (frame_bytes 0 seq identity metrics) = ?L"
    by (simp add: length_frame_bytes HEADER_LEN_def)
  have room': "10 + ?dl + ?nl + length metrics * RECORD_LEN \<le> length out"
    using room L by simp
  define p where "p = [0x53, 0x45, VERSION, FRAME_KIND_METRICS, 0] @ u16_to_be seq"
  define q where "q = p @ [of_nat (length metrics), of_nat ?dl, of_nat ?nl]"
  have lp: "length p = 7" and lq: "length q = 10" by (simp_all add: p_def q_def)
  have h: "copy_at 0 MAGIC ([] @ drop 0 out) = Some ([0x53, 0x45] @ drop 2 out)"
    "copy_at 2 [VERSION] ([0x53, 0x45] @ drop 2 out) = Some ([0x53, 0x45, VERSION] @ drop 3 out)"
    "copy_at 3 [FRAME_KIND_METRICS] ([0x53, 0x45, VERSION] @ drop 3 out)
      = Some ([0x53, 0x45, VERSION, FRAME_KIND_METRICS] @ drop 4 out)"
    "copy_at 4 [0] ([0x53, 0x45, VERSION, FRAME_KIND_METRICS] @ drop 4 out)
      = Some ([0x53, 0x45, VERSION, FRAME_KIND_METRICS, 0] @ drop 5 out)"
    "copy_at 5 (u16_to_be seq) ([0x53, 0x45, VERSION, FRAME_KIND_METRICS, 0] @ drop 5 out)
      = Some (p @ drop 7 out)"
    "copy_at 7 [of_nat (length metrics)] (p @ drop 7 out)
      = Some ((p @ [of_nat (length metrics)]) @ drop 8 out)"
    "copy_at 8 [of_nat ?dl] ((p @ [of_nat (length metrics)]) @ drop 8 out)
      = Some ((p @ [of_nat (length metrics), of_nat ?dl]) @ drop 9 out)"
    "copy_at 9 [of_nat ?nl] ((p @ [of_nat (length metrics), of_nat ?dl]) @ drop 9 out)
      = Some (q @ drop 10 out)"
    "copy_at 10 ?d (q @ drop 10 out) = Some ((q @ ?d) @ drop (10 + ?dl) out)"
    "copy_at (10 + ?dl) ?n ((q @ ?d) @ drop (10 + ?dl) out)
      = Some (((q @ ?d) @ ?n) @ drop (10 + ?dl + ?nl) out)"
    by (rule copy_at_snoc; use room' lp lq in \<open>simp add: MAGIC_def p_def q_def\<close>)+
  have s: "write_samples metrics (10 + ?dl + ?nl) (((q @ ?d) @ ?n) @ drop (10 + ?dl + ?nl) out)
      = Some ((((q @ ?d) @ ?n) @ concat (map record_bytes metrics)) @ drop ?L out)"
    using room' lq by (intro write_samples_bytes) simp_all
  have f: "((q @ ?d) @ ?n) @ concat (map record_bytes metrics) = frame_bytes 0 seq identity metrics"
    by (simp add: q_def p_def frame_bytes_def MAGIC_def)
  have g: "\<not> list_ex (\<lambda>s. metric_id_get (es_metric_id s) = 0) metrics"
    "\<not> list_ex (\<lambda>s. sensor_id_get (es_sensor_id s) = 0) metrics"
    using enc by (auto simp: encodable_def list_ex_iff list_all_iff)
  show ?thesis
    using enc g room' s unfolding encode_metrics_frame_def L f
    by (simp add: encodable_def Let_def HEADER_LEN_def h [simplified append_Nil drop_0] del: append_assoc append_Cons append_Nil)
qed

section \<open>The decoder reads the frame layout\<close>

definition frame_of :: "u8 \<Rightarrow> u16 \<Rightarrow> edge_identity \<Rightarrow> edge_metric_sample list \<Rightarrow> edge_metrics_frame" where
  "frame_of flags seq identity metrics =
     \<lparr>ef_seq = seq, ef_flags = flags, ef_device_id = ei_device_id identity,
      ef_node_name = ei_node_name identity, ef_metric_count = of_nat (length metrics),
      ef_records = concat (map record_bytes metrics)\<rparr>"

lemma unat_of_nat_byte: "n \<le> 255 \<Longrightarrow> unat (of_nat n :: u8) = n"
  by (simp add: unat_of_nat)

lemma drop_header:
  shows "drop (10 + n) (a # b # c # d # e # f # g # h # i # j # xs) = drop n xs"
    and "drop (10 + n + m) (a # b # c # d # e # f # g # h # i # j # xs) = drop (n + m) xs"
  by (simp_all add: eval_nat_numeral)

lemma decode_layout:
  assumes "length d = unat dl" "length m = unat nl" "length rs = unat mc * RECORD_LEN"
  shows "decode_metrics_frame (MAGIC @ [VERSION, FRAME_KIND_METRICS, fl, s0, s1, mc, dl, nl] @ d @ m @ rs)
    = Some (case from_utf8 d of None \<Rightarrow> Inl InvalidUtf8 | Some device_id \<Rightarrow>
        case from_utf8 m of None \<Rightarrow> Inl InvalidUtf8 | Some node_name \<Rightarrow>
        Inr \<lparr>ef_seq = u16_from_be [s0, s1], ef_flags = fl, ef_device_id = device_id,
             ef_node_name = node_name, ef_metric_count = mc, ef_records = rs\<rparr>)"
  using assms
  by (simp add: decode_metrics_frame_def MAGIC_def HEADER_LEN_def idx_def slice_def Let_def
      drop_header split: option.split)

lemma decode_frame_bytes:
  assumes "encodable identity metrics"
    and "is_text (ei_device_id identity)" "is_text (ei_node_name identity)"
  shows "decode_metrics_frame (frame_bytes flags seq identity metrics)
    = Some (Inr (frame_of flags seq identity metrics))"
proof -
  obtain s0 s1 where s: "u16_to_be seq = [s0, s1]"
    by (simp add: u16_to_be_def)
  have rl: "length (concat (map record_bytes metrics)) = length metrics * RECORD_LEN"
    by (induction metrics) auto
  show ?thesis
    using assms decode_layout [of "as_bytes (ei_device_id identity)" "of_nat (length (ei_device_id identity))"
        "as_bytes (ei_node_name identity)" "of_nat (length (ei_node_name identity))"
        "concat (map record_bytes metrics)" "of_nat (length metrics)" flags s0 s1]
      be16.dec_enc [of seq]
    by (simp add: frame_bytes_def s rl encodable_def unat_of_nat_byte from_utf8_as_bytes frame_of_def)
qed

lemma iter_run_frame_of:
  assumes "encodable identity metrics"
  shows "iter_run (frame_records (frame_of flags seq identity metrics)) = map Inr metrics"
proof -
  have "map (the \<circ> decode_record) (map record_bytes metrics) = map Inr metrics"
    using assms by (auto simp: encodable_def list_all_iff decode_record_bytes)
  then show ?thesis
    using assms iter_run_chunks [of "map record_bytes metrics" "of_nat (length metrics)"]
    by (simp add: frame_records_def frame_of_def encodable_def list_all_iff unat_of_nat_byte)
qed

lemma split_at: "n \<le> length xs \<Longrightarrow> \<exists>a b. xs = a @ b \<and> length a = n"
  by (metis append_take_drop_id length_take min.absorb2)

text \<open>What the decoder accepts has exactly the frame layout.\<close>

lemma decode_Inr_layout:
  assumes "decode_metrics_frame input = Some (Inr f)"
  obtains s0 s1 where
    "input = MAGIC @ [VERSION, FRAME_KIND_METRICS, ef_flags f, s0, s1, ef_metric_count f,
       of_nat (length (ef_device_id f)), of_nat (length (ef_node_name f))]
       @ as_bytes (ef_device_id f) @ as_bytes (ef_node_name f) @ ef_records f"
    "ef_seq f = u16_from_be [s0, s1]"
    "length (ef_device_id f) \<le> 255" "length (ef_node_name f) \<le> 255"
    "length (ef_records f) = unat (ef_metric_count f) * RECORD_LEN"
    "is_text (ef_device_id f)" "is_text (ef_node_name f)"
proof -
  have "10 \<le> length input"
    using assms by (auto simp: decode_metrics_frame_def HEADER_LEN_def split: if_splits)
  then obtain h t where "input = h @ t" "length h = 10"
    using split_at by blast
  then obtain m0 m1 v k fl s0 s1 mc dl nl where
    i: "input = m0 # m1 # v # k # fl # s0 # s1 # mc # dl # nl # t"
    by (auto simp: len10)
  have tl: "unat dl + unat nl \<le> length t"
    using assms by (auto simp: i decode_metrics_frame_def HEADER_LEN_def idx_def slice_def Let_def
        split: if_splits)
  then obtain d t' where t: "t = d @ t'" and d: "length d = unat dl"
    using split_at [of "unat dl" t] by auto
  then obtain n rs where t': "t' = n @ rs" and n: "length n = unat nl"
    using split_at [of "unat nl" t'] tl by auto
  have g: "m0 = 0x53 \<and> m1 = 0x45 \<and> v = VERSION \<and> k = FRAME_KIND_METRICS
      \<and> length rs = unat mc * RECORD_LEN"
    using assms d n by (auto simp: i t t' decode_metrics_frame_def HEADER_LEN_def MAGIC_def idx_def
        slice_def Let_def drop_header split: if_splits option.splits)
  have dn: "dl = of_nat (length d)" "nl = of_nat (length n)" "length d \<le> 255" "length n \<le> 255"
    using d n unat_byte [of dl] unat_byte [of nl] by simp_all
  have lay: "input = MAGIC @ [VERSION, FRAME_KIND_METRICS, fl, s0, s1, mc, dl, nl] @ d @ n @ rs"
    using g by (simp add: i t t' MAGIC_def)
  obtain x y where x: "is_text x" "d = as_bytes x" and y: "is_text y" "n = as_bytes y"
    and f: "f = \<lparr>ef_seq = u16_from_be [s0, s1], ef_flags = fl, ef_device_id = x,
             ef_node_name = y, ef_metric_count = mc, ef_records = rs\<rparr>"
    using assms decode_layout [OF d n, of rs mc fl s0 s1] g unfolding lay
    by (auto simp: from_utf8_Some split: option.splits)
  show thesis
    using that [of s0 s1] lay g dn x y by (simp add: f)
qed

lemma decode_total: "\<exists>r. decode_metrics_frame input = Some r"
  by (auto simp: decode_metrics_frame_def HEADER_LEN_def idx_def slice_def Let_def
      split: option.split)

lemma records_chunks:
  assumes "length (ef_records f) = unat (ef_metric_count f) * RECORD_LEN"
  obtains rs where "ef_records f = concat rs" "list_all (\<lambda>r. length r = RECORD_LEN) rs"
    "length rs = unat (ef_metric_count f)"
    "iter_run (frame_records f) = map (the \<circ> decode_record) rs"
  using chunked [OF assms] iter_run_chunks [of _ "ef_metric_count f"]
  by (auto simp: frame_records_def)

lemma decode_record_not_BadRecordLength:
  "length r = RECORD_LEN \<Longrightarrow> the (decode_record r) \<noteq> Inl BadRecordLength"
  by (auto simp: RECORD_LEN_def len10 decode_record_cons split: option.splits)

lemma samples_of_chunks:
  assumes "list_all (\<lambda>r. length r = RECORD_LEN) rs" "map (the \<circ> decode_record) rs = map Inr samples"
  shows "concat (map record_bytes samples) = concat rs \<and> length samples = length rs \<and>
    list_all (\<lambda>s. metric_id_get (es_metric_id s) \<noteq> 0 \<and> sensor_id_get (es_sensor_id s) \<noteq> 0) samples"
  using assms
proof (induction rs arbitrary: samples)
  case (Cons r rs)
  then obtain s ss where ss: "samples = s # ss" "the (decode_record r) = Inr s"
    by (cases samples) auto
  then have "decode_record r = Some (Inr s)"
    using decode_record_total [of r] Cons.prems by auto
  then show ?case
    using Cons.IH [of ss] Cons.prems ss record_bytes_decode [of r s] by auto
qed simp

section \<open>Properties\<close>

text \<open>C7: a frame encoded into a large enough buffer decodes to the same sequence number,
  identity and metric count, and the record iterator then yields exactly the encoded
  samples in order (every \<open>f32\<close> bit pattern included).\<close>

theorem encode_decode_roundtrip:
  assumes "encodable identity metrics"
    and "is_text (ei_device_id identity)" "is_text (ei_node_name identity)"
    and "HEADER_LEN + length (ei_device_id identity) + length (ei_node_name identity)
           + length metrics * RECORD_LEN \<le> length out"
  shows "\<exists>n out' f. encode_metrics_frame out seq identity metrics = Some (Inr n, out') \<and>
    decode_metrics_frame (take n out') = Some (Inr f) \<and>
    ef_seq f = seq \<and> ef_flags f = 0 \<and> ef_device_id f = ei_device_id identity \<and>
    ef_node_name f = ei_node_name identity \<and> unat (ef_metric_count f) = length metrics \<and>
    iter_run (frame_records f) = map Inr metrics"
proof -
  have "encode_metrics_frame out seq identity metrics =
    Some (Inr (length (frame_bytes 0 seq identity metrics)),
      frame_bytes 0 seq identity metrics @ drop (length (frame_bytes 0 seq identity metrics)) out)"
    using encode_ok assms(1, 4) by (simp add: length_frame_bytes)
  moreover have "unat (of_nat (length metrics) :: u8) = length metrics"
    using assms(1) by (simp add: encodable_def unat_of_nat_byte)
  ultimately show ?thesis
    using decode_frame_bytes [OF assms(1-3), of 0 seq] iter_run_frame_of [OF assms(1), of 0 seq]
    by (intro exI) (auto simp: frame_of_def)
qed

theorem encode_decode_roundtrip_witness:
  "\<exists>n out' f. encode_metrics_frame (replicate 40 0) 7 \<lparr>ei_device_id = ''d1'', ei_node_name = ''n''\<rparr>
      [\<lparr>es_metric_id = MetricId 1, es_sensor_id = SensorId 2, es_kind = EdgeGauge,
        es_unit = Celsius, es_value = 0x41C80000\<rparr>] = Some (Inr n, out') \<and>
    decode_metrics_frame (take n out') = Some (Inr f) \<and>
    ef_seq f = 7 \<and> ef_flags f = 0 \<and> ef_device_id f = ''d1'' \<and>
    ef_node_name f = ''n'' \<and> unat (ef_metric_count f) = 1 \<and>
    iter_run (frame_records f) = [Inr \<lparr>es_metric_id = MetricId 1, es_sensor_id = SensorId 2,
      es_kind = EdgeGauge, es_unit = Celsius, es_value = 0x41C80000\<rparr>]"
  using encode_decode_roundtrip [of "\<lparr>ei_device_id = ''d1'', ei_node_name = ''n''\<rparr>"
      "[\<lparr>es_metric_id = MetricId 1, es_sensor_id = SensorId 2, es_kind = EdgeGauge,
        es_unit = Celsius, es_value = 0x41C80000\<rparr>]" "replicate 40 0" 7]
  by (simp add: encodable_def is_text_ascii code_def
      HEADER_LEN_def RECORD_LEN_def)

text \<open>C15: the encoder never panics and keeps the buffer's length. On success it reports the
  exact frame length, needs no more than the buffer, and leaves every byte behind the frame
  alone. On an error it has written nothing, and the error is \<open>OutputTooSmall\<close> exactly when
  identity and samples are encodable and \<open>FieldTooLong\<close> exactly when an identity field is.\<close>

theorem encode_total_classified:
  "\<exists>r out'. encode_metrics_frame out seq identity metrics = Some (r, out') \<and>
     length out' = length out \<and>
     (case r of
        Inr n \<Rightarrow> encodable identity metrics \<and> n \<le> length out \<and> drop n out' = drop n out \<and>
          n = HEADER_LEN + length (ei_device_id identity) + length (ei_node_name identity)
                + length metrics * RECORD_LEN
      | Inl e \<Rightarrow> out' = out \<and> (e = OutputTooSmall) = encodable identity metrics \<and>
          (e = FieldTooLong) = (length (ei_device_id identity) > 255 \<or> length (ei_node_name identity) > 255))"
proof (cases "encodable identity metrics \<and> length (frame_bytes 0 seq identity metrics) \<le> length out")
  case True
  then show ?thesis
    using encode_ok [of identity metrics seq out] by (simp add: length_frame_bytes)
next
  case False
  have "list_ex (\<lambda>s. metric_id_get (es_metric_id s) = 0) metrics
      \<or> list_ex (\<lambda>s. sensor_id_get (es_sensor_id s) = 0) metrics
    \<longleftrightarrow> \<not> list_all (\<lambda>s. metric_id_get (es_metric_id s) \<noteq> 0 \<and> sensor_id_get (es_sensor_id s) \<noteq> 0) metrics"
    by (auto simp: list_ex_iff list_all_iff)
  then show ?thesis
    using False by (auto simp: encode_metrics_frame_def Let_def encodable_def length_frame_bytes)
qed

text \<open>C16: decoding never panics, whatever bytes arrive. For every accepted frame the iterator
  yields exactly \<open>metric_count\<close> items, never the truncation error \<open>BadRecordLength\<close>, and no
  call of \<open>next\<close> panics.\<close>

theorem decode_safe:
  "\<exists>r. decode_metrics_frame input = Some r \<and>
     (\<forall>f. r = Inr f \<longrightarrow>
        length (iter_run (frame_records f)) = unat (ef_metric_count f) \<and>
        Inl BadRecordLength \<notin> set (iter_run (frame_records f)) \<and>
        (\<forall>it. iter_next it \<noteq> None))"
proof -
  have "length (iter_run (frame_records f)) = unat (ef_metric_count f) \<and>
        Inl BadRecordLength \<notin> set (iter_run (frame_records f))"
    if f: "decode_metrics_frame input = Some (Inr f)" for f
  proof -
    have "length (ef_records f) = unat (ef_metric_count f) * RECORD_LEN"
      using f by (rule decode_Inr_layout)
    then obtain rs where "list_all (\<lambda>r. length r = RECORD_LEN) rs"
      "length rs = unat (ef_metric_count f)"
      "iter_run (frame_records f) = map (the \<circ> decode_record) rs"
      by (rule records_chunks)
    then show ?thesis
      using decode_record_not_BadRecordLength by (fastforce simp: list_all_iff)
  qed
  then show ?thesis
    using decode_total [of input] iter_next_total by (metis option.distinct(1))
qed

theorem decode_safe_witness:
  "\<exists>r. decode_metrics_frame [0x53, 0x45, 1, 1, 0, 0, 7, 0, 0, 0] = Some r \<and>
     (\<forall>f. r = Inr f \<longrightarrow>
        length (iter_run (frame_records f)) = unat (ef_metric_count f) \<and>
        Inl BadRecordLength \<notin> set (iter_run (frame_records f)) \<and>
        (\<forall>it. iter_next it \<noteq> None)) \<and> is_ok r"
proof -
  have "decode_metrics_frame [0x53, 0x45, 1, 1, 0, 0, 7, 0, 0, 0] =
      Some (Inr \<lparr>ef_seq = u16_from_be [0, 7], ef_flags = 0, ef_device_id = [], ef_node_name = [],
        ef_metric_count = 0, ef_records = []\<rparr>)"
    by (simp add: decode_metrics_frame_def HEADER_LEN_def MAGIC_def VERSION_def
        FRAME_KIND_METRICS_def slice_def idx_def from_utf8_def str_of_bytes_def)
  then show ?thesis
    using decode_safe [of "[0x53, 0x45, 1, 1, 0, 0, 7, 0, 0, 0]"] by auto
qed

text \<open>C14: the wire format is canonical. If the decoder accepts an input with zero flags and
  all its records decode, then encoding the decoded sequence number, identity and samples
  into a buffer of the same length reproduces the input byte for byte.\<close>

theorem decode_encode_canonical:
  assumes dec: "decode_metrics_frame input = Some (Inr f)"
    and flags: "ef_flags f = 0"
    and samples: "iter_run (frame_records f) = map Inr samples"
    and out: "length out = length input"
  shows "encode_metrics_frame out (ef_seq f)
      \<lparr>ei_device_id = ef_device_id f, ei_node_name = ef_node_name f\<rparr> samples
    = Some (Inr (length input), input)"
proof -
  let ?i = "\<lparr>ei_device_id = ef_device_id f, ei_node_name = ef_node_name f\<rparr>"
  obtain s0 s1 where lay:
    "input = MAGIC @ [VERSION, FRAME_KIND_METRICS, ef_flags f, s0, s1, ef_metric_count f,
       of_nat (length (ef_device_id f)), of_nat (length (ef_node_name f))]
       @ as_bytes (ef_device_id f) @ as_bytes (ef_node_name f) @ ef_records f"
    and seq: "ef_seq f = u16_from_be [s0, s1]"
    and len: "length (ef_device_id f) \<le> 255" "length (ef_node_name f) \<le> 255"
      "length (ef_records f) = unat (ef_metric_count f) * RECORD_LEN"
    using dec by (rule decode_Inr_layout)
  obtain rs where rs: "ef_records f = concat rs" "list_all (\<lambda>r. length r = RECORD_LEN) rs"
    "length rs = unat (ef_metric_count f)" "iter_run (frame_records f) = map (the \<circ> decode_record) rs"
    using len(3) by (rule records_chunks)
  have smp: "concat (map record_bytes samples) = ef_records f" "length samples = unat (ef_metric_count f)"
    "list_all (\<lambda>s. metric_id_get (es_metric_id s) \<noteq> 0 \<and> sensor_id_get (es_sensor_id s) \<noteq> 0) samples"
    using samples_of_chunks [OF rs(2)] rs samples by auto
  have enc: "encodable ?i samples"
    using len smp unat_byte [of "ef_metric_count f"] by (simp add: encodable_def)
  have "frame_bytes 0 (ef_seq f) ?i samples = input"
    by (subst lay) (simp add: frame_bytes_def smp seq u16_enc_dec flags)
  then show ?thesis
    using encode_ok [OF enc, of "ef_seq f" out] out by simp
qed

theorem decode_encode_canonical_witness:
  "encode_metrics_frame (replicate 10 9) (u16_from_be [0, 7]) \<lparr>ei_device_id = [], ei_node_name = []\<rparr> []
    = Some (Inr 10, [0x53, 0x45, 1, 1, 0, 0, 7, 0, 0, 0])"
proof -
  let ?f = "\<lparr>ef_seq = u16_from_be [0, 7], ef_flags = 0, ef_device_id = [], ef_node_name = [],
        ef_metric_count = 0, ef_records = []\<rparr> :: edge_metrics_frame"
  have "decode_metrics_frame [0x53, 0x45, 1, 1, 0, 0, 7, 0, 0, 0] = Some (Inr ?f)"
    by (simp add: decode_metrics_frame_def HEADER_LEN_def MAGIC_def VERSION_def
        FRAME_KIND_METRICS_def slice_def idx_def from_utf8_def str_of_bytes_def)
  moreover have "iter_run (frame_records ?f) = []"
    by (simp add: iter_run.simps iter_next_def frame_records_def)
  ultimately show ?thesis
    using decode_encode_canonical [of "[0x53, 0x45, 1, 1, 0, 0, 7, 0, 0, 0]" ?f "[]" "replicate 10 9"]
    by simp
qed

end
