(* ===== verification/Otlp_Model.thy ===== *)
theory Otlp_Model
  imports Rust_Float
begin

text \<open>
  The telemetry data the program moves: the OTLP export requests with the fields the
  program constructs or reads (\<open>skid-protocol/src/otlp.rs\<close> re-exports the generated types)
  and the \<open>Signal\<close> sum of \<open>skid-protocol/src/protocol.rs\<close>. A message the program only
  counts or forwards (a span, an exemplar, an entity reference) is its encoded bytes.
\<close>

type_synonym i32 = "32 word"
type_synonym opaque = bytes

datatype any_value = AnyValue "any_value_value option"
and any_value_value =
    StringValue string
  | BoolValue bool
  | IntValue i64
  | DoubleValue f64
  | ArrayValue "any_value list"
  | KvlistValue "key_value list"
  | BytesValue bytes
  | StringValueStrindex i32
and key_value = KeyValue (kv_key: string) (kv_value: "any_value option") (kv_key_strindex: i32)

record otlp_resource =
  res_attributes :: "key_value list"
  res_dropped_attributes_count :: u32
  res_entity_refs :: "opaque list"

record instrumentation_scope =
  is_name :: string
  is_version :: string
  is_attributes :: "key_value list"
  is_dropped_attributes_count :: u32

datatype number_value = AsDouble f64 | AsInt i64

record number_data_point =
  ndp_attributes :: "key_value list"
  ndp_start_time_unix_nano :: u64
  ndp_time_unix_nano :: u64
  ndp_exemplars :: "opaque list"
  ndp_flags :: u32
  ndp_value :: "number_value option"

record histogram_data_point =
  hdp_attributes :: "key_value list"
  hdp_start_time_unix_nano :: u64
  hdp_time_unix_nano :: u64
  hdp_count :: u64
  hdp_sum :: "f64 option"
  hdp_bucket_counts :: "u64 list"
  hdp_explicit_bounds :: "f64 list"
  hdp_exemplars :: "opaque list"
  hdp_flags :: u32
  hdp_min :: "f64 option"
  hdp_max :: "f64 option"

record exponential_histogram_data_point =
  ehdp_attributes :: "key_value list"
  ehdp_count :: u64
  ehdp_sum :: "f64 option"
  ehdp_rest :: opaque

record summary_data_point =
  sdp_attributes :: "key_value list"
  sdp_count :: u64
  sdp_sum :: f64
  sdp_rest :: opaque

datatype metric_data =
    Gauge "number_data_point list"
  | Sum "number_data_point list" i32 bool
  | Histogram "histogram_data_point list" i32
  | ExponentialHistogram "exponential_histogram_data_point list" i32
  | Summary "summary_data_point list"

record otlp_metric =
  om_name :: string
  om_description :: string
  om_unit :: string
  om_metadata :: "key_value list"
  om_data :: "metric_data option"

record scope_metrics =
  sm_scope :: "instrumentation_scope option"
  sm_metrics :: "otlp_metric list"
  sm_schema_url :: string

record resource_metrics =
  rm_resource :: "otlp_resource option"
  rm_scope_metrics :: "scope_metrics list"
  rm_schema_url :: string

record export_metrics_request =
  emr_resource_metrics :: "resource_metrics list"

record scope_spans =
  ss_spans :: "opaque list"
  ss_rest :: opaque

record resource_spans =
  rs_scope_spans :: "scope_spans list"
  rs_rest :: opaque

record export_trace_request =
  etr_resource_spans :: "resource_spans list"

record log_record =
  lr_time_unix_nano :: u64
  lr_observed_time_unix_nano :: u64
  lr_severity_number :: i32
  lr_severity_text :: string
  lr_body :: "any_value option"
  lr_attributes :: "key_value list"
  lr_dropped_attributes_count :: u32
  lr_flags :: u32
  lr_trace_id :: bytes
  lr_span_id :: bytes
  lr_event_name :: string

record scope_logs =
  sl_scope :: "instrumentation_scope option"
  sl_log_records :: "log_record list"
  sl_schema_url :: string

record resource_logs =
  rl_resource :: "otlp_resource option"
  rl_scope_logs :: "scope_logs list"
  rl_schema_url :: string

record export_logs_request =
  elr_resource_logs :: "resource_logs list"

datatype signal =
    Metrics export_metrics_request
  | Traces export_trace_request
  | Logs export_logs_request

section \<open>Counting what a request holds\<close>

definition all_metrics :: "export_metrics_request \<Rightarrow> otlp_metric list" where
  "all_metrics request =
     concat (map sm_metrics (concat (map rm_scope_metrics (emr_resource_metrics request))))"

definition metric_count :: "export_metrics_request \<Rightarrow> nat" where
  "metric_count request =
     sum_list (map (\<lambda>sm. length (sm_metrics sm))
       (concat (map rm_scope_metrics (emr_resource_metrics request))))"

definition span_count :: "export_trace_request \<Rightarrow> nat" where
  "span_count request =
     sum_list (map (\<lambda>ss. length (ss_spans ss))
       (concat (map rs_scope_spans (etr_resource_spans request))))"

definition log_count :: "export_logs_request \<Rightarrow> nat" where
  "log_count request =
     sum_list (map (\<lambda>sl. length (sl_log_records sl))
       (concat (map rl_scope_logs (elr_resource_logs request))))"

definition string_value :: "string \<Rightarrow> any_value" where
  "string_value s = AnyValue (Some (StringValue s))"

lemma metric_count_all_metrics: "metric_count r = length (all_metrics r)"
  by (simp add: metric_count_def all_metrics_def length_concat comp_def)

end
