(* ===== verification/Signal_Frame.thy ===== *)
theory Signal_Frame
  imports Otlp_Model
begin

text \<open>
  The length-prefixed JSON framing of signals (\<open>skid-protocol/src/frame.rs\<close>). A reader is
  the byte stream still to be read. A writer is any state with \<open>write_all\<close> and \<open>flush\<close>
  operations; \<open>byte_sink\<close> is the contract the framing relies on, met here by the in-memory
  writer (\<open>Vec<u8>\<close>) and by a stream that breaks after a number of bytes. The JSON
  serializer is external: \<open>to_vec\<close> and \<open>from_slice\<close> are arguments.
\<close>

section \<open>I/O errors and streams\<close>

datatype io_error_kind =
    NotFound
  | PermissionDenied
  | ConnectionRefused
  | AlreadyExists
  | InvalidInput
  | InvalidData
  | UnexpectedEof
  | OtherKind

record io_error =
  io_kind :: io_error_kind
  io_message :: string

definition io_error_new :: "io_error_kind \<Rightarrow> string \<Rightarrow> io_error" where
  "io_error_new kind message = \<lparr>io_kind = kind, io_message = message\<rparr>"

definition read_exact :: "nat \<Rightarrow> bytes \<Rightarrow> (io_error + bytes) \<times> bytes" where
  "read_exact n stream =
     (if length stream < n
      then (Inl (io_error_new UnexpectedEof ''failed to fill whole buffer''), [])
      else (Inr (take n stream), drop n stream))"

type_synonym 'w write_op = "'w \<Rightarrow> bytes \<Rightarrow> (io_error + unit) \<times> 'w"
type_synonym 'w flush_op = "'w \<Rightarrow> (io_error + unit) \<times> 'w"

section \<open>The framing\<close>

definition LEGACY_MAX_FRAME_BYTES :: u32 where
  "LEGACY_MAX_FRAME_BYTES = 16 * 1024 * 1024"

definition frame_too_large :: "nat \<Rightarrow> io_error" where
  "frame_too_large len =
     io_error_new InvalidData (''frame too large: '' @ show_nat len @ '' bytes'')"

definition validate_frame_len :: "u32 \<Rightarrow> io_error + nat" where
  "validate_frame_len len =
     (if len > LEGACY_MAX_FRAME_BYTES then Inl (frame_too_large (unat len)) else Inr (unat len))"

definition validate_payload_len :: "nat \<Rightarrow> io_error + unit" where
  "validate_payload_len len =
     (let max = unat LEGACY_MAX_FRAME_BYTES in
      if len > max then Inl (frame_too_large len) else Inr ())"

definition encode_signal_payload ::
  "(signal \<Rightarrow> string + bytes) \<Rightarrow> signal \<Rightarrow> io_error + bytes"
where
  "encode_signal_payload to_vec signal =
     and_then (map_err (io_error_new InvalidData) (to_vec signal)) (\<lambda>payload.
     and_then (validate_payload_len (length payload)) (\<lambda>_.
     Inr payload))"

definition decode_signal_payload ::
  "(bytes \<Rightarrow> string + signal) \<Rightarrow> bytes \<Rightarrow> io_error + signal"
where
  "decode_signal_payload from_slice payload =
     map_err (io_error_new InvalidData) (from_slice payload)"

definition read_frame :: "bytes \<Rightarrow> (io_error + bytes) \<times> bytes" where
  "read_frame stream =
     (case read_exact 4 stream of
        (Inl e, stream) \<Rightarrow> (Inl e, stream)
      | (Inr len_buf, stream) \<Rightarrow>
          (case validate_frame_len (u32_from_be len_buf) of
             Inl e \<Rightarrow> (Inl e, stream)
           | Inr len \<Rightarrow> read_exact len stream))"

definition read_signal ::
  "(bytes \<Rightarrow> string + signal) \<Rightarrow> bytes \<Rightarrow> (io_error + signal) \<times> bytes"
where
  "read_signal from_slice stream =
     (case read_frame stream of
        (Inl e, stream) \<Rightarrow> (Inl e, stream)
      | (Inr payload, stream) \<Rightarrow> (decode_signal_payload from_slice payload, stream))"

definition write_signal_payload ::
  "'w write_op \<Rightarrow> 'w flush_op \<Rightarrow> 'w \<Rightarrow> bytes \<Rightarrow> (io_error + unit) \<times> 'w"
where
  "write_signal_payload write_all flush writer payload =
     (case validate_payload_len (length payload) of
        Inl e \<Rightarrow> (Inl e, writer)
      | Inr _ \<Rightarrow>
     (case write_all writer (u32_to_be (of_nat (length payload))) of
        (Inl e, writer) \<Rightarrow> (Inl e, writer)
      | (Inr _, writer) \<Rightarrow>
     (case write_all writer payload of
        (Inl e, writer) \<Rightarrow> (Inl e, writer)
      | (Inr _, writer) \<Rightarrow> flush writer)))"

definition write_signal ::
  "(signal \<Rightarrow> string + bytes) \<Rightarrow> 'w write_op \<Rightarrow> 'w flush_op \<Rightarrow> 'w \<Rightarrow> signal \<Rightarrow>
    (io_error + nat) \<times> 'w"
where
  "write_signal to_vec write_all flush writer signal =
     (case encode_signal_payload to_vec signal of
        Inl e \<Rightarrow> (Inl e, writer)
      | Inr payload \<Rightarrow>
          (case write_signal_payload write_all flush writer payload of
             (Inl e, writer) \<Rightarrow> (Inl e, writer)
           | (Inr _, writer) \<Rightarrow> (Inr (length payload), writer)))"

section \<open>Writers\<close>

text \<open>\<open>Vec<u8>\<close> appends and never fails.\<close>

definition vec_write_all :: "bytes write_op" where
  "vec_write_all w bs = (Inr (), w @ bs)"

definition vec_flush :: "bytes flush_op" where
  "vec_flush w = (Inr (), w)"

text \<open>A connection that accepts a number of bytes and then fails, as a peer that goes away.\<close>

record pipe =
  pipe_room :: nat
  pipe_sent :: bytes

definition pipe_write_all :: "pipe write_op" where
  "pipe_write_all p bs =
     (if length bs \<le> pipe_room p
      then (Inr (), \<lparr>pipe_room = pipe_room p - length bs, pipe_sent = pipe_sent p @ bs\<rparr>)
      else (Inl (io_error_new OtherKind ''broken pipe''),
            \<lparr>pipe_room = 0, pipe_sent = pipe_sent p @ take (pipe_room p) bs\<rparr>))"

definition pipe_flush :: "pipe flush_op" where
  "pipe_flush p = (Inr (), p)"

section \<open>The writer contract\<close>

locale byte_sink =
  fixes write_all :: "'w write_op"
    and flush :: "'w flush_op"
    and sent :: "'w \<Rightarrow> bytes"
  assumes write_ok: "write_all w bs = (Inr (), w') \<Longrightarrow> sent w' = sent w @ bs"
    and write_err: "write_all w bs = (Inl e, w') \<Longrightarrow> \<exists>p. prefix p bs \<and> sent w' = sent w @ p"
    and flush_keeps: "flush w = (r, w') \<Longrightarrow> sent w' = sent w"
begin

lemma payload_sent:
  assumes "write_signal_payload write_all flush w payload = (Inr (), w')"
  shows "sent w' = sent w @ u32_to_be (of_nat (length payload)) @ payload"
  using assms write_ok flush_keeps
  by (fastforce simp: write_signal_payload_def split: sum.splits prod.splits)

lemma payload_prefix:
  assumes "write_signal_payload write_all flush w payload = (r, w')"
  shows "\<exists>p. prefix p (u32_to_be (of_nat (length payload)) @ payload) \<and> sent w' = sent w @ p"
proof -
  let ?h = "u32_to_be (of_nat (length payload))"
  consider "w' = w"
    | e where "write_all w ?h = (Inl e, w')"
    | w1 e where "write_all w ?h = (Inr (), w1)" "write_all w1 payload = (Inl e, w')"
    | w1 w2 where "write_all w ?h = (Inr (), w1)" "write_all w1 payload = (Inr (), w2)"
        "flush w2 = (r, w')"
    using assms by (auto simp: write_signal_payload_def split: sum.splits prod.splits)
  then show ?thesis
  proof cases
    case 1
    then show ?thesis by (intro exI [of _ "[]"]) simp
  next
    case 2
    then show ?thesis using write_err [OF 2] by (meson prefix_prefix)
  next
    case 3
    then obtain p where "prefix p payload" "sent w' = sent w1 @ p"
      using write_err by blast
    then show ?thesis
      using write_ok [OF 3(1)] by (intro exI [of _ "?h @ p"]) auto
  next
    case 4
    then show ?thesis
      using write_ok [OF 4(1)] write_ok [OF 4(2)] flush_keeps [OF 4(3)]
      by (intro exI [of _ "?h @ payload"]) auto
  qed
qed

lemma signal_sent:
  assumes "write_signal to_vec write_all flush w s = (Inr n, w')"
  obtains payload where "to_vec s = Inr payload" "length payload = n"
    "n \<le> unat LEGACY_MAX_FRAME_BYTES"
    "sent w' = sent w @ u32_to_be (of_nat n) @ payload"
  using assms
proof (cases "encode_signal_payload to_vec s")
  case (Inr payload)
  then have "to_vec s = Inr payload" "length payload \<le> unat LEGACY_MAX_FRAME_BYTES"
    by (auto simp: encode_signal_payload_def result_simps validate_payload_len_def Let_def
        split: if_splits)
  moreover have "write_signal_payload write_all flush w payload = (Inr (), w')" "n = length payload"
    using assms Inr by (auto simp: write_signal_def split: sum.splits prod.splits)
  ultimately show thesis
    using that payload_sent by blast
qed (simp add: write_signal_def)

end

interpretation vec_sink: byte_sink vec_write_all vec_flush "\<lambda>w. w"
  by unfold_locales (auto simp: vec_write_all_def vec_flush_def)

interpretation pipe_sink: byte_sink pipe_write_all pipe_flush pipe_sent
  by unfold_locales
    (auto simp: pipe_write_all_def pipe_flush_def take_is_prefix split: if_splits)

section \<open>Reading back\<close>

lemma max_frame: "unat LEGACY_MAX_FRAME_BYTES = 16777216"
  by (simp add: LEGACY_MAX_FRAME_BYTES_def)

lemma validate_of_nat:
  assumes "n \<le> unat LEGACY_MAX_FRAME_BYTES"
  shows "validate_frame_len (of_nat n) = Inr n"
proof -
  have "unat (of_nat n :: u32) = n"
    using assms by (simp add: unat_of_nat max_frame)
  then show ?thesis
    using assms by (simp add: validate_frame_len_def word_less_nat_alt)
qed

lemma read_frame_framed:
  assumes "length payload \<le> unat LEGACY_MAX_FRAME_BYTES"
  shows "read_frame (u32_to_be (of_nat (length payload)) @ payload @ rest) = (Inr payload, rest)"
  using validate_of_nat [OF assms]
  by (simp add: read_frame_def read_exact_def length_u32_to_be be32.dec_enc)

lemma read_frame_bounded:
  assumes "read_frame stream = (Inr payload, rest)"
  shows "length payload \<le> unat LEGACY_MAX_FRAME_BYTES \<and>
    stream = u32_to_be (of_nat (length payload)) @ payload @ rest"
proof -
  have s: "4 \<le> length stream"
    and v: "validate_frame_len (u32_from_be (take 4 stream)) = Inr (length payload)"
    and p: "payload = take (length payload) (drop 4 stream)" "rest = drop (length payload) (drop 4 stream)"
    using assms by (auto simp: read_frame_def read_exact_def split: if_splits sum.splits)
  have l: "length payload = unat (u32_from_be (take 4 stream))"
    "length payload \<le> unat LEGACY_MAX_FRAME_BYTES"
    using v by (auto simp: validate_frame_len_def word_less_nat_alt split: if_splits)
  have "u32_to_be (of_nat (length payload)) = take 4 stream"
    using l(1) s be32.enc_dec [of "take 4 stream"] by simp
  then show ?thesis
    using l(2) p by (metis append_take_drop_id)
qed

section \<open>Properties\<close>

text \<open>C23: a signal written into an in-memory buffer is read back unchanged and the bytes
  after its frame stay in the stream, for every signal whose JSON text the serializer can
  read back.\<close>

theorem write_read_signal:
  assumes "to_vec s = Inr payload" "from_slice payload = Inr s"
    and "length payload \<le> unat LEGACY_MAX_FRAME_BYTES"
  shows "\<exists>n frame. write_signal to_vec vec_write_all vec_flush buf s = (Inr n, buf @ frame) \<and>
    n = length payload \<and> read_signal from_slice (frame @ rest) = (Inr s, rest)"
proof -
  let ?frame = "u32_to_be (of_nat (length payload)) @ payload"
  have "validate_payload_len (length payload) = Inr ()"
    using assms(3) by (simp add: validate_payload_len_def)
  then have "write_signal to_vec vec_write_all vec_flush buf s = (Inr (length payload), buf @ ?frame)"
    using assms(1) by (simp add: write_signal_def encode_signal_payload_def write_signal_payload_def
        vec_write_all_def vec_flush_def)
  moreover have "read_signal from_slice (?frame @ rest) = (Inr s, rest)"
    using assms read_frame_framed [of payload rest]
    by (simp add: read_signal_def decode_signal_payload_def)
  ultimately show ?thesis by blast
qed

theorem write_read_signal_witness:
  "\<exists>n frame. write_signal (\<lambda>s. Inr [123, 125]) vec_write_all vec_flush [7]
      (Metrics \<lparr>emr_resource_metrics = []\<rparr>) = (Inr n, [7] @ frame) \<and> n = 2 \<and>
    read_signal (\<lambda>b. if b = [123, 125] then Inr (Metrics \<lparr>emr_resource_metrics = []\<rparr>) else Inl ''eof'')
      (frame @ [1, 2]) = (Inr (Metrics \<lparr>emr_resource_metrics = []\<rparr>), [1, 2])"
  using write_read_signal [of "\<lambda>s. Inr [123, 125]" "Metrics \<lparr>emr_resource_metrics = []\<rparr>" "[123, 125]"
      "\<lambda>b. if b = [123, 125] then Inr (Metrics \<lparr>emr_resource_metrics = []\<rparr>) else Inl ''eof''" "[7]" "[1, 2]"]
  by (simp add: max_frame numeral_2_eq_2)

text \<open>C24: on a connection that may break at any byte, sending a payload either succeeds and the
  peer has received exactly the length prefix and the payload, or fails and the peer has a
  prefix of these bytes; and a reader accepts a frame only if its length prefix is within the
  16 MiB limit and equals the number of payload bytes it consumed.\<close>

theorem send_frame_prefix:
  "(\<exists>p. prefix p (u32_to_be (of_nat (length payload)) @ payload) \<and>
      pipe_sent (snd (write_signal_payload pipe_write_all pipe_flush w payload)) = pipe_sent w @ p \<and>
      (is_ok (fst (write_signal_payload pipe_write_all pipe_flush w payload)) \<longrightarrow>
        p = u32_to_be (of_nat (length payload)) @ payload)) \<and>
   (\<forall>stream body rest. read_frame stream = (Inr body, rest) \<longrightarrow>
      length body \<le> 16777216 \<and> stream = u32_to_be (of_nat (length body)) @ body @ rest)"
proof (intro conjI allI impI)
  obtain r w' where rw: "write_signal_payload pipe_write_all pipe_flush w payload = (r, w')"
    by fastforce
  show "\<exists>p. prefix p (u32_to_be (of_nat (length payload)) @ payload) \<and>
      pipe_sent (snd (write_signal_payload pipe_write_all pipe_flush w payload)) = pipe_sent w @ p \<and>
      (is_ok (fst (write_signal_payload pipe_write_all pipe_flush w payload)) \<longrightarrow>
        p = u32_to_be (of_nat (length payload)) @ payload)"
  proof (cases r)
    case Inl
    then show ?thesis
      using pipe_sink.payload_prefix [OF rw] rw by auto
  next
    case (Inr u)
    then show ?thesis
      using pipe_sink.payload_sent [of w payload w'] rw by auto
  qed
qed (use read_frame_bounded in \<open>auto simp: max_frame\<close>)

theorem send_frame_prefix_witness:
  "(\<exists>p. prefix p (u32_to_be (of_nat (length [9, 8])) @ [9, 8]) \<and>
      pipe_sent (snd (write_signal_payload pipe_write_all pipe_flush
        \<lparr>pipe_room = 5, pipe_sent = []\<rparr> [9, 8])) = [] @ p \<and>
      (is_ok (fst (write_signal_payload pipe_write_all pipe_flush
        \<lparr>pipe_room = 5, pipe_sent = []\<rparr> [9, 8])) \<longrightarrow>
        p = u32_to_be (of_nat (length [9, 8])) @ [9, 8])) \<and>
    read_frame [0, 0, 0, 2, 9, 8, 5] = (Inr [9, 8], [5])"
proof -
  have "read_frame [0, 0, 0, 2, 9, 8, 5] = (Inr [9, 8], [5])"
    by (simp add: read_frame_def read_exact_def u32_from_be_def be_acc_def validate_frame_len_def
        LEGACY_MAX_FRAME_BYTES_def)
  then show ?thesis
    using send_frame_prefix [of "[9, 8]" "\<lparr>pipe_room = 5, pipe_sent = []\<rparr>"] by simp
qed

end
