(* ===== verification/Metric_Export.thy ===== *)
theory Metric_Export
  imports Otlp_Model
begin

text \<open>
  Lifting plain metric samples into an OTLP request (\<open>skid-protocol/src/metrics.rs\<close>): the
  samples are grouped by source in order of first appearance, attribute keys are made
  unique with the first occurrence winning, and each sample becomes one data point. The
  clock is the argument \<open>now\<close>, in nanoseconds relative to the Unix epoch.
\<close>

section \<open>Samples\<close>

datatype source =
    OpenTelemetry
  | Kubernetes
  | EdgeDevice
  | FileNode
  | ComputeAdvisor
  | Quantum
  | System
  | MacOS

datatype metric_kind = KGauge | KSum | KHistogram

record metric =
  m_name :: string
  m_value :: f64
  m_source :: source
  m_unit :: "string option"
  m_kind :: metric_kind
  m_attributes :: "(string \<times> string) list"

fun source_as_str :: "source \<Rightarrow> string" where
  "source_as_str OpenTelemetry = ''opentelemetry''"
| "source_as_str Kubernetes = ''kubernetes''"
| "source_as_str EdgeDevice = ''edge_device''"
| "source_as_str FileNode = ''file_node''"
| "source_as_str ComputeAdvisor = ''compute_advisor''"
| "source_as_str Quantum = ''quantum''"
| "source_as_str System = ''system''"
| "source_as_str MacOS = ''macos''"

section \<open>Conversion\<close>

definition unix_nanos :: "int \<Rightarrow> u64" where
  "unix_nanos time = (if time < 0 then 0 else of_int time)"

text \<open>\<open>AggregationTemporality::Cumulative as i32\<close>\<close>

definition CUMULATIVE :: i32 where "CUMULATIVE = 2"

fun key_values_from :: "key_value list \<Rightarrow> (string \<times> string) list \<Rightarrow> key_value list" where
  "key_values_from out [] = out"
| "key_values_from out ((key, value) # rest) =
     (if list_ex (\<lambda>existing. kv_key existing = key) out then key_values_from out rest
      else key_values_from (out @ [KeyValue key (Some (string_value value)) 0]) rest)"

definition key_values :: "(string \<times> string) list \<Rightarrow> key_value list" where
  "key_values attributes = key_values_from [] attributes"

definition number_data_point_of :: "key_value list \<Rightarrow> f64 \<Rightarrow> u64 \<Rightarrow> u64 \<Rightarrow> number_data_point" where
  "number_data_point_of attributes value start_time_unix_nano time_unix_nano =
     \<lparr>ndp_attributes = attributes, ndp_start_time_unix_nano = start_time_unix_nano,
      ndp_time_unix_nano = time_unix_nano, ndp_exemplars = [], ndp_flags = 0,
      ndp_value = Some (AsDouble value)\<rparr>"

definition otlp_metric_of :: "metric \<Rightarrow> u64 \<Rightarrow> otlp_metric" where
  "otlp_metric_of m time_unix_nano =
     (let attributes = key_values (m_attributes m); value = m_value m in
      \<lparr>om_name = m_name m, om_description = [], om_unit = unwrap_or [] (m_unit m),
       om_metadata = [],
       om_data = Some (case m_kind m of
           KGauge \<Rightarrow> Gauge [number_data_point_of attributes value 0 time_unix_nano]
         | KSum \<Rightarrow> Sum [number_data_point_of attributes value time_unix_nano time_unix_nano]
                     CUMULATIVE True
         | KHistogram \<Rightarrow> Histogram
             [\<lparr>hdp_attributes = attributes, hdp_start_time_unix_nano = time_unix_nano,
               hdp_time_unix_nano = time_unix_nano, hdp_count = 1, hdp_sum = Some value,
               hdp_bucket_counts = [], hdp_explicit_bounds = [], hdp_exemplars = [],
               hdp_flags = 0, hdp_min = Some value, hdp_max = Some value\<rparr>] CUMULATIVE)\<rparr>)"

definition resource_metrics_of ::
  "source \<Rightarrow> metric list \<Rightarrow> string \<Rightarrow> string \<Rightarrow> u64 \<Rightarrow> resource_metrics"
where
  "resource_metrics_of source metrics service_name scope_name time_unix_nano =
     \<lparr>rm_resource = Some
        \<lparr>res_attributes = key_values
           [(''service.name'', service_name), (''skid_monitor.source'', source_as_str source)],
         res_dropped_attributes_count = 0, res_entity_refs = []\<rparr>,
      rm_scope_metrics =
        [\<lparr>sm_scope = Some \<lparr>is_name = scope_name, is_version = [], is_attributes = [],
                           is_dropped_attributes_count = 0\<rparr>,
          sm_metrics = map (\<lambda>m. otlp_metric_of m time_unix_nano) metrics,
          sm_schema_url = []\<rparr>],
      rm_schema_url = []\<rparr>"

fun push_group ::
  "metric \<Rightarrow> (source \<times> metric list) list \<Rightarrow> (source \<times> metric list) list"
where
  "push_group m [] = [(m_source m, [m])]"
| "push_group m ((source, grouped) # rest) =
     (if source = m_source m then (source, grouped @ [m]) # rest
      else (source, grouped) # push_group m rest)"

definition group_metrics :: "metric list \<Rightarrow> (source \<times> metric list) list" where
  "group_metrics metrics = fold push_group metrics []"

definition export_metrics ::
  "int \<Rightarrow> metric list \<Rightarrow> string \<Rightarrow> string \<Rightarrow> export_metrics_request"
where
  "export_metrics now metrics service_name scope_name =
     (if metrics = [] then \<lparr>emr_resource_metrics = []\<rparr>
      else let time_unix_nano = unix_nanos now in
        \<lparr>emr_resource_metrics =
           map (\<lambda>(source, group). resource_metrics_of source group service_name scope_name
                  time_unix_nano) (group_metrics metrics)\<rparr>)"

section \<open>Grouping\<close>

fun first_occurrences :: "'a list \<Rightarrow> 'a list" where
  "first_occurrences [] = []"
| "first_occurrences (x # xs) = x # filter (\<lambda>y. y \<noteq> x) (first_occurrences xs)"

definition of_source :: "metric list \<Rightarrow> source \<Rightarrow> source \<times> metric list" where
  "of_source metrics s = (s, filter (\<lambda>m. m_source m = s) metrics)"

lemma set_first_occurrences [simp]: "set (first_occurrences xs) = set xs"
  by (induction xs) auto

lemma distinct_first_occurrences: "distinct (first_occurrences xs)"
  by (induction xs) auto

lemma first_occurrences_snoc:
  "first_occurrences (xs @ [x]) =
    (if x \<in> set xs then first_occurrences xs else first_occurrences xs @ [x])"
  by (induction xs) auto

lemma push_group_absent:
  "m_source m \<notin> fst ` set gs \<Longrightarrow> push_group m gs = gs @ [(m_source m, [m])]"
  by (induction gs) auto

lemma push_group_present:
  assumes "distinct ss" "m_source m \<in> set ss"
  shows "push_group m (map (of_source ms) ss) = map (of_source (ms @ [m])) ss"
  using assms
proof (induction ss)
  case (Cons s ss)
  have "map (of_source ms) ss = map (of_source (ms @ [m])) ss" if "m_source m = s"
    using Cons.prems that by (auto simp: of_source_def)
  then show ?case
    using Cons by (auto simp: of_source_def)
qed simp

lemma group_metrics_spec:
  "group_metrics ms = map (of_source ms) (first_occurrences (map m_source ms))"
proof (induction ms rule: rev_induct)
  case Nil
  then show ?case by (simp add: group_metrics_def)
next
  case (snoc m ms)
  let ?ss = "first_occurrences (map m_source ms)"
  have step: "group_metrics (ms @ [m]) = push_group m (map (of_source ms) ?ss)"
    using snoc by (simp add: group_metrics_def)
  show ?case
  proof (cases "m_source m \<in> m_source ` set ms")
    case True
    then show ?thesis
      using push_group_present [of ?ss m ms] step
      by (simp add: first_occurrences_snoc distinct_first_occurrences)
  next
    case False
    have "filter (\<lambda>x. m_source x = m_source m) ms = []"
      using False by (metis (mono_tags, lifting) filter_False imageI)
    moreover have "map (of_source ms) ?ss = map (of_source (ms @ [m])) ?ss"
      using False by (auto simp: of_source_def)
    moreover have "m_source m \<notin> fst ` set (map (of_source ms) ?ss)"
      using False by (auto simp: of_source_def)
    ultimately show ?thesis
      using False step push_group_absent [of m "map (of_source ms) ?ss"]
      by (simp add: first_occurrences_snoc of_source_def)
  qed
qed

section \<open>Attributes\<close>

definition attribute_lookup :: "key_value list \<Rightarrow> string \<Rightarrow> any_value option" where
  "attribute_lookup kvs key = (case find (\<lambda>kv. kv_key kv = key) kvs of
     None \<Rightarrow> None | Some kv \<Rightarrow> kv_value kv)"

lemma attribute_lookup_append:
  "attribute_lookup (xs @ ys) k =
    (if k \<in> kv_key ` set xs then attribute_lookup xs k else attribute_lookup ys k)"
  by (induction xs) (auto simp: attribute_lookup_def)

lemma attribute_lookup_None: "k \<notin> kv_key ` set xs \<Longrightarrow> attribute_lookup xs k = None"
  by (induction xs) (auto simp: attribute_lookup_def)

lemma key_values_from_spec:
  assumes "distinct (map kv_key out)"
  shows "distinct (map kv_key (key_values_from out attrs)) \<and>
    attribute_lookup (key_values_from out attrs) k =
      (if k \<in> kv_key ` set out then attribute_lookup out k
       else map_option string_value (map_of attrs k))"
  using assms
proof (induction out attrs rule: key_values_from.induct)
  case (1 out)
  then show ?case by (simp add: attribute_lookup_None)
next
  case (2 out key v rest)
  show ?case
  proof (cases "list_ex (\<lambda>existing. kv_key existing = key) out")
    case True
    then have "key \<in> kv_key ` set out" by (force simp: list_ex_iff)
    then show ?thesis using 2 True by auto
  next
    case False
    then have "key \<notin> kv_key ` set out" by (force simp: list_ex_iff)
    then show ?thesis using 2 False
      by (auto simp: attribute_lookup_append) (auto simp: attribute_lookup_def)
  qed
qed

lemma key_values_distinct: "distinct (map kv_key (key_values attrs))"
  using key_values_from_spec [of "[]" attrs] by (simp add: key_values_def)

lemma key_values_lookup:
  "attribute_lookup (key_values attrs) k = map_option string_value (map_of attrs k)"
  using key_values_from_spec [of "[]" attrs k] by (simp add: key_values_def)

section \<open>Properties\<close>

text \<open>C25: exporting samples partitions them by source: the request has one resource per
  source that occurs, in order of first occurrence, and each resource holds exactly the
  samples of its source in their original order, all stamped with the same time.\<close>

theorem export_metrics_partition:
  "emr_resource_metrics (export_metrics now metrics service scope) =
     map (\<lambda>s. resource_metrics_of s (filter (\<lambda>m. m_source m = s) metrics) service scope (unix_nanos now))
       (first_occurrences (map m_source metrics)) \<and>
   metric_count (export_metrics now metrics service scope) = length metrics"
proof
  show part: "emr_resource_metrics (export_metrics now metrics service scope) =
     map (\<lambda>s. resource_metrics_of s (filter (\<lambda>m. m_source m = s) metrics) service scope (unix_nanos now))
       (first_occurrences (map m_source metrics))"
    by (simp add: export_metrics_def group_metrics_spec of_source_def comp_def)
  have count: "sum_list (map (\<lambda>s. length (filter (\<lambda>m. m_source m = s) ms)) ss) = length ms"
    if "distinct ss" "m_source ` set ms \<subseteq> set ss" for ss ms
    using that(2)
  proof (induction ms)
    case (Cons m ms)
    have "map (\<lambda>s. length (filter (\<lambda>x. m_source x = s) (m # ms))) ss =
        map (\<lambda>s. (if s = m_source m then 1 else 0) + length (filter (\<lambda>x. m_source x = s) ms)) ss"
      by (intro map_cong) auto
    moreover have "sum_list (map (\<lambda>s. if s = m_source m then 1 else (0::nat)) ss) = 1"
      using that(1) Cons.prems by (subst sum_list_distinct_conv_sum_set) auto
    ultimately show ?case
      using Cons by (simp only: sum_list_addf) simp
  qed simp
  have "metric_count (export_metrics now metrics service scope) =
     sum_list (map (\<lambda>s. length (filter (\<lambda>m. m_source m = s) metrics))
       (first_occurrences (map m_source metrics)))"
    by (simp add: metric_count_def part comp_def resource_metrics_of_def concat_map_singleton)
  also have "\<dots> = length metrics"
    by (rule count) (simp_all add: distinct_first_occurrences)
  finally show "metric_count (export_metrics now metrics service scope) = length metrics" .
qed

text \<open>C26: the attributes of an exported sample have unique keys, and looking a key up gives
  the first value the sample listed for it.\<close>

theorem key_values_first_wins:
  "distinct (map kv_key (key_values attributes)) \<and>
   attribute_lookup (key_values attributes) key = map_option string_value (map_of attributes key)"
  by (simp add: key_values_distinct key_values_lookup)

end
