(* ===== verification/Device_Socket.thy ===== *)
theory Device_Socket
  imports Edge_Wire Signal_Frame Metric_Export
begin

text \<open>
  The device socket of the agent (\<open>skid-monitor-agent/src/device_socket.rs\<close>): a framed
  payload is an edge-wire metrics frame or a JSON signal; edge-wire samples are lifted into
  OTLP metrics. The pipeline behind the socket is an argument of the connection handler.
\<close>

section \<open>Decoding payloads\<close>

fun decode_error_debug :: "decode_error \<Rightarrow> string" where
  "decode_error_debug TooShort = ''TooShort''"
| "decode_error_debug BadMagic = ''BadMagic''"
| "decode_error_debug UnsupportedVersion = ''UnsupportedVersion''"
| "decode_error_debug UnsupportedKind = ''UnsupportedKind''"
| "decode_error_debug InvalidUtf8 = ''InvalidUtf8''"
| "decode_error_debug TruncatedIdentity = ''TruncatedIdentity''"
| "decode_error_debug BadRecordLength = ''BadRecordLength''"
| "decode_error_debug ReservedMetricId = ''ReservedMetricId''"
| "decode_error_debug ReservedSensorId = ''ReservedSensorId''"
| "decode_error_debug UnknownMetricKind = ''UnknownMetricKind''"
| "decode_error_debug UnknownUnit = ''UnknownUnit''"

definition invalid_data :: "string \<Rightarrow> io_error" where
  "invalid_data message = io_error_new InvalidData message"

definition metric_name :: "metric_id \<Rightarrow> string" where
  "metric_name m =
     unwrap_or (''edge.metric.'' @ show_nat (unat (metric_id_get m))) (metric_known_name m)"

definition sensor_name :: "sensor_id \<Rightarrow> string option" where
  "sensor_name s = sensor_known_name s"

fun protocol_kind :: "edge_metric_kind \<Rightarrow> metric_kind" where
  "protocol_kind EdgeGauge = KGauge"
| "protocol_kind EdgeSum = KSum"
| "protocol_kind EdgeHistogram = KHistogram"

definition edge_wire_metric :: "edge_metrics_frame \<Rightarrow> edge_metric_sample \<Rightarrow> metric" where
  "edge_wire_metric frame sample =
     \<lparr>m_name = metric_name (es_metric_id sample),
      m_value = f32_to_f64 (es_value sample),
      m_source = EdgeDevice,
      m_unit = unit_as_str (es_unit sample),
      m_kind = protocol_kind (es_kind sample),
      m_attributes =
        [(''device_id'', ef_device_id frame), (''node_name'', ef_node_name frame),
         (''metric_id'', show_nat (unat (metric_id_get (es_metric_id sample)))),
         (''sensor_id'', show_nat (unat (sensor_id_get (es_sensor_id sample))))]
        @ (case sensor_name (es_sensor_id sample) of
             None \<Rightarrow> [] | Some sensor \<Rightarrow> [(''sensor'', sensor)])\<rparr>"

definition decode_edge_wire_payload :: "int \<Rightarrow> bytes \<Rightarrow> (io_error + signal) option" where
  "decode_edge_wire_payload now payload = do {
     decoded \<leftarrow> decode_metrics_frame payload;
     Some (and_then (map_err (\<lambda>e. invalid_data (''edge-wire frame: '' @ decode_error_debug e)) decoded)
       (\<lambda>frame.
         and_then
           (try_map (\<lambda>item. map_ok (edge_wire_metric frame)
              (map_err (\<lambda>e. invalid_data (''edge-wire record: '' @ decode_error_debug e)) item))
              (iter_run (frame_records frame)))
           (\<lambda>metrics. Inr (Metrics
              (export_metrics now metrics ''skid-edge-wire'' ''skid-monitor-edge-wire''))))) }"

definition decode_device_payload ::
  "(bytes \<Rightarrow> string + signal) \<Rightarrow> int \<Rightarrow> bytes \<Rightarrow> (io_error + signal) option"
where
  "decode_device_payload from_slice now payload =
     (if is_edge_wire_frame payload then decode_edge_wire_payload now payload
      else Some (decode_signal_payload from_slice payload))"

definition device_read_signal ::
  "(bytes \<Rightarrow> string + signal) \<Rightarrow> int \<Rightarrow> bytes \<Rightarrow> (io_error + signal) option"
where
  "device_read_signal from_slice now stream =
     (case read_exact 4 stream of
        (Inl e, _) \<Rightarrow> Some (Inl e)
      | (Inr len_buf, stream) \<Rightarrow>
          (case validate_frame_len (u32_from_be len_buf) of
             Inl e \<Rightarrow> Some (Inl e)
           | Inr len \<Rightarrow>
               (case read_exact len stream of
                  (Inl e, _) \<Rightarrow> Some (Inl e)
                | (Inr payload, _) \<Rightarrow> decode_device_payload from_slice now payload)))"

text \<open>
  One connection: exactly one signal is read and handed to the pipeline; its export error
  becomes an I/O error of kind \<open>Other\<close>.
\<close>

definition handle_connection ::
  "('p \<Rightarrow> signal \<Rightarrow> (string + unit) \<times> 'p) \<Rightarrow> (bytes \<Rightarrow> string + signal) \<Rightarrow> int \<Rightarrow>
    bytes \<Rightarrow> 'p \<Rightarrow> ((io_error + unit) \<times> 'p) option"
where
  "handle_connection export from_slice now stream pipeline = do {
     r \<leftarrow> device_read_signal from_slice now stream;
     Some (case r of
        Inl e \<Rightarrow> (Inl e, pipeline)
      | Inr signal \<Rightarrow>
          (case export pipeline signal of
             (r, pipeline) \<Rightarrow> (map_err (io_error_new OtherKind) r, pipeline))) }"

section \<open>Lemmas\<close>

lemma decode_device_total: "\<exists>r. decode_device_payload from_slice now payload = Some r"
  using decode_total [of payload]
  by (auto simp: decode_device_payload_def decode_edge_wire_payload_def)

lemma frame_bytes_is_edge: "is_edge_wire_frame (frame_bytes flags seq identity metrics)"
  by (simp add: is_edge_wire_frame_def length_frame_bytes)
    (simp add: frame_bytes_def slice_def MAGIC_def)

lemma try_map_samples:
  "try_map (\<lambda>item. map_ok f (map_err g item)) (map Inr xs) = Inr (map f xs)"
  by (induction xs) auto

lemma decode_edge_frame_bytes:
  assumes "encodable identity metrics"
    and "is_text (ei_device_id identity)" "is_text (ei_node_name identity)"
  shows "decode_device_payload from_slice now (frame_bytes flags seq identity metrics) =
    Some (Inr (Metrics (export_metrics now
      (map (edge_wire_metric (frame_of flags seq identity metrics)) metrics)
      ''skid-edge-wire'' ''skid-monitor-edge-wire'')))"
  using decode_frame_bytes [OF assms] iter_run_frame_of [OF assms(1)]
  by (simp add: decode_device_payload_def frame_bytes_is_edge decode_edge_wire_payload_def
      try_map_samples)

section \<open>Properties\<close>

text \<open>C17: end to end from device to OTLP. A non-empty batch of samples that a device encodes
  into its buffer is decoded by the agent into one metrics resource of source
  \<open>edge_device\<close> holding, in order, one OTLP metric per sample with the sample's name, unit
  and the exactly widened value; whatever the finite \<open>f32\<close> value was, the \<open>f64\<close> value
  denotes the same number.\<close>

theorem device_frame_lifted:
  assumes "encodable identity samples" "samples \<noteq> []"
    and "is_text (ei_device_id identity)" "is_text (ei_node_name identity)"
    and "encode_metrics_frame out seq identity samples = Some (Inr n, out')"
  shows "\<exists>frame. decode_device_payload from_slice now (take n out') =
      Some (Inr (Metrics \<lparr>emr_resource_metrics =
        [resource_metrics_of EdgeDevice (map (edge_wire_metric frame) samples)
           ''skid-edge-wire'' ''skid-monitor-edge-wire'' (unix_nanos now)]\<rparr>)) \<and>
    ef_device_id frame = ei_device_id identity \<and> ef_node_name frame = ei_node_name identity \<and>
    (\<forall>s \<in> set samples. m_name (edge_wire_metric frame s) = metric_name (es_metric_id s) \<and>
       (f32_exp (es_value s) \<noteq> 255 \<longrightarrow>
          f64_scaled (m_value (edge_wire_metric frame s)) = f32_scaled (es_value s) * 2 ^ 925))"
proof -
  let ?f = "frame_of 0 seq identity samples"
  have room: "length (frame_bytes 0 seq identity samples) \<le> length out"
  proof (rule ccontr)
    assume "\<not> ?thesis"
    then show False
      using assms(5) by (simp add: encode_metrics_frame_def Let_def length_frame_bytes split: if_splits)
  qed
  have "take n out' = frame_bytes 0 seq identity samples"
    using encode_ok [OF assms(1) room] assms(5) by auto
  moreover have "export_metrics now (map (edge_wire_metric ?f) samples) ''skid-edge-wire''
      ''skid-monitor-edge-wire'' = \<lparr>emr_resource_metrics =
        [resource_metrics_of EdgeDevice (map (edge_wire_metric ?f) samples)
           ''skid-edge-wire'' ''skid-monitor-edge-wire'' (unix_nanos now)]\<rparr>"
  proof -
    have "m_source (edge_wire_metric ?f s) = EdgeDevice" for s
      by (simp add: edge_wire_metric_def)
    then have src: "map m_source (map (edge_wire_metric ?f) samples) = replicate (length samples) EdgeDevice"
      by (simp add: comp_def map_replicate_const)
    have "first_occurrences (replicate k EdgeDevice) = (if k = 0 then [] else [EdgeDevice])" for k
      by (induction k) auto
    then show ?thesis
      using assms(2) src
      by (simp add: export_metrics_def group_metrics_spec of_source_def comp_def edge_wire_metric_def)
  qed
  ultimately show ?thesis
    using decode_edge_frame_bytes [OF assms(1, 3, 4), of from_slice now 0 seq]
    by (intro exI [of _ ?f]) (simp add: frame_of_def edge_wire_metric_def f32_to_f64_exact)
qed

theorem device_frame_lifted_witness:
  "\<exists>n out' frame. encode_metrics_frame (replicate 40 0) 7 \<lparr>ei_device_id = ''d1'', ei_node_name = ''n''\<rparr>
      [\<lparr>es_metric_id = MetricId 1, es_sensor_id = SensorId 2, es_kind = EdgeGauge,
        es_unit = Celsius, es_value = 0x41C80000\<rparr>] = Some (Inr n, out') \<and>
    decode_device_payload (\<lambda>_. Inl ''json'') 5 (take n out') =
      Some (Inr (Metrics \<lparr>emr_resource_metrics =
        [resource_metrics_of EdgeDevice (map (edge_wire_metric frame)
          [\<lparr>es_metric_id = MetricId 1, es_sensor_id = SensorId 2, es_kind = EdgeGauge,
            es_unit = Celsius, es_value = 0x41C80000\<rparr>])
           ''skid-edge-wire'' ''skid-monitor-edge-wire'' (unix_nanos 5)]\<rparr>))"
proof -
  let ?i = "\<lparr>ei_device_id = ''d1'', ei_node_name = ''n''\<rparr>"
  let ?s = "[\<lparr>es_metric_id = MetricId 1, es_sensor_id = SensorId 2, es_kind = EdgeGauge,
        es_unit = Celsius, es_value = 0x41C80000\<rparr>]"
  have e: "encodable ?i ?s" by (simp add: encodable_def)
  have "length (frame_bytes 0 7 ?i ?s) \<le> length (replicate 40 (0::u8))"
    by (simp add: length_frame_bytes HEADER_LEN_def RECORD_LEN_def)
  from encode_ok [OF e this] obtain n out'
    where enc: "encode_metrics_frame (replicate 40 0) 7 ?i ?s = Some (Inr n, out')" by blast
  show ?thesis
    using device_frame_lifted [OF e _ _ _ enc, of "\<lambda>_. Inl ''json''" 5] enc
    by (auto simp: is_text_ascii code_def)
qed


end
