(* ===== verification/Sequence_State.thy ===== *)
theory Sequence_State
  imports Signal_Frame
begin

text \<open>
  Request sequence numbers of the OTLP exporter (\<open>skid-monitor-agent/src/exporters.rs\<close>,
  \<open>Sequence\<close> and \<open>DurableSequence\<close>): the in-memory counter and the file-backed allocator
  that persists the following value before it hands one out.

  The directory of the state file is modelled with what a crash can leave behind: a file
  whose data is not synced comes back with arbitrary contents, and a directory entry comes
  back as any version it had since the last directory sync. Every system call may fail:
  the outcomes of the coming calls are the list \<open>h_script\<close> (\<open>None\<close> is success, and calls
  beyond the list succeed). A failing call changes nothing, except that a failing write may
  have written a prefix, and whether a name exists is decided by the directory and never by
  the script. A crash in the middle of an operation is a script whose calls all
  fail from that point on, followed by a crash.
\<close>

section \<open>The host\<close>

datatype fs_node = Regular bytes bool | SymlinkNode | DirNode

type_synonym fault = "(io_error \<times> nat) option"

record host =
  h_files :: "string \<rightharpoonup> fs_node"
  h_history :: "string \<Rightarrow> fs_node option list"
  h_locked :: "string set"
  h_script :: "fault list"
  h_temp_counter :: u64
  h_pid :: nat

type_synonym 'a sys = "host \<Rightarrow> (io_error + 'a) \<times> host"

definition with_fault :: "(nat \<Rightarrow> host \<Rightarrow> host) \<Rightarrow> 'a sys \<Rightarrow> 'a sys" where
  "with_fault partial call h =
     (case h_script h of
        [] \<Rightarrow> call h
      | None # rest \<Rightarrow> call (h\<lparr>h_script := rest\<rparr>)
      | Some (e, k) # rest \<Rightarrow>
          if io_kind e = NotFound \<or> io_kind e = AlreadyExists then call (h\<lparr>h_script := rest\<rparr>)
          else (Inl e, partial k (h\<lparr>h_script := rest\<rparr>)))"

definition set_entry :: "string \<Rightarrow> fs_node option \<Rightarrow> host \<Rightarrow> host" where
  "set_entry name v h = h\<lparr>h_files := (h_files h)(name := v),
     h_history := (h_history h)(name := h_history h name @ [h_files h name])\<rparr>"

definition set_data :: "string \<Rightarrow> bytes \<Rightarrow> bool \<Rightarrow> host \<Rightarrow> host" where
  "set_data name data synced h = h\<lparr>h_files := (h_files h)(name \<mapsto> Regular data synced)\<rparr>"

definition not_found :: io_error where
  "not_found = io_error_new NotFound ''No such file or directory''"

definition sys_metadata :: "string \<Rightarrow> fs_node sys" where
  "sys_metadata name = with_fault (\<lambda>_. id) (\<lambda>h.
     (case h_files h name of None \<Rightarrow> (Inl not_found, h) | Some node \<Rightarrow> (Inr node, h)))"

definition sys_open_create :: "string \<Rightarrow> unit sys" where
  "sys_open_create name = with_fault (\<lambda>_. id) (\<lambda>h.
     (case h_files h name of
        None \<Rightarrow> (Inr (), set_entry name (Some (Regular [] False)) h)
      | Some (Regular _ _) \<Rightarrow> (Inr (), h)
      | Some _ \<Rightarrow> (Inl (io_error_new OtherKind ''not a regular file''), h)))"

definition sys_create_new :: "string \<Rightarrow> unit sys" where
  "sys_create_new name = with_fault (\<lambda>_. id) (\<lambda>h.
     (case h_files h name of
        None \<Rightarrow> (Inr (), set_entry name (Some (Regular [] False)) h)
      | Some _ \<Rightarrow> (Inl (io_error_new AlreadyExists ''File exists''), h)))"

definition sys_read :: "string \<Rightarrow> bytes sys" where
  "sys_read name = with_fault (\<lambda>_. id) (\<lambda>h.
     (case h_files h name of
        None \<Rightarrow> (Inl not_found, h)
      | Some (Regular data _) \<Rightarrow> (Inr data, h)
      | Some _ \<Rightarrow> (Inl (io_error_new OtherKind ''not a regular file''), h)))"

definition sys_touch :: "unit sys" where
  "sys_touch = with_fault (\<lambda>_. id) (\<lambda>h. (Inr (), h))"

definition append_data :: "string \<Rightarrow> bytes \<Rightarrow> host \<Rightarrow> host" where
  "append_data name bs h =
     (case h_files h name of Some (Regular data _) \<Rightarrow> set_data name (data @ bs) False h | _ \<Rightarrow> h)"

definition sys_write :: "string \<Rightarrow> bytes \<Rightarrow> unit sys" where
  "sys_write name bs = with_fault (\<lambda>k. append_data name (take k bs))
     (\<lambda>h. (Inr (), append_data name bs h))"

definition sys_fsync :: "string \<Rightarrow> unit sys" where
  "sys_fsync name = with_fault (\<lambda>_. id) (\<lambda>h.
     (Inr (), case h_files h name of Some (Regular data _) \<Rightarrow> set_data name data True h | _ \<Rightarrow> h))"

definition sys_rename :: "string \<Rightarrow> string \<Rightarrow> unit sys" where
  "sys_rename from to = with_fault (\<lambda>_. id) (\<lambda>h.
     (case h_files h from of
        None \<Rightarrow> (Inl not_found, h)
      | Some node \<Rightarrow> (Inr (), set_entry from None (set_entry to (Some node) h))))"

definition sys_unlink :: "string \<Rightarrow> unit sys" where
  "sys_unlink name = with_fault (\<lambda>_. id) (\<lambda>h.
     (case h_files h name of
        None \<Rightarrow> (Inl not_found, h)
      | Some _ \<Rightarrow> (Inr (), set_entry name None h)))"

definition sys_sync_dir :: "unit sys" where
  "sys_sync_dir = with_fault (\<lambda>_. id) (\<lambda>h. (Inr (), h\<lparr>h_history := (\<lambda>_. [])\<rparr>))"

section \<open>Errors\<close>

datatype seq_error =
    LockIsSymlink
  | OpenLock io_error
  | InspectLock io_error
  | AcquireLock io_error
  | LockNotRegular
  | AlreadyLocked
  | NotRegularFile
  | InspectState io_error
  | CorruptLength
  | OpenState io_error
  | ReadState io_error
  | CorruptDecimal
  | CorruptU64
  | ZeroReserved
  | Permissions io_error
  | CreateTemp io_error
  | NoUniqueTemp
  | WriteTemp io_error
  | FsyncTemp io_error
  | Replace io_error
  | FsyncDirectory io_error
  | SequenceExhausted

type_synonym 'a io = "host \<Rightarrow> (seq_error + 'a) \<times> host"

definition lift_sys :: "(io_error \<Rightarrow> seq_error) \<Rightarrow> 'a sys \<Rightarrow> 'a io" where
  "lift_sys f call h = (case call h of (r, h') \<Rightarrow> (map_err f r, h'))"

definition io_then :: "'a io \<Rightarrow> ('a \<Rightarrow> 'b io) \<Rightarrow> 'b io" where
  "io_then m k h = (case m h of (Inl e, h') \<Rightarrow> (Inl e, h') | (Inr a, h') \<Rightarrow> k a h')"

definition io_return :: "'a \<Rightarrow> 'a io" where
  "io_return a h = (Inr a, h)"

definition io_fail :: "seq_error \<Rightarrow> 'a io" where
  "io_fail e h = (Inl e, h)"

section \<open>Reading and persisting the state file\<close>

definition MAX_SEQUENCE_STATE_BYTES :: nat where "MAX_SEQUENCE_STATE_BYTES = 64"
definition SEQUENCE_TEMP_ATTEMPTS :: nat where "SEQUENCE_TEMP_ATTEMPTS = 32"

text \<open>\<open>restrict_file_permissions\<close>: read the metadata, then set the mode.\<close>

definition restrict_file_permissions :: "unit io" where
  "restrict_file_permissions =
     io_then (lift_sys Permissions sys_touch) (\<lambda>_. lift_sys Permissions sys_touch)"

definition sync_parent_directory :: "unit io" where
  "sync_parent_directory =
     io_then (lift_sys FsyncDirectory sys_touch) (\<lambda>_. lift_sys FsyncDirectory sys_sync_dir)"

definition atomic_replace :: "string \<Rightarrow> string \<Rightarrow> unit sys" where
  "atomic_replace source destination = sys_rename source destination"

definition parse_sequence_text :: "bytes \<Rightarrow> seq_error + u64" where
  "parse_sequence_text data =
     (case from_utf8 data of
        None \<Rightarrow> Inl (ReadState (io_error_new InvalidData ''stream did not contain valid UTF-8''))
      | Some text \<Rightarrow>
          let text = unwrap_or text (strip_suffix_char (CHR 0x0A) text) in
          if text = [] \<or> \<not> list_all is_digit text then Inl CorruptDecimal
          else (case parse_u64 text of
                  None \<Rightarrow> Inl CorruptU64
                | Some v \<Rightarrow> if v = 0 then Inl ZeroReserved else Inr v))"

definition read_sequence_state :: "string \<Rightarrow> nat \<Rightarrow> u64 io" where
  "read_sequence_state path len =
     (if len = 0 \<or> len > MAX_SEQUENCE_STATE_BYTES then io_fail CorruptLength
      else io_then (lift_sys OpenState sys_touch) (\<lambda>_.
           io_then restrict_file_permissions (\<lambda>_.
           io_then (lift_sys ReadState (sys_read path)) (\<lambda>data.
           \<lambda>h. (parse_sequence_text data, h)))))"

definition temp_name :: "string \<Rightarrow> nat \<Rightarrow> u64 \<Rightarrow> string" where
  "temp_name file_name pid counter =
     ''.'' @ file_name @ ''.tmp.'' @ show_nat pid @ ''.'' @ show_u64 counter"

fun create_temp :: "nat \<Rightarrow> string \<Rightarrow> string io" where
  "create_temp 0 path h = (Inl NoUniqueTemp, h)"
| "create_temp (Suc n) path h =
     (let temp = temp_name path (h_pid h) (h_temp_counter h);
          h = h\<lparr>h_temp_counter := h_temp_counter h + 1\<rparr>
      in case sys_create_new temp h of
           (Inr _, h) \<Rightarrow> (Inr temp, h)
         | (Inl e, h) \<Rightarrow>
             if io_kind e = AlreadyExists then create_temp n path h else (Inl (CreateTemp e), h))"

definition sequence_text :: "u64 \<Rightarrow> bytes" where
  "sequence_text next = as_bytes (show_u64 next) @ [0x0A]"

definition persist_into :: "string \<Rightarrow> string \<Rightarrow> u64 \<Rightarrow> unit io" where
  "persist_into temp path next =
     io_then restrict_file_permissions (\<lambda>_.
     io_then (lift_sys WriteTemp (sys_write temp (sequence_text next))) (\<lambda>_.
     io_then (lift_sys FsyncTemp (sys_fsync temp)) (\<lambda>_.
     io_then (lift_sys Replace (atomic_replace temp path)) (\<lambda>_.
     sync_parent_directory))))"

definition persist_sequence_state :: "string \<Rightarrow> u64 \<Rightarrow> unit io" where
  "persist_sequence_state path next =
     io_then (create_temp SEQUENCE_TEMP_ATTEMPTS path) (\<lambda>temp h.
       case persist_into temp path next h of
         (Inr u, h) \<Rightarrow> (Inr u, h)
       | (Inl e, h) \<Rightarrow> (Inl e, snd (sys_unlink temp h)))"

section \<open>The durable allocator\<close>

record durable_sequence =
  ds_state_path :: string
  ds_next :: u64

definition companion_lock_path :: "string \<Rightarrow> string" where
  "companion_lock_path state_path = state_path @ ''.lock''"

definition open_sequence_lock :: "string \<Rightarrow> unit io" where
  "open_sequence_lock path h =
     (case sys_metadata path h of
        (Inr SymlinkNode, h) \<Rightarrow> (Inl LockIsSymlink, h)
      | (_, h) \<Rightarrow>
          io_then (lift_sys OpenLock (sys_open_create path)) (\<lambda>_.
          io_then (lift_sys InspectLock (sys_metadata path)) (\<lambda>node.
          case node of
            Regular _ _ \<Rightarrow> restrict_file_permissions
          | _ \<Rightarrow> io_fail LockNotRegular)) h)"

definition try_lock :: "string \<Rightarrow> unit io" where
  "try_lock path =
     io_then (lift_sys AcquireLock sys_touch) (\<lambda>_ h.
       if path \<in> h_locked h then (Inl AlreadyLocked, h)
       else (Inr (), h\<lparr>h_locked := insert path (h_locked h)\<rparr>))"

definition unlock :: "string \<Rightarrow> host \<Rightarrow> host" where
  "unlock path h = h\<lparr>h_locked := h_locked h - {path}\<rparr>"

definition load_or_init :: "string \<Rightarrow> u64 \<Rightarrow> u64 io" where
  "load_or_init state_path initial h =
     (case sys_metadata state_path h of
        (Inr (Regular data _), h) \<Rightarrow> read_sequence_state state_path (length data) h
      | (Inr _, h) \<Rightarrow> (Inl NotRegularFile, h)
      | (Inl e, h) \<Rightarrow>
          if io_kind e = NotFound then
            io_then (persist_sequence_state state_path (max initial 1))
              (\<lambda>_. io_return (max initial 1)) h
          else (Inl (InspectState e), h))"

text \<open>Dropping the lock file on an error path releases the advisory lock.\<close>

definition open_with_start :: "string \<Rightarrow> u64 \<Rightarrow> durable_sequence io" where
  "open_with_start state_path initial =
     (let lock_path = companion_lock_path state_path in
      io_then (open_sequence_lock lock_path) (\<lambda>_.
      io_then (try_lock lock_path) (\<lambda>_ h.
        case load_or_init state_path initial h of
          (Inr next, h) \<Rightarrow> (Inr \<lparr>ds_state_path = state_path, ds_next = next\<rparr>, h)
        | (Inl e, h) \<Rightarrow> (Inl e, unlock lock_path h))))"

definition next_blocking :: "durable_sequence \<times> host \<Rightarrow> (seq_error + u64) \<times> durable_sequence \<times> host" where
  "next_blocking s = (case s of (d, h) \<Rightarrow>
     (let allocated = ds_next d in
      case checked_add allocated 1 of
        None \<Rightarrow> (Inl SequenceExhausted, d, h)
      | Some following \<Rightarrow>
          (case persist_sequence_state (ds_state_path d) following h of
             (Inl e, h) \<Rightarrow> (Inl e, d, h)
           | (Inr _, h) \<Rightarrow> (Inr allocated, d\<lparr>ds_next := following\<rparr>, h))))"

section \<open>The ephemeral allocator\<close>

definition ephemeral :: "u64 \<Rightarrow> u64" where
  "ephemeral start = max start 1"

definition ephemeral_next :: "u64 \<Rightarrow> (seq_error + u64) \<times> u64" where
  "ephemeral_next current =
     (case checked_add current 1 of
        None \<Rightarrow> (Inl SequenceExhausted, current)
      | Some following \<Rightarrow> (Inr current, following))"

definition initial_sequence :: "int \<Rightarrow> u64" where
  "initial_sequence clock =
     max (if clock < 0 then 1 else of_nat (min (nat clock) (2 ^ 64 - 1))) 1"

text \<open>The values of the successful calls among \<open>k\<close> calls.\<close>

fun allocate :: "('s \<Rightarrow> (seq_error + u64) \<times> 's) \<Rightarrow> nat \<Rightarrow> 's \<Rightarrow> u64 list \<times> 's" where
  "allocate next_value 0 s = ([], s)"
| "allocate next_value (Suc k) s =
     (case next_value s of
        (r, s') \<Rightarrow> (case allocate next_value k s' of (ns, t) \<Rightarrow>
          (case r of Inl _ \<Rightarrow> (ns, t) | Inr n \<Rightarrow> (n # ns, t))))"

section \<open>The contract of an allocator\<close>

text \<open>
  What the exporter relies on: a successful call returns a value at or above the current
  bound and moves the bound past it, and no call lowers the bound.
\<close>

locale sequence_allocator =
  fixes next_value :: "'s \<Rightarrow> (seq_error + u64) \<times> 's"
    and bound :: "'s \<Rightarrow> u64"
  assumes next_ok: "next_value s = (Inr n, s') \<Longrightarrow> bound s \<le> n \<and> n < bound s'"
    and next_err: "next_value s = (Inl e, s') \<Longrightarrow> bound s \<le> bound s'"
begin

lemma allocate_bound:
  "allocate next_value k s = (ns, t) \<Longrightarrow> sorted_wrt (<) ns \<and> (\<forall>n \<in> set ns. bound s \<le> n) \<and> bound s \<le> bound t"
proof (induction k arbitrary: s ns t)
  case (Suc k)
  obtain r s' where step: "next_value s = (r, s')" by fastforce
  obtain ms where rest: "allocate next_value k s' = (ms, t)"
    and ns: "ns = (case r of Inl _ \<Rightarrow> ms | Inr n \<Rightarrow> n # ms)"
    using Suc.prems step by (auto split: prod.splits sum.splits)
  have ih: "sorted_wrt (<) ms" "\<And>n. n \<in> set ms \<Longrightarrow> bound s' \<le> n" "bound s' \<le> bound t"
    using Suc.IH [OF rest] by auto
  show ?case
  proof (cases r)
    case (Inl e)
    have "bound s \<le> bound s'" using next_err [of s e s'] step Inl by simp
    then show ?thesis using ih ns Inl by force
  next
    case (Inr n)
    then have "bound s \<le> n" "n < bound s'" using next_ok [of s n s'] step by auto
    then show ?thesis using ih ns Inr by force
  qed
qed simp

lemma allocate_distinct: "distinct (fst (allocate next_value k s))"
proof -
  obtain ns t where a: "allocate next_value k s = (ns, t)" by fastforce
  have "sorted_wrt (<) xs \<Longrightarrow> distinct xs" for xs :: "u64 list"
    by (induction xs) auto
  then show ?thesis using allocate_bound [OF a] a by simp
qed

end

lemma checked_add_one:
  "checked_add (a :: u64) 1 = Some c \<Longrightarrow> a < c"
  using checked_add_unat [of a 1 c] by (simp add: word_less_nat_alt)

interpretation eph: sequence_allocator ephemeral_next "\<lambda>s. s"
  by unfold_locales
    (auto simp: ephemeral_next_def dest: checked_add_one split: option.splits)

interpretation dur: sequence_allocator next_blocking "\<lambda>s. ds_next (fst s)"
  by unfold_locales
    (auto simp: next_blocking_def Let_def dest: checked_add_one
      split: option.splits prod.splits sum.splits)

section \<open>Crashes and restarts\<close>

text \<open>
  A system is the host, the allocators that are open in its processes and the sequence
  numbers handed out so far, over all runs. Nobody else changes the state file. Between two operations the environment may
  choose the outcomes of the coming system calls.
\<close>

fun survives :: "fs_node option \<Rightarrow> fs_node option \<Rightarrow> bool" where
  "survives (Some (Regular data synced)) v =
     (if synced then v = Some (Regular data True) else \<exists>data'. v = Some (Regular data' True))"
| "survives u v = (u = v)"

definition versions :: "host \<Rightarrow> string \<Rightarrow> fs_node option set" where
  "versions h name = set (h_history h name) \<union> {h_files h name}"

definition crashed :: "host \<Rightarrow> host \<Rightarrow> bool" where
  "crashed h h' \<longleftrightarrow>
     (\<forall>name. \<exists>v \<in> versions h name. survives v (h_files h' name)) \<and>
     h_history h' = (\<lambda>_. []) \<and> h_locked h' = {}"

type_synonym sequence_system = "host \<times> durable_sequence list \<times> u64 list"

inductive seq_step :: "string \<Rightarrow> sequence_system \<Rightarrow> sequence_system \<Rightarrow> bool" for path where
  open_ok: "open_with_start path initial (h\<lparr>h_script := script\<rparr>) = (Inr d, h') \<Longrightarrow>
     seq_step path (h, ds, issued) (h', d # ds, issued)"
| open_err: "open_with_start path initial (h\<lparr>h_script := script\<rparr>) = (Inl e, h') \<Longrightarrow>
     seq_step path (h, ds, issued) (h', ds, issued)"
| next_ok: "next_blocking (d, h\<lparr>h_script := script\<rparr>) = (Inr n, d', h') \<Longrightarrow>
     seq_step path (h, ds @ d # es, issued) (h', ds @ d' # es, issued @ [n])"
| next_err: "next_blocking (d, h\<lparr>h_script := script\<rparr>) = (Inl e, d', h') \<Longrightarrow>
     seq_step path (h, ds @ d # es, issued) (h', ds @ d' # es, issued)"
| close: "seq_step path (h, ds @ d # es, issued)
     (unlock (companion_lock_path path) h, ds @ es, issued)"
| crash: "crashed h h' \<Longrightarrow> seq_step path (h, ds, issued) (h', [], issued)"

inductive seq_reachable :: "string \<Rightarrow> host \<Rightarrow> sequence_system \<Rightarrow> bool" for path h0 where
  start: "h_locked h0 = {} \<Longrightarrow> seq_reachable path h0 (h0, [], [])"
| step: "seq_reachable path h0 s \<Longrightarrow> seq_step path s t \<Longrightarrow> seq_reachable path h0 t"


section \<open>What system calls do to the state file\<close>

text \<open>\<open>keeps S h h'\<close>: the entry \<open>S\<close> has the same versions and the locks are the same.\<close>

definition keeps :: "string \<Rightarrow> host \<Rightarrow> host \<Rightarrow> bool" where
  "keeps S h h' \<longleftrightarrow> h_files h' S = h_files h S \<and> h_history h' S = h_history h S \<and>
     h_locked h' = h_locked h"

lemma keeps_refl [simp]: "keeps S h h"
  by (simp add: keeps_def)

lemma keeps_trans: "keeps S h h' \<Longrightarrow> keeps S h' h'' \<Longrightarrow> keeps S h h''"
  by (simp add: keeps_def)

lemma keeps_versions: "keeps S h h' \<Longrightarrow> versions h' S = versions h S"
  by (simp add: keeps_def versions_def)

lemma keeps_script: "keeps S (h\<lparr>h_script := sc\<rparr>) h' \<Longrightarrow> keeps S h h'"
  by (simp add: keeps_def)

lemma keeps_with_fault:
  assumes "\<And>k g. keeps S g (partial k g)" "\<And>g. keeps S g (snd (call g))"
  shows "keeps S h (snd (with_fault partial call h))"
proof (cases "h_script h")
  case Nil
  then show ?thesis using assms(2) by (simp add: with_fault_def)
next
  case (Cons f rest)
  then show ?thesis
    using assms(1) assms(2)
    by (cases f) (auto simp: with_fault_def intro: keeps_script split: prod.split)
qed

lemma keeps_set_entry: "name \<noteq> S \<Longrightarrow> keeps S h (set_entry name v h)"
  by (simp add: keeps_def set_entry_def)

lemma keeps_append_data: "name \<noteq> S \<Longrightarrow> keeps S h (append_data name bs h)"
  by (auto simp: keeps_def append_data_def set_data_def split: option.split fs_node.split)

lemma keeps_sys:
  shows "keeps S h (snd (sys_metadata name h))"
    and "keeps S h (snd (sys_read name h))"
    and "keeps S h (snd (sys_touch h))"
    and "name \<noteq> S \<Longrightarrow> keeps S h (snd (sys_open_create name h))"
    and "name \<noteq> S \<Longrightarrow> keeps S h (snd (sys_create_new name h))"
    and "name \<noteq> S \<Longrightarrow> keeps S h (snd (sys_write name bs h))"
    and "name \<noteq> S \<Longrightarrow> keeps S h (snd (sys_fsync name h))"
    and "name \<noteq> S \<Longrightarrow> keeps S h (snd (sys_unlink name h))"
  unfolding sys_metadata_def sys_read_def sys_touch_def sys_open_create_def sys_create_new_def
    sys_write_def sys_fsync_def sys_unlink_def
  by (rule keeps_with_fault;
      force simp: keeps_set_entry keeps_append_data set_data_def keeps_def [of S _ "_\<lparr>h_files := _\<rparr>"]
        split: option.split fs_node.split)+

lemma keeps_lift: "keeps S h (snd (m h)) \<Longrightarrow> keeps S h (snd (lift_sys f m h))"
  by (auto simp: lift_sys_def split: prod.split)

lemma keeps_io_then:
  assumes "\<And>h. keeps S h (snd (m h))" "\<And>a h. keeps S h (snd (k a h))"
  shows "keeps S h (snd (io_then m k h))"
proof (cases "m h")
  case (Pair r h')
  then have "keeps S h h'" using assms(1) [of h] by simp
  then show ?thesis
    using Pair assms(2) by (cases r) (auto simp: io_then_def intro: keeps_trans)
qed

lemma keeps_restrict: "keeps S h (snd (restrict_file_permissions h))"
  unfolding restrict_file_permissions_def
  by (intro keeps_io_then keeps_lift keeps_sys)

lemma with_fault_Inr:
  assumes "with_fault partial call h = (Inr a, h')"
  shows "\<exists>sc. call (h\<lparr>h_script := sc\<rparr>) = (Inr a, h')"
proof (cases "h_script h")
  case Nil
  then have "h\<lparr>h_script := []\<rparr> = h" "call h = (Inr a, h')"
    using assms by (simp_all add: with_fault_def)
  then show ?thesis by metis
next
  case (Cons f rest)
  then show ?thesis using assms by (cases f) (auto simp: with_fault_def split: if_splits)
qed

lemma lift_sys_Inr: "lift_sys f m h = (Inr a, h') \<longleftrightarrow> m h = (Inr a, h')"
  by (auto simp: lift_sys_def result_simps split: prod.splits)

lemma io_then_cases:
  assumes "io_then m k h = (r, h')"
  obtains (err) e where "m h = (Inl e, h')" "r = Inl e"
    | (ok) a h1 where "m h = (Inr a, h1)" "k a h1 = (r, h')"
  using assms by (auto simp: io_then_def split: prod.splits sum.splits)

lemma create_new_ok:
  "sys_create_new t h = (Inr (), h') \<Longrightarrow> h_files h' t = Some (Regular [] False)"
  unfolding sys_create_new_def
  by (drule with_fault_Inr) (auto simp: set_entry_def split: option.splits)

lemma write_ok:
  assumes "sys_write t bs h = (Inr (), h')" "h_files h t = Some (Regular data b)"
  shows "h_files h' t = Some (Regular (data @ bs) False)"
  using with_fault_Inr [OF assms(1) [unfolded sys_write_def]] assms(2)
  by (auto simp: append_data_def set_data_def)

lemma fsync_ok:
  assumes "sys_fsync t h = (Inr (), h')" "h_files h t = Some (Regular data b)"
  shows "h_files h' t = Some (Regular data True)"
  using with_fault_Inr [OF assms(1) [unfolded sys_fsync_def]] assms(2)
  by (auto simp: set_data_def)

lemma rename_ok:
  assumes "sys_rename t S h = (Inr (), h')" "h_files h t = Some node" "t \<noteq> S"
  shows "h_files h' S = Some node \<and> versions h' S = insert (Some node) (versions h S) \<and>
    h_locked h' = h_locked h"
  using with_fault_Inr [OF assms(1) [unfolded sys_rename_def]] assms(2, 3)
  by (auto simp: set_entry_def versions_def)

lemma rename_err: "sys_rename t S h = (Inl e, h') \<Longrightarrow> keeps S h h'"
  by (auto simp: sys_rename_def with_fault_def keeps_def split: list.splits option.splits if_splits)

lemma sync_dir:
  assumes "sync_parent_directory h = (r, h')"
  shows "h_files h' S = h_files h S \<and> versions h' S \<subseteq> versions h S \<and> h_locked h' = h_locked h \<and>
    (is_ok r \<longrightarrow> versions h' S = {h_files h S})"
proof -
  have d: "h_files g' S = h_files g S \<and> versions g' S \<subseteq> versions g S \<and> h_locked g' = h_locked g \<and>
      (is_ok q \<longrightarrow> versions g' S = {h_files g S})" if "sys_sync_dir g = (q, g')" for q g g'
    using that
    by (auto simp: sys_sync_dir_def with_fault_def versions_def
        split: list.splits option.splits if_splits)
  from assms show ?thesis
    unfolding sync_parent_directory_def
  proof (cases rule: io_then_cases)
    case (err e)
    then have "keeps S h h'"
      using keeps_lift [where m = sys_touch, OF keeps_sys(3), of S h FsyncDirectory] by simp
    then show ?thesis using err by (simp add: keeps_def versions_def)
  next
    case (ok a h1)
    then have "keeps S h h1"
      using keeps_lift [where m = sys_touch, OF keeps_sys(3), of S h FsyncDirectory] by simp
    moreover obtain q where "sys_sync_dir h1 = (q, h')" "is_ok r = is_ok q"
      using ok(2) by (cases "sys_sync_dir h1"; cases "fst (sys_sync_dir h1)") (auto simp: lift_sys_def)
    ultimately show ?thesis
      using d [of h1 q h'] by (simp add: keeps_def versions_def)
  qed
qed

lemma temp_name_neq: "temp_name S pid c \<noteq> S"
proof
  assume "temp_name S pid c = S"
  then have "length (temp_name S pid c) = length S" by simp
  then show False by (simp add: temp_name_def)
qed

lemma create_temp_spec:
  "create_temp n S h = (r, h') \<Longrightarrow>
     keeps S h h' \<and> (\<forall>t. r = Inr t \<longrightarrow> t \<noteq> S \<and> h_files h' t = Some (Regular [] False))"
proof (induction n arbitrary: h)
  case (Suc n)
  let ?t = "temp_name S (h_pid h) (h_temp_counter h)"
  let ?h = "h\<lparr>h_temp_counter := h_temp_counter h + 1\<rparr>"
  have k0: "keeps S h ?h" by (simp add: keeps_def)
  obtain q h1 where q: "sys_create_new ?t ?h = (q, h1)" by fastforce
  have k1: "keeps S h h1"
    using keeps_trans [OF k0] keeps_sys(5) [of ?t S ?h] temp_name_neq q
    by simp
  show ?case
  proof (cases q)
    case (Inr u)
    then show ?thesis
      using Suc.prems q k1 create_new_ok [of ?t ?h h1] by (auto simp: temp_name_neq)
  next
    case (Inl e)
    then show ?thesis
      using Suc.prems q k1 Suc.IH [of h1] keeps_trans [OF k1] by (auto split: if_splits)
  qed
qed auto

lemma keeps_persist:
  assumes "keeps S h h'"
  shows "h_locked h' = h_locked h \<and> versions h' S \<subseteq> insert v (versions h S)"
  using assms by (auto simp: keeps_def versions_def)

lemma persist_tail:
  assumes "io_then (lift_sys Replace (atomic_replace t S)) (\<lambda>_. sync_parent_directory) g = (r, h')"
    and "t \<noteq> S" "h_files g t = Some node" "keeps S h g"
  shows "h_locked h' = h_locked h \<and> versions h' S \<subseteq> insert (Some node) (versions h S) \<and>
    (is_ok r \<longrightarrow> versions h' S = {Some node})"
  using assms(1)
proof (cases rule: io_then_cases)
  case (err e)
  then obtain e' where "sys_rename t S g = (Inl e', h')"
    by (auto simp: lift_sys_def atomic_replace_def result_simps split: prod.splits)
  then have "keeps S h h'"
    using rename_err keeps_trans [OF assms(4)] by blast
  then show ?thesis using err keeps_persist by auto
next
  case (ok u g')
  have "h_files g' S = Some node" "versions g' S = insert (Some node) (versions g S)"
    "h_locked g' = h_locked g"
    using rename_ok [OF _ assms(3, 2)] ok(1) by (auto simp: lift_sys_Inr atomic_replace_def)
  then show ?thesis
    using sync_dir [OF ok(2), of S] assms(4) keeps_versions [OF assms(4)]
    by (auto simp: keeps_def)
qed

lemma persist_into_spec:
  assumes "persist_into t S nxt h = (r, h')" "t \<noteq> S" "h_files h t = Some (Regular [] b)"
  shows "h_locked h' = h_locked h \<and>
    versions h' S \<subseteq> insert (Some (Regular (sequence_text nxt) True)) (versions h S) \<and>
    (is_ok r \<longrightarrow> versions h' S = {Some (Regular (sequence_text nxt) True)})"
proof -
  have restrict: "keeps N g g'" if "restrict_file_permissions g = (q, g')" for N g g' q
    using keeps_restrict [of N g] that by simp
  have wr: "keeps S g g'" if "lift_sys f (sys_write t bs) g = (q, g')" for f bs g g' q
    using keeps_lift [where m = "sys_write t bs", OF keeps_sys(6) [OF assms(2)], of g f] that by simp
  have fs: "keeps S g g'" if "lift_sys f (sys_fsync t) g = (q, g')" for f g g' q
    using keeps_lift [where m = "sys_fsync t", OF keeps_sys(7) [OF assms(2)], of g f] that by simp
  from assms(1) [unfolded persist_into_def] show ?thesis
  proof (cases rule: io_then_cases)
    case (err e)
    then show ?thesis using keeps_persist [OF restrict [OF err(1)]] by simp
  next
    case (ok u1 h1)
    have k1: "keeps S h h1" "h_files h1 t = Some (Regular [] b)"
      using restrict [OF ok(1)] assms(3) by (auto simp: keeps_def)
    from ok(2) show ?thesis
    proof (cases rule: io_then_cases)
      case (err e)
      then show ?thesis
        using keeps_persist [OF keeps_trans [OF k1(1) wr [OF err(1)]]] err(2) by simp
    next
      case (ok u2 h2)
      have k2: "keeps S h h2" "h_files h2 t = Some (Regular (sequence_text nxt) False)"
        using keeps_trans [OF k1(1) wr [OF ok(1)]] ok(1) write_ok [OF _ k1(2)]
        by (auto simp: lift_sys_Inr)
      from ok(2) show ?thesis
      proof (cases rule: io_then_cases)
        case (err e)
        then show ?thesis
          using keeps_persist [OF keeps_trans [OF k2(1) fs [OF err(1)]]] err(2) by simp
      next
        case (ok u3 h3)
        have k3: "keeps S h h3" "h_files h3 t = Some (Regular (sequence_text nxt) True)"
          using keeps_trans [OF k2(1) fs [OF ok(1)]] ok(1) fsync_ok [OF _ k2(2)]
          by (auto simp: lift_sys_Inr)
        from ok(2) show ?thesis
          by (rule persist_tail) (use k3 assms(2) in auto)
      qed
    qed
  qed
qed

lemma persist_spec:
  assumes "persist_sequence_state S nxt h = (r, h')"
  shows "h_locked h' = h_locked h \<and>
    versions h' S \<subseteq> insert (Some (Regular (sequence_text nxt) True)) (versions h S) \<and>
    (is_ok r \<longrightarrow> versions h' S = {Some (Regular (sequence_text nxt) True)})"
  using assms [unfolded persist_sequence_state_def]
proof (cases rule: io_then_cases)
  case (err e)
  then have "keeps S h h'" using create_temp_spec by blast
  then show ?thesis using keeps_persist err by auto
next
  case (ok t h1)
  have c: "keeps S h h1" "t \<noteq> S" "h_files h1 t = Some (Regular [] False)"
    using create_temp_spec [OF ok(1)] by auto
  obtain q h2 where q: "persist_into t S nxt h1 = (q, h2)" by fastforce
  have spec: "h_locked h2 = h_locked h \<and>
      versions h2 S \<subseteq> insert (Some (Regular (sequence_text nxt) True)) (versions h S) \<and>
      (is_ok q \<longrightarrow> versions h2 S = {Some (Regular (sequence_text nxt) True)})"
    using persist_into_spec [OF q c(2, 3)] c(1) by (simp add: keeps_def versions_def)
  have "keeps S h2 (snd (sys_unlink t h2))"
    using c(2) by (rule keeps_sys)
  then show ?thesis
    using ok(2) q spec by (cases q) (auto simp: keeps_def versions_def)
qed

lemma open_lock_keeps:
  assumes "open_sequence_lock (companion_lock_path S) h = (r, h')"
  shows "keeps S h h'"
proof -
  let ?l = "companion_lock_path S"
  have l: "?l \<noteq> S" by (simp add: companion_lock_path_def)
  have tail: "keeps S g (snd (io_then (lift_sys OpenLock (sys_open_create ?l)) (\<lambda>_.
      io_then (lift_sys InspectLock (sys_metadata ?l)) (\<lambda>node.
      case node of Regular _ _ \<Rightarrow> restrict_file_permissions | _ \<Rightarrow> io_fail LockNotRegular)) g))" for g
    by (intro keeps_io_then keeps_lift keeps_sys l)
      (auto simp: io_fail_def keeps_restrict split: fs_node.split)
  obtain q g where q: "sys_metadata ?l h = (q, g)" by fastforce
  then have "keeps S h g" using keeps_sys(1) [of S h ?l] by simp
  then show ?thesis
    using assms q tail [of g] keeps_trans
    by (auto simp: open_sequence_lock_def split: sum.splits fs_node.splits)
qed

lemma try_lock_cases:
  assumes "try_lock l h = (r, h')"
  shows "(r = Inr () \<and> l \<notin> h_locked h \<and> h_locked h' = insert l (h_locked h) \<or>
      \<not> is_ok r \<and> h_locked h' = h_locked h) \<and>
    h_files h' = h_files h \<and> h_history h' = h_history h"
  using assms
  by (auto simp: try_lock_def io_then_def lift_sys_def sys_touch_def with_fault_def
      split: list.splits option.splits if_splits)

lemma parse_sequence_text_show:
  "parse_sequence_text (sequence_text m) = (if m = 0 then Inl ZeroReserved else Inr m)"
proof -
  have d: "list_all is_digit (show_u64 m)"
    by (simp add: show_u64_def show_nat_digits)
  have "list_all (\<lambda>c. code c < 128) (show_u64 m @ [CHR 0x0A])"
    using d by (auto simp: list_all_iff is_digit_def code_def)
  then have t: "is_text (show_u64 m @ [CHR 0x0A])"
    by (rule is_text_ascii)
  have b: "sequence_text m = as_bytes (show_u64 m @ [CHR 0x0A])"
    by (simp add: sequence_text_def as_bytes_def byte_of_char_def)
  have "show_u64 m \<noteq> []" by (simp add: show_u64_def)
  then show ?thesis
    using d by (simp add: parse_sequence_text_def b from_utf8_as_bytes [OF t] strip_suffix_char_def)
qed

lemma metadata_cases:
  assumes "sys_metadata S h = (r, h')"
  shows "keeps S h h' \<and> (\<forall>node. r = Inr node \<longrightarrow> h_files h S = Some node) \<and>
    (\<forall>e. r = Inl e \<and> io_kind e = NotFound \<longrightarrow> h_files h S = None)"
  using assms
  by (auto simp: sys_metadata_def with_fault_def keeps_def split: list.splits option.splits if_splits)

lemma read_ok:
  assumes "sys_read S g = (Inr data, g')"
  shows "\<exists>b. h_files g S = Some (Regular data b)"
proof -
  obtain sc where c: "(case h_files (g\<lparr>h_script := sc\<rparr>) S of
      None \<Rightarrow> (Inl not_found, g\<lparr>h_script := sc\<rparr>)
    | Some (Regular data _) \<Rightarrow> (Inr data, g\<lparr>h_script := sc\<rparr>)
    | Some _ \<Rightarrow> (Inl (io_error_new OtherKind ''not a regular file''), g\<lparr>h_script := sc\<rparr>)) = (Inr data, g')"
    using with_fault_Inr [OF assms [unfolded sys_read_def]] by blast
  show ?thesis
  proof (cases "h_files g S")
    case (Some node)
    then show ?thesis using c by (cases node) auto
  qed (use c in simp)
qed

lemma read_state_spec:
  assumes "read_sequence_state S len h = (r, h')"
  shows "keeps S h h' \<and> (\<forall>v. r = Inr v \<longrightarrow>
    (\<exists>data b. h_files h S = Some (Regular data b) \<and> parse_sequence_text data = Inr v))"
proof -
  have k: "keeps S g (snd (io_then (lift_sys OpenState sys_touch) (\<lambda>_. restrict_file_permissions) g))" for g
    by (intro keeps_io_then keeps_lift keeps_sys keeps_restrict)
  have k': "keeps S g (snd (lift_sys ReadState (sys_read S) g))" for g
    by (intro keeps_lift keeps_sys)
  have all: "keeps S h (snd (read_sequence_state S len h))"
    by (auto simp: read_sequence_state_def io_fail_def
        intro!: keeps_io_then keeps_lift keeps_sys keeps_restrict)
  show ?thesis
  proof (intro conjI allI impI)
    show "keeps S h h'" using all assms by simp
    fix v assume "r = Inr v"
    then obtain h1 h2 data where "io_then (lift_sys OpenState sys_touch) (\<lambda>_. restrict_file_permissions) h
        = (Inr (), h1)" "sys_read S h1 = (Inr data, h2)" "parse_sequence_text data = Inr v"
      using assms
      by (auto simp: read_sequence_state_def io_fail_def io_then_def lift_sys_Inr
          split: if_splits prod.splits sum.splits)
    then show "\<exists>data b. h_files h S = Some (Regular data b) \<and> parse_sequence_text data = Inr v"
      using read_ok [of S h1 data h2] k [of h] by (auto simp: keeps_def)
  qed
qed

lemma load_or_init_spec:
  assumes "load_or_init S initial h = (r, h')"
  shows "h_locked h' = h_locked h \<and>
    (None \<in> versions h S \<or>
     keeps S h h' \<and> (\<forall>v. r = Inr v \<longrightarrow>
       (\<exists>data b. Some (Regular data b) \<in> versions h S \<and> parse_sequence_text data = Inr v)))"
proof -
  obtain q g where q: "sys_metadata S h = (q, g)" by fastforce
  have m: "keeps S h g" "\<And>e. q = Inl e \<Longrightarrow> io_kind e = NotFound \<Longrightarrow> h_files h S = None"
    using metadata_cases [OF q] by auto
  consider data b where "q = Inr (Regular data b)" | "q = Inr SymlinkNode" | "q = Inr DirNode"
    | e where "q = Inl e" "io_kind e = NotFound" | e where "q = Inl e" "io_kind e \<noteq> NotFound"
    by (metis fs_node.exhaust sum.exhaust)
  then show ?thesis
  proof cases
    case 1
    then have rd: "read_sequence_state S (length data) g = (r, h')"
      using assms q by (simp add: load_or_init_def)
    have k: "keeps S h h'"
      using read_state_spec [OF rd] keeps_trans [OF m(1)] by blast
    have "\<exists>data b. Some (Regular data b) \<in> versions h S \<and> parse_sequence_text data = Inr v"
      if rv: "r = Inr v" for v
    proof -
      obtain data b where "h_files g S = Some (Regular data b)" "parse_sequence_text data = Inr v"
        using read_state_spec [OF rd] rv by blast
      then show ?thesis using m(1) by (auto simp: keeps_def versions_def)
    qed
    then show ?thesis using k by (simp add: keeps_def)
  next
    case 4
    then have "io_then (persist_sequence_state S (max initial 1)) (\<lambda>_. io_return (max initial 1)) g = (r, h')"
      using assms q by (simp add: load_or_init_def)
    then obtain p where "persist_sequence_state S (max initial 1) g = (p, h')"
      by (cases rule: io_then_cases) (auto simp: io_return_def)
    then show ?thesis
      using persist_spec [of S "max initial 1" g p h'] m 4 by (auto simp: keeps_def versions_def)
  qed (use assms q m(1) in \<open>auto simp: load_or_init_def keeps_def\<close>)
qed

lemma open_spec:
  assumes "open_with_start S initial h = (r, h')"
  shows "(companion_lock_path S \<in> h_locked h \<longrightarrow> \<not> is_ok r \<and> keeps S h h') \<and>
    (\<forall>d. r = Inr d \<longrightarrow> ds_state_path d = S \<and> companion_lock_path S \<in> h_locked h') \<and>
    (None \<in> versions h S \<or>
      versions h' S = versions h S \<and>
      (\<forall>d. r = Inr d \<longrightarrow> (\<exists>data b. Some (Regular data b) \<in> versions h S \<and>
         parse_sequence_text data = Inr (ds_next d))))"
proof -
  let ?l = "companion_lock_path S"
  from assms [unfolded open_with_start_def Let_def] show ?thesis
  proof (cases rule: io_then_cases)
    case (err e)
    then have k: "keeps S h h'" using open_lock_keeps by blast
    show ?thesis using k keeps_versions [OF k] err by simp
  next
    case (ok u1 h1)
    have k1: "keeps S h h1" using open_lock_keeps [OF ok(1)] .
    from ok(2) show ?thesis
    proof (cases rule: io_then_cases)
      case (err e)
      then have k: "keeps S h h'"
        using try_lock_cases [OF err(1)] k1 by (auto simp: keeps_def)
      show ?thesis using k keeps_versions [OF k] err by simp
    next
      case (ok u2 h2)
      have t: "?l \<notin> h_locked h" "?l \<in> h_locked h2" "versions h2 S = versions h S"
        "h_files h2 S = h_files h S" "h_history h2 S = h_history h S"
        using try_lock_cases [OF ok(1)] k1 by (auto simp: keeps_def versions_def)
      obtain q g where q: "load_or_init S initial h2 = (q, g)" by fastforce
      have l: "h_locked g = h_locked h2"
        "None \<in> versions h S \<or> versions g S = versions h S \<and>
          (\<forall>v. q = Inr v \<longrightarrow>
            (\<exists>data b. Some (Regular data b) \<in> versions h S \<and> parse_sequence_text data = Inr v))"
        using load_or_init_spec [OF q] t(3) keeps_versions by auto
      have v: "versions (unlock ?l g) S = versions g S"
        by (simp add: unlock_def versions_def)
      show ?thesis
        using ok(2) q t l v by (cases q) auto
    qed
  qed
qed

definition seq_inv :: "string \<Rightarrow> sequence_system \<Rightarrow> bool" where
  "seq_inv S s = (case s of (h, ds, issued) \<Rightarrow>
     sorted_wrt (<) issued \<and>
     (ds = [] \<or> (\<exists>d. ds = [d] \<and> ds_state_path d = S \<and> companion_lock_path S \<in> h_locked h \<and>
        (\<forall>n \<in> set issued. n < ds_next d))) \<and>
     (issued \<noteq> [] \<longrightarrow> (\<forall>v \<in> versions h S.
        \<exists>m. v = Some (Regular (sequence_text m) True) \<and> (\<forall>n \<in> set issued. n < m))))"

lemma inv_open_ok:
  assumes inv: "seq_inv S (h, ds, issued)"
    and op: "open_with_start S initial (h\<lparr>h_script := script\<rparr>) = (Inr d, h')"
  shows "seq_inv S (h', d # ds, issued)"
proof -
  let ?g = "h\<lparr>h_script := script\<rparr>"
  have vg: "versions ?g S = versions h S" by (simp add: versions_def)
  note sp = open_spec [OF op, unfolded vg]
  have ds: "ds = []" "ds_state_path d = S" "companion_lock_path S \<in> h_locked h'"
    using sp inv by (auto simp: seq_inv_def)
  show ?thesis
  proof (cases "issued = []")
    case True
    then show ?thesis using ds inv by (simp add: seq_inv_def)
  next
    case False
    then have all: "\<exists>m. v = Some (Regular (sequence_text m) True) \<and> (\<forall>n \<in> set issued. n < m)"
      if "v \<in> versions h S" for v
      using inv that by (auto simp: seq_inv_def)
    then have "None \<notin> versions h S" by blast
    then obtain data b where db: "versions h' S = versions h S" "Some (Regular data b) \<in> versions h S"
      "parse_sequence_text data = Inr (ds_next d)"
      using sp by auto
    then obtain m where "data = sequence_text m" "\<forall>n \<in> set issued. n < m"
      using all by blast
    then have "\<forall>n \<in> set issued. n < ds_next d"
      using db(3) by (auto simp: parse_sequence_text_show split: if_splits)
    then show ?thesis using ds inv db(1) by (simp add: seq_inv_def)
  qed
qed

lemma inv_open_err:
  assumes inv: "seq_inv S (h, ds, issued)"
    and op: "open_with_start S initial (h\<lparr>h_script := script\<rparr>) = (Inl e, h')"
  shows "seq_inv S (h', ds, issued)"
proof -
  let ?g = "h\<lparr>h_script := script\<rparr>"
  have vg: "versions ?g S = versions h S" "h_locked ?g = h_locked h" by (simp_all add: versions_def)
  note sp = open_spec [OF op, unfolded vg]
  have "versions h' S = versions h S" if "issued \<noteq> []"
    using inv that sp by (fastforce simp: seq_inv_def)
  moreover have "h_locked h' = h_locked h" if "ds \<noteq> []"
    using inv that sp by (auto simp: seq_inv_def keeps_def)
  ultimately show ?thesis using inv by (auto simp: seq_inv_def)
qed

lemma inv_next:
  assumes inv: "seq_inv S (h, ds @ d # es, issued)"
    and nx: "next_blocking (d, h\<lparr>h_script := script\<rparr>) = (r, d', h')"
  shows "seq_inv S (h', ds @ d' # es, issued @ (case r of Inl _ \<Rightarrow> [] | Inr n \<Rightarrow> [n]))"
proof -
  let ?g = "h\<lparr>h_script := script\<rparr>"
  have d: "ds = []" "es = []" "ds_state_path d = S" "companion_lock_path S \<in> h_locked h"
    "\<And>n. n \<in> set issued \<Longrightarrow> n < ds_next d"
    using inv by (auto simp: seq_inv_def append_eq_Cons_conv)
  show ?thesis
  proof (cases "checked_add (ds_next d) 1")
    case None
    then show ?thesis
      using nx inv by (auto simp: next_blocking_def seq_inv_def versions_def)
  next
    case (Some following)
    then have lt: "ds_next d < following" by (rule checked_add_one)
    obtain q g where q: "persist_sequence_state S following ?g = (q, g)" by fastforce
    have sp: "h_locked g = h_locked h"
      "versions g S \<subseteq> insert (Some (Regular (sequence_text following) True)) (versions h S)"
      "is_ok q \<Longrightarrow> versions g S = {Some (Regular (sequence_text following) True)}"
      using persist_spec [OF q] by (auto simp: versions_def)
    have below: "n < following" if "n \<in> set issued" for n
      using d(5) [OF that] lt by (rule less_trans)
    show ?thesis
    proof (cases q)
      case (Inl e)
      then have "r = Inl e" "d' = d" "h' = g"
        using nx Some q d(3) by (simp_all add: next_blocking_def)
      moreover have "\<exists>m. v = Some (Regular (sequence_text m) True) \<and> (\<forall>n \<in> set issued. n < m)"
        if "issued \<noteq> []" "v \<in> versions g S" for v
      proof (cases "v \<in> versions h S")
        case True
        then show ?thesis using inv that(1) unfolding seq_inv_def by simp
      next
        case False
        then show ?thesis using sp(2) that(2) below by blast
      qed
      moreover have "sorted_wrt (<) issued" using inv by (simp add: seq_inv_def)
      ultimately show ?thesis
        using d sp(1) by (simp add: seq_inv_def)
    next
      case (Inr u)
      then have "r = Inr (ds_next d)" "d' = d\<lparr>ds_next := following\<rparr>" "h' = g"
        using nx Some q d(3) by (simp_all add: next_blocking_def)
      moreover have "versions g S = {Some (Regular (sequence_text following) True)}"
        using sp(3) Inr by simp
      moreover have "sorted_wrt (<) (issued @ [ds_next d])"
        using inv d(5) by (simp add: seq_inv_def sorted_wrt_append)
      moreover have "\<forall>n \<in> set (issued @ [ds_next d]). n < following"
        using below lt by simp
      ultimately show ?thesis
        using d(1-4) sp(1) by (auto simp: seq_inv_def)
    qed
  qed
qed

lemma inv_crash:
  assumes "seq_inv S (h, ds, issued)" "crashed h h'"
  shows "seq_inv S (h', [], issued)"
proof -
  obtain v where "v \<in> versions h S" "survives v (h_files h' S)" "h_history h' S = []"
    using assms(2) by (auto simp: crashed_def)
  then show ?thesis
    using assms(1) by (fastforce simp: seq_inv_def versions_def)
qed

lemma inv_step: "seq_step S s t \<Longrightarrow> seq_inv S s \<Longrightarrow> seq_inv S t"
proof (induction rule: seq_step.induct)
  case (next_ok d h script n d' h' ds es issued)
  then show ?case using inv_next [OF next_ok(2, 1)] by simp
next
  case (next_err d h script e d' h' ds es issued)
  then show ?case using inv_next [OF next_err(2, 1)] by simp
next
  case (close h ds d es issued)
  then show ?case
    by (auto simp: seq_inv_def unlock_def versions_def append_eq_Cons_conv)
qed (auto intro: inv_open_ok inv_open_err inv_crash)

lemma inv_reachable: "seq_reachable S h0 s \<Longrightarrow> seq_inv S s"
proof (induction rule: seq_reachable.induct)
  case start
  then show ?case by (simp add: seq_inv_def)
next
  case (step s t)
  then show ?case using inv_step by blast
qed

section \<open>Restarting\<close>

lemma no_script_calls:
  assumes "h_script h = []"
  shows "sys_metadata name h = (case h_files h name of None \<Rightarrow> (Inl not_found, h) | Some node \<Rightarrow> (Inr node, h))"
    and "sys_touch h = (Inr (), h)"
    and "h_files h name = Some (Regular data b) \<Longrightarrow> sys_read name h = (Inr data, h)"
  using assms by (simp_all add: sys_metadata_def sys_touch_def sys_read_def with_fault_def)

lemma no_script_restrict: "h_script h = [] \<Longrightarrow> restrict_file_permissions h = (Inr (), h)"
  by (simp add: restrict_file_permissions_def io_then_def lift_sys_def no_script_calls)

lemma open_lock_no_faults:
  assumes "h_script h = []" "h_files h l = None \<or> (\<exists>data b. h_files h l = Some (Regular data b))"
  shows "\<exists>h'. open_sequence_lock l h = (Inr (), h') \<and> h_script h' = []"
  using assms
  by (auto simp: open_sequence_lock_def io_then_def lift_sys_def no_script_calls no_script_restrict
      sys_open_create_def with_fault_def set_entry_def)

lemma length_sequence_text: "length (sequence_text m) \<le> 21" "sequence_text m \<noteq> []"
  using length_show_u64 [of m] by (simp_all add: sequence_text_def)

lemma load_no_faults:
  assumes "h_script h = []" "h_files h S = Some (Regular (sequence_text m) True)" "m \<noteq> 0"
  shows "load_or_init S initial h = (Inr m, h)"
  using assms length_sequence_text [of m]
  by (simp add: load_or_init_def no_script_calls read_sequence_state_def io_then_def lift_sys_def
      no_script_restrict parse_sequence_text_show MAX_SEQUENCE_STATE_BYTES_def)

section \<open>Properties\<close>

text \<open>C2: sequence numbers of the durable allocator are never reused. In every state that
  opens, allocations, closes and crashes can reach, with any system call failing at any
  time, the numbers handed out so far over all runs are strictly increasing, and at most one
  allocator is open.\<close>

theorem sequence_never_reused:
  assumes "seq_reachable path h0 (h, ds, issued)"
  shows "sorted_wrt (<) issued \<and> length ds \<le> 1"
  using inv_reachable [OF assms] by (auto simp: seq_inv_def)

definition fresh_host :: host where
  "fresh_host = \<lparr>h_files = (\<lambda>_. None), h_history = (\<lambda>_. []), h_locked = {}, h_script = [],
     h_temp_counter = 0, h_pid = 7\<rparr>"

lemma fresh_open:
  "fst (open_with_start ''s'' 5 (fresh_host\<lparr>h_script := []\<rparr>)) =
    Inr \<lparr>ds_state_path = ''s'', ds_next = 5\<rparr>"
  by code_simp

lemma fresh_next:
  "fst (next_blocking (\<lparr>ds_state_path = ''s'', ds_next = 5\<rparr>,
      (snd (open_with_start ''s'' 5 (fresh_host\<lparr>h_script := []\<rparr>)))\<lparr>h_script := []\<rparr>)) = Inr 5"
  by code_simp

theorem sequence_never_reused_witness:
  "\<exists>h ds. seq_reachable ''s'' fresh_host (h, ds, [5]) \<and> sorted_wrt (<) [5::u64] \<and> length ds \<le> 1"
proof -
  let ?d = "\<lparr>ds_state_path = ''s'', ds_next = 5\<rparr>"
  obtain h' where op: "open_with_start ''s'' 5 (fresh_host\<lparr>h_script := []\<rparr>) = (Inr ?d, h')"
    using fresh_open by (metis prod.collapse)
  then obtain d' h'' where nx: "next_blocking (?d, h'\<lparr>h_script := []\<rparr>) = (Inr 5, d', h'')"
    using fresh_next by (metis prod.collapse snd_conv)
  have "seq_reachable ''s'' fresh_host (fresh_host, [], [])"
    by (rule start) (simp add: fresh_host_def)
  then have "seq_reachable ''s'' fresh_host (h', [?d], [])"
    by (rule step) (rule open_ok [OF op])
  then have "seq_reachable ''s'' fresh_host (h'', [d'], [5])"
    by (rule step) (use next_ok [OF nx, of "''s''" "[]" "[]" "[]"] in simp)
  then show ?thesis using sequence_never_reused by blast
qed

text \<open>C19: restarting resumes where the last allocation left off. After a successful allocation
  of \<open>n\<close>, whatever a crash leaves of the directory, opening the allocator again without I/O
  errors succeeds (unless its lock file was replaced by something else) and continues with
  \<open>n + 1\<close>, whatever the clock says.\<close>

theorem restart_resumes:
  assumes "next_blocking (d, h) = (Inr n, d', h')" "crashed h' g" "h_script g = []"
    and "h_files g (companion_lock_path (ds_state_path d)) = None \<or>
      (\<exists>data b. h_files g (companion_lock_path (ds_state_path d)) = Some (Regular data b))"
  shows "\<exists>e g'. open_with_start (ds_state_path d) initial g = (Inr e, g') \<and>
    ds_next e = n + 1 \<and> unat (ds_next e) = unat n + 1"
proof -
  let ?S = "ds_state_path d"
  obtain f where f: "checked_add (ds_next d) 1 = Some f"
    using assms(1) by (cases "checked_add (ds_next d) 1") (auto simp: next_blocking_def)
  obtain q g0 where q: "persist_sequence_state ?S f h = (q, g0)" by fastforce
  have n: "n = ds_next d" and p: "persist_sequence_state ?S f h = (Inr (), h')"
    using assms(1) f q by (cases q; simp add: next_blocking_def)+
  have c: "f = n + 1" "unat (n + 1) = unat n + 1"
    using f checked_add_unat [OF f] n by (auto simp: checked_add_Some)
  then have c3: "n + 1 \<noteq> 0" by auto
  note p = p [unfolded c(1)]
  have "versions h' ?S = {Some (Regular (sequence_text (n + 1)) True)}"
    using persist_spec [OF p] by simp
  moreover have "\<exists>v \<in> versions h' ?S. survives v (h_files g ?S)"
    using assms(2) unfolding crashed_def by blast
  ultimately have f': "h_files g ?S = Some (Regular (sequence_text (n + 1)) True)"
    by simp
  have lk: "h_locked g = {}"
    using assms(2) by (simp add: crashed_def)
  obtain g1 where g1: "open_sequence_lock (companion_lock_path ?S) g = (Inr (), g1)" "h_script g1 = []"
    using open_lock_no_faults [OF assms(3, 4)] by blast
  have k: "h_files g1 ?S = h_files g ?S" "h_locked g1 = {}"
    using open_lock_keeps [OF g1(1)] lk by (auto simp: keeps_def)
  let ?g2 = "g1\<lparr>h_locked := {companion_lock_path ?S}\<rparr>"
  have "load_or_init ?S initial ?g2 = (Inr (n + 1), ?g2)"
    using g1(2) k f' c3 by (intro load_no_faults) auto
  moreover have "try_lock (companion_lock_path ?S) g1 = (Inr (), ?g2)"
    using g1(2) k(2) by (simp add: try_lock_def io_then_def lift_sys_def no_script_calls)
  ultimately show ?thesis
    using g1(1) c(2) by (simp add: open_with_start_def io_then_def Let_def)
qed

definition settled :: "host \<Rightarrow> host" where
  "settled h = h\<lparr>h_files := (\<lambda>n. case h_files h n of
       Some (Regular data _) \<Rightarrow> Some (Regular data True) | v \<Rightarrow> v),
     h_history := (\<lambda>_. []), h_locked := {}, h_script := []\<rparr>"

lemma crashed_settled: "crashed h (settled h)"
  unfolding crashed_def
proof (intro conjI allI)
  fix name
  have "survives (h_files h name) (h_files (settled h) name)"
    by (simp add: settled_def split: option.split fs_node.split)
  then show "\<exists>v \<in> versions h name. survives v (h_files (settled h) name)"
    by (auto simp: versions_def)
qed (simp_all add: settled_def)

lemma fresh_next_lock:
  "case h_files (snd (snd (next_blocking (\<lparr>ds_state_path = ''s'', ds_next = 5\<rparr>,
      (snd (open_with_start ''s'' 5 (fresh_host\<lparr>h_script := []\<rparr>)))\<lparr>h_script := []\<rparr>)))) ''s.lock'' of
     Some (Regular _ _) \<Rightarrow> True | _ \<Rightarrow> False"
  by code_simp

theorem restart_resumes_witness:
  "\<exists>d' h' e g'. next_blocking (\<lparr>ds_state_path = ''s'', ds_next = 5\<rparr>,
      (snd (open_with_start ''s'' 5 (fresh_host\<lparr>h_script := []\<rparr>)))\<lparr>h_script := []\<rparr>) = (Inr 5, d', h') \<and>
    crashed h' (settled h') \<and> open_with_start ''s'' 9 (settled h') = (Inr e, g') \<and> ds_next e = 6"
proof -
  obtain d' h' where nx: "next_blocking (\<lparr>ds_state_path = ''s'', ds_next = 5\<rparr>,
      (snd (open_with_start ''s'' 5 (fresh_host\<lparr>h_script := []\<rparr>)))\<lparr>h_script := []\<rparr>) = (Inr 5, d', h')"
    using fresh_next by (metis prod.collapse)
  have "case h_files h' ''s.lock'' of Some (Regular _ _) \<Rightarrow> True | _ \<Rightarrow> False"
    using fresh_next_lock unfolding nx by simp
  then have "\<exists>data b. h_files (settled h') ''s.lock'' = Some (Regular data b)"
    by (auto simp: settled_def split: option.splits fs_node.splits)
  moreover have sc: "h_script (settled h') = []" by (simp add: settled_def)
  ultimately obtain e g' where "open_with_start ''s'' 9 (settled h') = (Inr e, g')" "ds_next e = 6"
    using restart_resumes [OF nx crashed_settled sc, of 9] by (auto simp: companion_lock_path_def)
  then show ?thesis using nx crashed_settled by blast
qed

text \<open>The sequence numbers of one run of the in-memory allocator are strictly increasing
  and never zero, also when some calls fail because the counter is exhausted.\<close>

lemma ephemeral_increasing:
  "sorted_wrt (<) (fst (allocate ephemeral_next k (ephemeral start))) \<and>
   0 \<notin> set (fst (allocate ephemeral_next k (ephemeral start)))"
proof -
  obtain ns t where a: "allocate ephemeral_next k (ephemeral start) = (ns, t)" by fastforce
  have "0 < ephemeral start" by (auto simp: ephemeral_def less_max_iff_disj)
  then show ?thesis
    using eph.allocate_bound [OF a] a by force
qed

end
