(* ===== verification/Agent_Export.thy ===== *)
theory Agent_Export
  imports Sequence_State
begin

text \<open>
  The exporters and pipelines of the agent (\<open>skid-monitor-agent/src/exporters.rs\<close>,
  \<open>pipeline.rs\<close>, \<open>transport.rs\<close>, \<open>otlp_receiver.rs\<close>): the OTLP exporter with its retry loop
  and OAuth token cache, and the pipeline that hands a signal to every required exporter.

  The network, the clock, the environment and the JSON decoder of the token response are
  external; they are the fields of \<open>services\<close>, over an external state \<open>'x\<close>. \<open>r_log\<close> records
  the gRPC requests that were sent.
\<close>

section \<open>gRPC status and retries\<close>

datatype grpc_code =
    GOk | Cancelled | Unknown | InvalidArgument | DeadlineExceeded | GNotFound | GAlreadyExists
  | GPermissionDenied | ResourceExhausted | FailedPrecondition | Aborted | OutOfRange
  | Unimplemented | Internal | Unavailable | DataLoss | Unauthenticated

record status =
  st_code :: grpc_code
  st_message :: string

definition OTLP_MAX_ATTEMPTS :: nat where "OTLP_MAX_ATTEMPTS = 3"
definition OTLP_RETRY_BASE_DELAY_MS :: nat where "OTLP_RETRY_BASE_DELAY_MS = 100"
definition MAX_OAUTH_TOKEN_RESPONSE_BYTES :: nat where
  "MAX_OAUTH_TOKEN_RESPONSE_BYTES = 1024 * 1024"
definition MAX_OAUTH_TOKEN_LIFETIME_SECS :: u64 where
  "MAX_OAUTH_TOKEN_LIFETIME_SECS = 24 * 60 * 60"

datatype retry_decision = Retry | RefreshAuth | Stop

definition decide_retry :: "grpc_code \<Rightarrow> bool \<Rightarrow> bool \<Rightarrow> retry_decision" where
  "decide_retry c has_auth refreshed_auth =
     (if c \<in> {Unavailable, DeadlineExceeded, Unknown, ResourceExhausted, Aborted} then Retry
      else if c = Unauthenticated \<and> has_auth \<and> \<not> refreshed_auth then RefreshAuth
      else Stop)"

text \<open>Milliseconds; the multiplier is \<open>1 << min(attempts - 1, 2)\<close>.\<close>

definition retry_backoff :: "nat \<Rightarrow> nat" where
  "retry_backoff completed_attempts =
     OTLP_RETRY_BASE_DELAY_MS * 2 ^ (min (completed_attempts - 1) 2)"

section \<open>OAuth tokens\<close>

type_synonym instant = nat

record otlp_auth_config =
  oc_token_url :: string
  oc_client_id :: string
  oc_client_secret_env :: string
  oc_scope :: "string option"

record cached_token =
  ct_value :: string
  ct_refresh_at :: instant

record token_response =
  tr_access_token :: string
  tr_token_type :: "string option"
  tr_expires_in :: u64

record http_response =
  hr_status :: nat
  hr_content_length :: "u64 option"
  hr_chunks :: "(string + bytes) list"

record token_request =
  tq_url :: string
  tq_client_id :: string
  tq_secret :: string
  tq_form :: "(string \<times> string) list"

datatype token_error =
    SecretNotSet
  | SecretEmpty
  | RequestToken string
  | TokenHttpStatus nat
  | BodyTooLarge
  | BodySizeOverflow
  | ReadBody string
  | DecodeToken string
  | EmptyAccessToken
  | NonBearerToken
  | ZeroLifetime
  | LifetimeTooLong
  | DeadlineOverflow
  | TokenNotMetadata

record grpc_request =
  gq_signal :: signal
  gq_sequence :: u64
  gq_token :: "string option"

record 'x services =
  sv_now :: "'x \<Rightarrow> instant \<times> 'x"
  sv_env :: "string \<Rightarrow> string option"
  sv_post :: "token_request \<Rightarrow> 'x \<Rightarrow> (string + http_response) \<times> 'x"
  sv_decode_token :: "bytes \<Rightarrow> string + token_response"
  sv_metadata_ok :: "string \<Rightarrow> bool"
  sv_call :: "grpc_request \<Rightarrow> 'x \<Rightarrow> (status + unit) \<times> 'x"
  sv_sleep :: "nat \<Rightarrow> 'x \<Rightarrow> 'x"

record 'x run =
  r_cache :: "cached_token option"
  r_ext :: 'x
  r_log :: "grpc_request list"

definition NANOS_PER_SEC :: nat where "NANOS_PER_SEC = 1000000000"

text \<open>Seconds; the margin is clamped to 1..60.\<close>

definition refresh_after :: "u64 \<Rightarrow> u64" where
  "refresh_after expires_in_secs =
     (let margin = (let m = expires_in_secs div 5 in if m < 1 then 1 else if m > 60 then 60 else m)
      in sat_sub expires_in_secs margin)"

definition instant_checked_add :: "instant \<Rightarrow> u64 \<Rightarrow> instant option" where
  "instant_checked_add now secs =
     (let t = now + unat secs * NANOS_PER_SEC in
      if t div NANOS_PER_SEC < 2 ^ 63 then Some t else None)"

definition token_refresh_deadline :: "instant \<Rightarrow> u64 \<Rightarrow> token_error + instant" where
  "token_refresh_deadline now expires_in_secs =
     (if expires_in_secs = 0 then Inl ZeroLifetime
      else if expires_in_secs > MAX_OAUTH_TOKEN_LIFETIME_SECS then Inl LifetimeTooLong
      else ok_or DeadlineOverflow (instant_checked_add now (refresh_after expires_in_secs)))"

definition append_bounded_body :: "bytes \<Rightarrow> bytes \<Rightarrow> nat \<Rightarrow> token_error + bytes" where
  "append_bounded_body body chunk limit =
     (let next_len = length body + length chunk in
      if next_len \<ge> 2 ^ 64 then Inl BodySizeOverflow
      else if next_len > limit then Inl BodyTooLarge
      else Inr (body @ chunk))"

fun read_chunks :: "bytes \<Rightarrow> (string + bytes) list \<Rightarrow> token_error + bytes" where
  "read_chunks body [] = Inr body"
| "read_chunks body (Inl e # _) = Inl (ReadBody e)"
| "read_chunks body (Inr chunk # rest) =
     and_then (append_bounded_body body chunk MAX_OAUTH_TOKEN_RESPONSE_BYTES)
       (\<lambda>body. read_chunks body rest)"

definition read_bounded_token_response :: "http_response \<Rightarrow> token_error + bytes" where
  "read_bounded_token_response response =
     (if (case hr_content_length response of None \<Rightarrow> False
          | Some len \<Rightarrow> unat len > MAX_OAUTH_TOKEN_RESPONSE_BYTES)
      then Inl BodyTooLarge
      else read_chunks [] (hr_chunks response))"

definition http_success :: "nat \<Rightarrow> bool" where
  "http_success status \<longleftrightarrow> 200 \<le> status \<and> status < 300"

text \<open>The checks on a decoded token response, before it is cached.\<close>

definition accept_token :: "token_response \<Rightarrow> token_error + token_response" where
  "accept_token response =
     (if tr_access_token response = [] then Inl EmptyAccessToken
      else if (case tr_token_type response of None \<Rightarrow> False
               | Some kind \<Rightarrow> \<not> eq_ignore_ascii_case kind ''bearer'')
      then Inl NonBearerToken
      else Inr response)"

definition token_from_response ::
  "'x services \<Rightarrow> http_response \<Rightarrow> token_error + token_response"
where
  "token_from_response sv response =
     (if \<not> http_success (hr_status response) then Inl (TokenHttpStatus (hr_status response))
      else and_then (read_bounded_token_response response) (\<lambda>body.
           and_then (map_err DecodeToken (sv_decode_token sv body)) accept_token))"

definition token_form :: "otlp_auth_config \<Rightarrow> (string \<times> string) list" where
  "token_form config =
     (''grant_type'', ''client_credentials'')
       # (case oc_scope config of None \<Rightarrow> [] | Some scope \<Rightarrow> [(''scope'', scope)])"

definition client_secret :: "'x services \<Rightarrow> otlp_auth_config \<Rightarrow> token_error + string" where
  "client_secret sv config =
     (case sv_env sv (oc_client_secret_env config) of
        None \<Rightarrow> Inl SecretNotSet
      | Some secret \<Rightarrow> if secret = [] then Inl SecretEmpty else Inr secret)"

definition fetch_token ::
  "'x services \<Rightarrow> otlp_auth_config \<Rightarrow> string \<Rightarrow> 'x run \<Rightarrow> (token_error + string) \<times> 'x run"
where
  "fetch_token sv config secret r =
     (case sv_post sv \<lparr>tq_url = trim (oc_token_url config), tq_client_id = oc_client_id config,
                       tq_secret = secret, tq_form = token_form config\<rparr> (r_ext r) of
        (Inl e, x) \<Rightarrow> (Inl (RequestToken e), r\<lparr>r_ext := x\<rparr>)
      | (Inr response, x) \<Rightarrow>
          (case token_from_response sv response of
             Inl e \<Rightarrow> (Inl e, r\<lparr>r_ext := x\<rparr>)
           | Inr token \<Rightarrow>
               (case sv_now sv x of (now, x) \<Rightarrow>
                  (case token_refresh_deadline now (tr_expires_in token) of
                     Inl e \<Rightarrow> (Inl e, r\<lparr>r_ext := x\<rparr>)
                   | Inr refresh_at \<Rightarrow>
                       (Inr (tr_access_token token),
                        r\<lparr>r_cache := Some \<lparr>ct_value = tr_access_token token,
                                         ct_refresh_at = refresh_at\<rparr>,
                          r_ext := x\<rparr>)))))"

text \<open>The cached token is used while its refresh time is ahead; the clock is read only when
  there is a cached token.\<close>

definition access_token ::
  "'x services \<Rightarrow> otlp_auth_config \<Rightarrow> 'x run \<Rightarrow> (token_error + string) \<times> 'x run"
where
  "access_token sv config r =
     (case (case r_cache r of
              None \<Rightarrow> (None, r)
            | Some token \<Rightarrow>
                (case sv_now sv (r_ext r) of (now, x) \<Rightarrow>
                   (if ct_refresh_at token > now then Some (ct_value token) else None,
                    r\<lparr>r_ext := x\<rparr>))) of
        (Some value, r) \<Rightarrow> (Inr value, r)
      | (None, r) \<Rightarrow>
          (case client_secret sv config of
             Inl e \<Rightarrow> (Inl e, r)
           | Inr secret \<Rightarrow> fetch_token sv config secret r))"

definition invalidate :: "'x run \<Rightarrow> 'x run" where
  "invalidate r = r\<lparr>r_cache := None\<rparr>"

section \<open>The OTLP exporter\<close>

datatype attempt_error = Prepare token_error | Grpc status

datatype export_error =
    SequenceError seq_error
  | PrepareError token_error
  | ExportFailed string nat status

fun signal_kind_str :: "signal \<Rightarrow> string" where
  "signal_kind_str (Metrics _) = ''metrics''"
| "signal_kind_str (Traces _) = ''traces''"
| "signal_kind_str (Logs _) = ''logs''"

fun item_count :: "signal \<Rightarrow> nat" where
  "item_count (Metrics request) = metric_count request"
| "item_count (Traces request) = span_count request"
| "item_count (Logs request) = log_count request"

definition build_request ::
  "'x services \<Rightarrow> otlp_auth_config option \<Rightarrow> signal \<Rightarrow> u64 \<Rightarrow> 'x run \<Rightarrow>
    (token_error + grpc_request) \<times> 'x run"
where
  "build_request sv auth signal sequence r =
     (case auth of
        None \<Rightarrow> (Inr \<lparr>gq_signal = signal, gq_sequence = sequence, gq_token = None\<rparr>, r)
      | Some config \<Rightarrow>
          (case access_token sv config r of
             (Inl e, r) \<Rightarrow> (Inl e, r)
           | (Inr token, r) \<Rightarrow>
               if sv_metadata_ok sv (''Bearer '' @ token)
               then (Inr \<lparr>gq_signal = signal, gq_sequence = sequence, gq_token = Some token\<rparr>, r)
               else (Inl TokenNotMetadata, r)))"

definition export_attempt ::
  "'x services \<Rightarrow> otlp_auth_config option \<Rightarrow> signal \<Rightarrow> u64 \<Rightarrow> 'x run \<Rightarrow>
    (attempt_error + unit) \<times> 'x run"
where
  "export_attempt sv auth signal sequence r =
     (case build_request sv auth signal sequence r of
        (Inl e, r) \<Rightarrow> (Inl (Prepare e), r)
      | (Inr request, r) \<Rightarrow>
          (case sv_call sv request (r_ext r) of
             (result, x) \<Rightarrow>
               (map_err Grpc result, r\<lparr>r_ext := x, r_log := r_log r @ [request]\<rparr>)))"

text \<open>The loop over the attempts; \<open>None\<close> is the \<open>unreachable!\<close> after it.\<close>

fun export_loop ::
  "'x services \<Rightarrow> otlp_auth_config option \<Rightarrow> signal \<Rightarrow> u64 \<Rightarrow> nat list \<Rightarrow> bool \<Rightarrow> 'x run \<Rightarrow>
    ((export_error + unit) \<times> 'x run) option"
where
  "export_loop sv auth signal sequence [] refreshed r = None"
| "export_loop sv auth signal sequence (attempt # attempts) refreshed r =
     (case export_attempt sv auth signal sequence r of
        (Inr _, r) \<Rightarrow> Some (Inr (), r)
      | (Inl (Prepare e), r) \<Rightarrow> Some (Inl (PrepareError e), r)
      | (Inl (Grpc status), r) \<Rightarrow>
          let decision = decide_retry (st_code status) (auth \<noteq> None) refreshed in
          if attempt = OTLP_MAX_ATTEMPTS \<or> decision = Stop
          then Some (Inl (ExportFailed (signal_kind_str signal) attempt status), r)
          else
            let r = (if decision = RefreshAuth \<and> auth \<noteq> None then invalidate r else r);
                refreshed = (refreshed \<or> decision = RefreshAuth);
                r = r\<lparr>r_ext := sv_sleep sv (retry_backoff attempt) (r_ext r)\<rparr>
            in export_loop sv auth signal sequence attempts refreshed r)"

definition otlp_export ::
  "'x services \<Rightarrow> ('s \<Rightarrow> (seq_error + u64) \<times> 's) \<Rightarrow> otlp_auth_config option \<Rightarrow> signal \<Rightarrow>
    's \<Rightarrow> 'x run \<Rightarrow> ((export_error + unit) \<times> 's \<times> 'x run) option"
where
  "otlp_export sv next_sequence auth signal s r =
     (case next_sequence s of
        (Inl e, s) \<Rightarrow> Some (Inl (SequenceError e), s, r)
      | (Inr sequence, s) \<Rightarrow>
          map_option (\<lambda>(result, r). (result, s, r))
            (export_loop sv auth signal sequence [1..<Suc OTLP_MAX_ATTEMPTS] False r))"

section \<open>Exporters and pipelines\<close>

datatype runtime_exporter = SkidClient "string option" | Logging bool | Otlp nat

datatype send_error =
    NoTargetAddress
  | SerializeSignal io_error
  | TcpSend io_error

datatype exporter_error =
    MissingExporter
  | ClientError send_error
  | LogSerialize string
  | OtlpError export_error

record exporter_failure =
  xf_exporter :: string
  xf_error :: exporter_error

definition resolve_client_addr :: "(string \<Rightarrow> string option) \<Rightarrow> string option \<Rightarrow> string option" where
  "resolve_client_addr env configured =
     opt_filter (\<lambda>addr. trim addr \<noteq> [])
       (opt_or (opt_filter (\<lambda>addr. trim addr \<noteq> []) configured)
          (opt_or (env ''SKID_MONITOR_CLIENT_ADDR'') (env ''MONITOR_CAT_CLIENT_ADDR'')))"

definition normalize_endpoint :: "string \<Rightarrow> string" where
  "normalize_endpoint endpoint =
     (let endpoint = trim endpoint in
      if starts_with endpoint ''http://'' \<or> starts_with endpoint ''https://'' then endpoint
      else ''http://'' @ endpoint)"

record 'w effects =
  fx_to_vec :: "signal \<Rightarrow> string + bytes"
  fx_env :: "string \<Rightarrow> string option"
  fx_send_tcp :: "string \<Rightarrow> bytes \<Rightarrow> 'w \<Rightarrow> (io_error + unit) \<times> 'w"
  fx_log :: "string \<Rightarrow> string \<Rightarrow> nat \<Rightarrow> bytes option \<Rightarrow> 'w \<Rightarrow> 'w"
  fx_otlp :: "nat \<Rightarrow> signal \<Rightarrow> 'w \<Rightarrow> (export_error + unit) \<times> 'w"

definition send_to_client ::
  "'w effects \<Rightarrow> signal \<Rightarrow> string option \<Rightarrow> 'w \<Rightarrow> (send_error + unit) \<times> 'w"
where
  "send_to_client fx signal addr w =
     (case addr of
        None \<Rightarrow> (Inl NoTargetAddress, w)
      | Some addr \<Rightarrow>
          (case encode_signal_payload (fx_to_vec fx) signal of
             Inl e \<Rightarrow> (Inl (SerializeSignal e), w)
           | Inr payload \<Rightarrow>
               (case fx_send_tcp fx addr payload w of (r, w) \<Rightarrow> (map_err TcpSend r, w))))"

fun export_one ::
  "'w effects \<Rightarrow> string \<Rightarrow> runtime_exporter \<Rightarrow> signal \<Rightarrow> 'w \<Rightarrow> (exporter_error + unit) \<times> 'w"
where
  "export_one fx name (SkidClient addr) signal w =
     (case send_to_client fx signal (resolve_client_addr (fx_env fx) addr) w of
        (r, w) \<Rightarrow> (map_err ClientError r, w))"
| "export_one fx name (Logging include_json) signal w =
     (if include_json then
        (case fx_to_vec fx signal of
           Inl e \<Rightarrow> (Inl (LogSerialize e), w)
         | Inr json \<Rightarrow>
             (Inr (), fx_log fx name (signal_kind_str signal) (item_count signal) (Some json) w))
      else (Inr (), fx_log fx name (signal_kind_str signal) (item_count signal) None w))"
| "export_one fx name (Otlp exporter) signal w =
     (case fx_otlp fx exporter signal w of (r, w) \<Rightarrow> (map_err OtlpError r, w))"

definition exporters_export ::
  "'w effects \<Rightarrow> (string \<rightharpoonup> runtime_exporter) \<Rightarrow> string \<Rightarrow> signal \<Rightarrow> 'w \<Rightarrow>
    (exporter_failure + unit) \<times> 'w"
where
  "exporters_export fx exporters name signal w =
     (case exporters name of
        None \<Rightarrow> (Inl \<lparr>xf_exporter = name, xf_error = MissingExporter\<rparr>, w)
      | Some exporter \<Rightarrow>
          (case export_one fx name exporter signal w of
             (r, w) \<Rightarrow> (map_err (\<lambda>e. \<lparr>xf_exporter = name, xf_error = e\<rparr>) r, w)))"

datatype receiver_kind = SelfObservation | Device | OtlpReceiver | DatabaseLogs

fun receiver_as_str :: "receiver_kind \<Rightarrow> string" where
  "receiver_as_str SelfObservation = ''self_observation''"
| "receiver_as_str Device = ''device''"
| "receiver_as_str OtlpReceiver = ''otlp''"
| "receiver_as_str DatabaseLogs = ''database_logs''"

record pipeline_config =
  pc_receivers :: "string list"
  pc_processors :: "string list"
  pc_exporters :: "string list"

datatype processor_config = Batch

record signal_pipeline =
  sp_processors :: "string \<rightharpoonup> processor_config"
  sp_metrics :: pipeline_config
  sp_traces :: pipeline_config
  sp_logs :: pipeline_config
  sp_exporters :: "string \<rightharpoonup> runtime_exporter"

record pipeline_export_error =
  pe_receiver :: receiver_kind
  pe_signal_kind :: string
  pe_failures :: "exporter_failure list"

fun pipeline_for :: "signal_pipeline \<Rightarrow> signal \<Rightarrow> pipeline_config" where
  "pipeline_for p (Metrics _) = sp_metrics p"
| "pipeline_for p (Traces _) = sp_traces p"
| "pipeline_for p (Logs _) = sp_logs p"

text \<open>A processor leaves the signal as it is; an unknown one is only reported.\<close>

definition apply_processor :: "signal_pipeline \<Rightarrow> string \<Rightarrow> signal \<Rightarrow> signal" where
  "apply_processor p name signal =
     (case sp_processors p name of Some Batch \<Rightarrow> signal | None \<Rightarrow> signal)"

fun export_all ::
  "'w effects \<Rightarrow> (string \<rightharpoonup> runtime_exporter) \<Rightarrow> signal \<Rightarrow> string list \<Rightarrow> exporter_failure list \<Rightarrow>
    'w \<Rightarrow> exporter_failure list \<times> 'w"
where
  "export_all fx exporters signal [] failures w = (failures, w)"
| "export_all fx exporters signal (name # names) failures w =
     (case exporters_export fx exporters name signal w of
        (Inl failure, w) \<Rightarrow> export_all fx exporters signal names (failures @ [failure]) w
      | (Inr _, w) \<Rightarrow> export_all fx exporters signal names failures w)"

definition pipeline_export ::
  "'w effects \<Rightarrow> signal_pipeline \<Rightarrow> receiver_kind \<Rightarrow> signal \<Rightarrow> 'w \<Rightarrow>
    (pipeline_export_error + unit) \<times> 'w"
where
  "pipeline_export fx p receiver signal w =
     (let signal_kind = signal_kind_str signal; pipeline = pipeline_for p signal in
      if \<not> list_ex (\<lambda>candidate. candidate = receiver_as_str receiver) (pc_receivers pipeline)
      then (Inr (), w)
      else
        let signal = fold (apply_processor p) (pc_processors pipeline) signal in
        (case export_all fx (sp_exporters p) signal (pc_exporters pipeline) [] w of
           (failures, w) \<Rightarrow>
             if failures = [] then (Inr (), w)
             else (Inl \<lparr>pe_receiver = receiver, pe_signal_kind = signal_kind,
                        pe_failures = failures\<rparr>, w)))"

section \<open>The OTLP receiver\<close>

definition downstream_unavailable :: "pipeline_export_error \<Rightarrow> status" where
  "downstream_unavailable error =
     \<lparr>st_code = Unavailable,
      st_message = ''required downstream telemetry exporter is unavailable''\<rparr>"

text \<open>The three services (metrics, traces, logs) differ only in the signal they build.\<close>

definition otlp_ingest ::
  "'w effects \<Rightarrow> signal_pipeline \<Rightarrow> signal \<Rightarrow> 'w \<Rightarrow> (status + unit) \<times> 'w"
where
  "otlp_ingest fx p signal w =
     (case pipeline_export fx p OtlpReceiver signal w of
        (r, w) \<Rightarrow> (map_err downstream_unavailable r, w))"

section \<open>Lemmas on tokens and requests\<close>

lemma fetch_token_log: "r_log (snd (fetch_token sv config secret r)) = r_log r"
  by (auto simp: fetch_token_def split: prod.split sum.split)

lemma access_token_log: "r_log (snd (access_token sv config r)) = r_log r"
  by (auto simp: access_token_def fetch_token_log split: option.split prod.split sum.split)

lemma build_request_spec:
  assumes "build_request sv auth signal sequence r = (q, r')"
  shows "r_log r' = r_log r \<and>
    (\<forall>request. q = Inr request \<longrightarrow> gq_signal request = signal \<and> gq_sequence request = sequence)"
proof (cases auth)
  case None
  then show ?thesis using assms by (auto simp: build_request_def)
next
  case (Some config)
  obtain t r1 where t: "access_token sv config r = (t, r1)" by fastforce
  have "r_log r1 = r_log r" using access_token_log [of sv config r] t by simp
  then show ?thesis
    using assms Some t by (cases t) (auto simp: build_request_def split: if_splits)
qed

lemma export_attempt_spec:
  assumes "export_attempt sv auth signal sequence r = (q, r')"
  shows "\<exists>sent. r_log r' = r_log r @ sent \<and> length sent \<le> 1 \<and>
    (\<forall>x \<in> set sent. gq_signal x = signal \<and> gq_sequence x = sequence) \<and> (is_ok q \<longrightarrow> sent \<noteq> [])"
proof -
  obtain b r1 where b: "build_request sv auth signal sequence r = (b, r1)" by fastforce
  note bs = build_request_spec [OF b]
  show ?thesis
  proof (cases b)
    case (Inl e)
    then show ?thesis using assms b bs by (auto simp: export_attempt_def)
  next
    case (Inr request)
    then show ?thesis
      using assms b bs by (intro exI [of _ "[request]"]) (auto simp: export_attempt_def split: prod.splits)
  qed
qed

lemma export_loop_spec:
  assumes "attempts \<noteq> []" "last attempts = OTLP_MAX_ATTEMPTS"
  shows "\<exists>result r' sent. export_loop sv auth signal sequence attempts refreshed r = Some (result, r') \<and>
    r_log r' = r_log r @ sent \<and> length sent \<le> length attempts \<and>
    (\<forall>x \<in> set sent. gq_signal x = signal \<and> gq_sequence x = sequence) \<and> (is_ok result \<longrightarrow> sent \<noteq> [])"
  using assms
proof (induction attempts arbitrary: refreshed r)
  case (Cons attempt attempts)
  obtain q r1 where q: "export_attempt sv auth signal sequence r = (q, r1)" by fastforce
  obtain sent where sent: "r_log r1 = r_log r @ sent" "length sent \<le> 1"
    "\<And>x. x \<in> set sent \<Longrightarrow> gq_signal x = signal \<and> gq_sequence x = sequence" "is_ok q \<Longrightarrow> sent \<noteq> []"
    using export_attempt_spec [OF q] by blast
  consider "q = Inr ()" | e where "q = Inl (Prepare e)"
    | st where "q = Inl (Grpc st)" "attempt = OTLP_MAX_ATTEMPTS \<or>
        decide_retry (st_code st) (auth \<noteq> None) refreshed = Stop"
    | st where "q = Inl (Grpc st)" "\<not> (attempt = OTLP_MAX_ATTEMPTS \<or>
        decide_retry (st_code st) (auth \<noteq> None) refreshed = Stop)"
    by (metis attempt_error.exhaust old.unit.exhaust sum.exhaust)
  then show ?case
  proof cases
    case 4
    let ?d = "decide_retry (st_code st) (auth \<noteq> None) refreshed"
    let ?r2 = "(if ?d = RefreshAuth \<and> auth \<noteq> None then invalidate r1 else r1)"
    let ?r3 = "?r2\<lparr>r_ext := sv_sleep sv (retry_backoff attempt) (r_ext ?r2)\<rparr>"
    have step: "export_loop sv auth signal sequence (attempt # attempts) refreshed r =
        export_loop sv auth signal sequence attempts (refreshed \<or> ?d = RefreshAuth) ?r3"
      using q 4 by (simp add: Let_def)
    have log: "r_log ?r3 = r_log r @ sent" using sent(1) by (simp add: invalidate_def)
    have ne: "attempts \<noteq> []" "last attempts = OTLP_MAX_ATTEMPTS"
      using 4 Cons.prems by (auto split: if_splits)
    obtain result r' more where more:
      "export_loop sv auth signal sequence attempts (refreshed \<or> ?d = RefreshAuth) ?r3 = Some (result, r')"
      "r_log r' = r_log ?r3 @ more" "length more \<le> length attempts"
      "\<And>x. x \<in> set more \<Longrightarrow> gq_signal x = signal \<and> gq_sequence x = sequence"
      "is_ok result \<Longrightarrow> more \<noteq> []"
      using Cons.IH [OF ne, of "refreshed \<or> ?d = RefreshAuth" ?r3] by blast
    show ?thesis
      unfolding step more(1)
      using more log sent by (intro exI [of _ result] exI [of _ r'] exI [of _ "sent @ more"]) auto
  qed (use q sent in \<open>auto simp: Let_def\<close>)
qed simp

lemma otlp_export_spec:
  "\<exists>result r' sent. otlp_export sv next_sequence auth signal s r = Some (result, snd (next_sequence s), r') \<and>
    r_log r' = r_log r @ sent \<and> length sent \<le> 3 \<and>
    (\<forall>x \<in> set sent. gq_signal x = signal \<and> fst (next_sequence s) = Inr (gq_sequence x)) \<and>
    (is_ok result \<longrightarrow> sent \<noteq> [])"
proof -
  obtain n s' where n: "next_sequence s = (n, s')" by fastforce
  show ?thesis
  proof (cases n)
    case (Inl e)
    then show ?thesis using n by (simp add: otlp_export_def)
  next
    case (Inr sequence)
    let ?L = "[1..<Suc OTLP_MAX_ATTEMPTS]"
    have L: "?L \<noteq> []" "last ?L = OTLP_MAX_ATTEMPTS" "length ?L = 3"
      by (simp_all add: OTLP_MAX_ATTEMPTS_def)
    obtain result r' sent where
      "export_loop sv auth signal sequence ?L False r = Some (result, r')"
      "r_log r' = r_log r @ sent" "length sent \<le> 3"
      "\<forall>x \<in> set sent. gq_signal x = signal \<and> gq_sequence x = sequence" "is_ok result \<longrightarrow> sent \<noteq> []"
      using export_loop_spec [OF L(1, 2), of sv auth signal sequence False r] L(3) by auto
    then show ?thesis
      using n Inr by (intro exI [of _ result] exI [of _ r'] exI [of _ sent])
        (simp add: otlp_export_def del: export_loop.simps upt_Suc)
  qed
qed

lemma read_chunks_bound:
  "read_chunks body chunks = Inr out \<Longrightarrow> length body \<le> MAX_OAUTH_TOKEN_RESPONSE_BYTES \<Longrightarrow>
    length out \<le> MAX_OAUTH_TOKEN_RESPONSE_BYTES"
  by (induction body chunks rule: read_chunks.induct)
    (auto simp: append_bounded_body_def result_simps Let_def split: if_splits)

section \<open>A run of exports\<close>

fun export_many ::
  "'x services \<Rightarrow> ('s \<Rightarrow> (seq_error + u64) \<times> 's) \<Rightarrow> otlp_auth_config option \<Rightarrow> signal list \<Rightarrow>
    's \<Rightarrow> 'x run \<Rightarrow> ((export_error + unit) list \<times> 's \<times> 'x run) option"
where
  "export_many sv next_sequence auth [] s r = Some ([], s, r)"
| "export_many sv next_sequence auth (signal # signals) s r = do {
     (result, s, r) \<leftarrow> otlp_export sv next_sequence auth signal s r;
     (results, s, r) \<leftarrow> export_many sv next_sequence auth signals s r;
     Some (result # results, s, r) }"

definition identifies :: "grpc_request list \<Rightarrow> bool" where
  "identifies sent \<longleftrightarrow> sorted_wrt (\<lambda>x y. gq_sequence x \<le> gq_sequence y \<and>
     (gq_sequence x = gq_sequence y \<longrightarrow> gq_signal x = gq_signal y)) sent"

lemma identifies_const:
  assumes "\<And>x. x \<in> set sent \<Longrightarrow> gq_signal x = signal \<and> gq_sequence x = n"
  shows "identifies sent"
  unfolding identifies_def sorted_wrt_iff_nth_less
proof (intro allI impI)
  fix i j
  assume "i < j" "j < length sent"
  then have "sent ! i \<in> set sent" "sent ! j \<in> set sent" by auto
  then show "gq_sequence (sent ! i) \<le> gq_sequence (sent ! j) \<and>
      (gq_sequence (sent ! i) = gq_sequence (sent ! j) \<longrightarrow> gq_signal (sent ! i) = gq_signal (sent ! j))"
    using assms by (metis order_refl)
qed

context sequence_allocator
begin

lemma export_many_spec:
  "\<exists>results s' r' sent. export_many sv next_value auth signals s r = Some (results, s', r') \<and>
     r_log r' = r_log r @ sent \<and> identifies sent \<and> (\<forall>x \<in> set sent. bound s \<le> gq_sequence x) \<and>
     length results = length signals \<and> length sent \<le> 3 * length signals"
proof (induction signals arbitrary: s r)
  case Nil
  then show ?case by (simp add: identifies_def)
next
  case (Cons signal signals)
  obtain q s1 where q: "next_value s = (q, s1)" by fastforce
  obtain result r1 sent1 where e1:
    "otlp_export sv next_value auth signal s r = Some (result, s1, r1)"
    "r_log r1 = r_log r @ sent1" "length sent1 \<le> 3"
    "\<And>x. x \<in> set sent1 \<Longrightarrow> gq_signal x = signal \<and> q = Inr (gq_sequence x)"
    using otlp_export_spec [of sv next_value auth signal s r] q by auto
  obtain results s2 r2 sent2 where e2:
    "export_many sv next_value auth signals s1 r1 = Some (results, s2, r2)"
    "r_log r2 = r_log r1 @ sent2" "identifies sent2" "\<And>x. x \<in> set sent2 \<Longrightarrow> bound s1 \<le> gq_sequence x"
    "length results = length signals" "length sent2 \<le> 3 * length signals"
    using Cons.IH [of s1 r1] by blast
  have b: "bound s \<le> bound s1"
  proof (cases q)
    case (Inl e)
    then show ?thesis using next_err q by blast
  next
    case (Inr n)
    then have "bound s \<le> n" "n < bound s1" using next_ok q by blast+
    then show ?thesis by simp
  qed
  have h: "bound s \<le> gq_sequence x \<and> gq_sequence x < bound s1" if "x \<in> set sent1" for x
  proof -
    have "q = Inr (gq_sequence x)" using e1(4) [OF that] by blast
    then have "next_value s = (Inr (gq_sequence x), s1)" using q by blast
    then show ?thesis by (rule next_ok)
  qed
  have id1: "identifies sent1"
  proof (cases q)
    case (Inl e)
    have "x \<notin> set sent1" for x using e1(4) [of x] Inl by (metis sum.distinct(1))
    then have "sent1 = []" by (metis list.set_intros(1) neq_Nil_conv)
    then show ?thesis by (simp add: identifies_def)
  next
    case (Inr n)
    have "gq_signal x = signal \<and> gq_sequence x = n" if "x \<in> set sent1" for x
      using e1(4) [OF that] Inr by blast
    then show ?thesis by (rule identifies_const)
  qed
  have "identifies (sent1 @ sent2)"
  proof -
    have "gq_sequence x < gq_sequence y" if "x \<in> set sent1" "y \<in> set sent2" for x y
      using h [OF that(1)] e2(4) [OF that(2)] by auto
    then show ?thesis
      using id1 e2(3) unfolding identifies_def sorted_wrt_append by (metis order.strict_iff_order)
  qed
  moreover have "\<forall>x \<in> set (sent1 @ sent2). bound s \<le> gq_sequence x"
  proof
    fix x assume "x \<in> set (sent1 @ sent2)"
    then consider "x \<in> set sent1" | "x \<in> set sent2" by auto
    then show "bound s \<le> gq_sequence x"
      by cases (use h order_trans [OF b e2(4)] in blast)+
  qed
  ultimately show ?case
    using e1 e2
    by (intro exI [of _ "result # results"] exI [of _ s2] exI [of _ r2] exI [of _ "sent1 @ sent2"]) simp
qed

end

section \<open>All exporters are attempted\<close>

text \<open>The results of running the exporters one after the other, whatever each returns.\<close>

fun exporter_results ::
  "'w effects \<Rightarrow> (string \<rightharpoonup> runtime_exporter) \<Rightarrow> signal \<Rightarrow> string list \<Rightarrow> 'w \<Rightarrow>
    (exporter_failure + unit) list \<times> 'w"
where
  "exporter_results fx exporters signal [] w = ([], w)"
| "exporter_results fx exporters signal (name # names) w =
     (let (r, w1) = exporters_export fx exporters name signal w;
          (rs, w2) = exporter_results fx exporters signal names w1
      in (r # rs, w2))"

definition failures_of :: "(exporter_failure + unit) list \<Rightarrow> exporter_failure list" where
  "failures_of rs = map projl (filter isl rs)"

lemma export_all_results:
  "export_all fx exporters signal names failures w =
    (let (rs, w') = exporter_results fx exporters signal names w in (failures @ failures_of rs, w'))"
proof (induction names arbitrary: failures w)
  case Nil
  then show ?case by (simp add: failures_of_def)
next
  case (Cons name names)
  obtain r w1 where r: "exporters_export fx exporters name signal w = (r, w1)" by fastforce
  show ?case
    using Cons r by (cases r) (simp_all add: failures_of_def split: prod.split)
qed

lemma processors_keep_signal: "fold (apply_processor p) names signal = signal"
proof (induction names arbitrary: signal)
  case (Cons name names)
  have "apply_processor p name signal = signal"
    by (simp add: apply_processor_def split: option.split processor_config.split)
  then show ?case using Cons by simp
qed simp

lemma failures_of_empty: "failures_of rs = [] \<longleftrightarrow> list_all is_ok rs"
proof (induction rs)
  case (Cons r rs)
  then show ?case by (cases r) (auto simp: failures_of_def)
qed (simp add: failures_of_def)

section \<open>Properties\<close>

text \<open>C20: one logical OTLP export always returns, after at most three gRPC requests, and every
  request it sends carries the same signal and the one sequence number that was allocated
  before the first attempt; it reports success only if a request was sent. If no sequence
  number could be allocated, nothing is sent.\<close>

theorem otlp_export_attempts:
  "\<exists>result r' sent. otlp_export sv next_sequence auth signal s r =
      Some (result, snd (next_sequence s), r') \<and>
    r_log r' = r_log r @ sent \<and> length sent \<le> 3 \<and>
    (\<forall>x \<in> set sent. gq_signal x = signal \<and> fst (next_sequence s) = Inr (gq_sequence x)) \<and>
    (is_ok result \<longrightarrow> sent \<noteq> [])"
  by (rule otlp_export_spec)

definition offline_services :: "nat services" where
  "offline_services =
     \<lparr>sv_now = (\<lambda>x. (0, x)), sv_env = (\<lambda>_. None),
      sv_post = (\<lambda>_ x. (Inl ''offline'', x)), sv_decode_token = (\<lambda>_. Inl ''json''),
      sv_metadata_ok = (\<lambda>_. True),
      sv_call = (\<lambda>_ x. (if x < 2 then Inl \<lparr>st_code = Unavailable, st_message = ''down''\<rparr> else Inr (), x + 1)),
      sv_sleep = (\<lambda>_ x. x)\<rparr>"

theorem otlp_export_attempts_witness:
  "\<exists>result r' sent. otlp_export offline_services ephemeral_next None (Logs \<lparr>elr_resource_logs = []\<rparr>) 9
      \<lparr>r_cache = None, r_ext = 0, r_log = []\<rparr> = Some (result, 10, r') \<and>
    r_log r' = sent \<and> length sent \<le> 3 \<and>
    (\<forall>x \<in> set sent. gq_signal x = Logs \<lparr>elr_resource_logs = []\<rparr> \<and> Inr 9 = (Inr (gq_sequence x) :: seq_error + u64)) \<and>
    (is_ok result \<longrightarrow> sent \<noteq> [])"
  using otlp_export_attempts [of offline_services ephemeral_next None "Logs \<lparr>elr_resource_logs = []\<rparr>" 9
      "\<lparr>r_cache = None, r_ext = 0, r_log = []\<rparr>"]
  by (simp add: ephemeral_next_def checked_add_code)



text \<open>C22: a refresh deadline is accepted only for a lifetime between one second and 24 hours, and
  it lies before the token expires, by at least one second and by at most 60 seconds; the
  token response that is read never exceeds 1 MiB.\<close>

theorem token_deadline_before_expiry:
  "(\<forall>t. token_refresh_deadline now expires_in = Inr t \<longrightarrow>
      0 < unat expires_in \<and> unat expires_in \<le> 86400 \<and> now \<le> t \<and>
      t + NANOS_PER_SEC \<le> now + unat expires_in * NANOS_PER_SEC \<and>
      now + unat expires_in * NANOS_PER_SEC \<le> t + 60 * NANOS_PER_SEC) \<and>
   (\<forall>body. read_bounded_token_response response = Inr body \<longrightarrow> length body \<le> 1048576)"
proof (intro conjI allI impI)
  fix body
  assume "read_bounded_token_response response = Inr body"
  then show "length body \<le> 1048576"
    using read_chunks_bound [of "[]" "hr_chunks response" body]
    by (simp add: read_bounded_token_response_def MAX_OAUTH_TOKEN_RESPONSE_BYTES_def split: if_splits)
next
  fix t
  assume a: "token_refresh_deadline now expires_in = Inr t"
  have e: "0 < unat expires_in" "unat expires_in \<le> 86400"
    using a by (auto simp: token_refresh_deadline_def MAX_OAUTH_TOKEN_LIFETIME_SECS_def
        word_less_nat_alt unat_gt_0 split: if_splits)
  have r: "unat (refresh_after expires_in) + 1 \<le> unat expires_in"
    "unat expires_in \<le> unat (refresh_after expires_in) + 60"
    using e by (auto simp: refresh_after_def Let_def unat_sat_sub word_less_nat_alt unat_div_distrib)
  have t: "t = now + unat (refresh_after expires_in) * NANOS_PER_SEC"
    using a by (auto simp: token_refresh_deadline_def instant_checked_add_def result_simps Let_def
        split: if_splits)
  show "0 < unat expires_in" "unat expires_in \<le> 86400" "now \<le> t"
    using e t by simp_all
  show "t + NANOS_PER_SEC \<le> now + unat expires_in * NANOS_PER_SEC"
    using r(1) t by (simp add: NANOS_PER_SEC_def)
  show "now + unat expires_in * NANOS_PER_SEC \<le> t + 60 * NANOS_PER_SEC"
    using r(2) t by (simp add: NANOS_PER_SEC_def)
qed

theorem token_deadline_before_expiry_witness:
  "token_refresh_deadline 7 300 = Inr (7 + 240 * NANOS_PER_SEC) \<and>
   7 + 240 * NANOS_PER_SEC + NANOS_PER_SEC \<le> 7 + 300 * NANOS_PER_SEC"
proof -
  have "token_refresh_deadline 7 300 = Inr (7 + 240 * NANOS_PER_SEC)"
    by (simp add: token_refresh_deadline_def MAX_OAUTH_TOKEN_LIFETIME_SECS_def instant_checked_add_def
        refresh_after_def sat_sub_def NANOS_PER_SEC_def)
  then show ?thesis
    using token_deadline_before_expiry [of 7 300 "\<lparr>hr_status = 200, hr_content_length = None, hr_chunks = []\<rparr>"]
    by simp
qed

text \<open>C21: a signal of a receiver the pipeline does not list is dropped without any effect.
  Otherwise every listed exporter is run, in order, on the unchanged signal, also after
  earlier ones failed; the export succeeds exactly if all of them did, and its error lists
  exactly the failures, in order. The OTLP receiver reports such an error with one fixed
  message that reveals nothing of the exporters.\<close>

theorem pipeline_attempts_all:
  "(receiver_as_str receiver \<notin> set (pc_receivers (pipeline_for p signal)) \<longrightarrow>
      pipeline_export fx p receiver signal w = (Inr (), w)) \<and>
   (receiver_as_str receiver \<in> set (pc_receivers (pipeline_for p signal)) \<longrightarrow>
      (let (rs, w') = exporter_results fx (sp_exporters p) signal (pc_exporters (pipeline_for p signal)) w;
           (r, w'') = pipeline_export fx p receiver signal w
       in w'' = w' \<and> (is_ok r \<longleftrightarrow> list_all is_ok rs) \<and>
          (\<forall>e. r = Inl e \<longrightarrow> pe_failures e = failures_of rs \<and> pe_receiver e = receiver))) \<and>
   (\<forall>st. fst (otlp_ingest fx p signal w) = Inl st \<longrightarrow>
      st = \<lparr>st_code = Unavailable,
            st_message = ''required downstream telemetry exporter is unavailable''\<rparr>)"
proof (intro conjI impI allI)
  fix st
  assume "fst (otlp_ingest fx p signal w) = Inl st"
  then show "st = \<lparr>st_code = Unavailable,
      st_message = ''required downstream telemetry exporter is unavailable''\<rparr>"
    by (auto simp: otlp_ingest_def downstream_unavailable_def result_simps split: prod.splits)
qed (auto simp: pipeline_export_def Let_def list_ex_iff processors_keep_signal export_all_results
    failures_of_empty split: prod.splits)

definition quiet_effects :: "nat effects" where
  "quiet_effects =
     \<lparr>fx_to_vec = (\<lambda>_. Inr []), fx_env = (\<lambda>_. None),
      fx_send_tcp = (\<lambda>_ _ w. (Inr (), w + 1)), fx_log = (\<lambda>_ _ _ _ w. w + 1),
      fx_otlp = (\<lambda>_ _ w. (Inr (), w + 1))\<rparr>"

definition two_exporters :: signal_pipeline where
  "two_exporters =
     (let c = \<lparr>pc_receivers = [''otlp''], pc_processors = [''batch''],
               pc_exporters = [''missing'', ''debug'']\<rparr> in
      \<lparr>sp_processors = [''batch'' \<mapsto> Batch], sp_metrics = c, sp_traces = c, sp_logs = c,
       sp_exporters = [''debug'' \<mapsto> Logging False]\<rparr>)"

theorem pipeline_attempts_all_witness:
  "pipeline_export quiet_effects two_exporters OtlpReceiver (Logs \<lparr>elr_resource_logs = []\<rparr>) 0 =
     (Inl \<lparr>pe_receiver = OtlpReceiver, pe_signal_kind = ''logs'',
           pe_failures = [\<lparr>xf_exporter = ''missing'', xf_error = MissingExporter\<rparr>]\<rparr>, 1) \<and>
   (let (rs, w') = exporter_results quiet_effects (sp_exporters two_exporters)
           (Logs \<lparr>elr_resource_logs = []\<rparr>) [''missing'', ''debug''] 0
    in w' = 1 \<and> \<not> list_all is_ok rs)"
proof -
  have r: "pipeline_export quiet_effects two_exporters OtlpReceiver (Logs \<lparr>elr_resource_logs = []\<rparr>) 0 =
     (Inl \<lparr>pe_receiver = OtlpReceiver, pe_signal_kind = ''logs'',
           pe_failures = [\<lparr>xf_exporter = ''missing'', xf_error = MissingExporter\<rparr>]\<rparr>, 1)"
    by (simp add: pipeline_export_def two_exporters_def quiet_effects_def exporters_export_def
        apply_processor_def log_count_def Let_def)
  have "receiver_as_str OtlpReceiver \<in> set (pc_receivers (pipeline_for two_exporters (Logs \<lparr>elr_resource_logs = []\<rparr>)))"
    "pc_exporters (pipeline_for two_exporters (Logs \<lparr>elr_resource_logs = []\<rparr>)) = [''missing'', ''debug'']"
    by (simp_all add: two_exporters_def Let_def)
  then show ?thesis
    using pipeline_attempts_all [of OtlpReceiver two_exporters "Logs \<lparr>elr_resource_logs = []\<rparr>" quiet_effects 0] r
    by (auto simp del: exporter_results.simps split: prod.splits)
qed

end
