(* ===== verification/Rust_Std.thy ===== *)
theory Rust_Std
  imports Rust_Text
begin

text \<open>
  Further parts of Rust's standard library the services use: the \<open>Debug\<close> form of a \<open>str\<close>,
  parsing of unsigned integers with the text of its error, and the parser of socket
  addresses; and the process environment. The tables that say which characters beyond ASCII are printable are an argument
  of the \<open>Debug\<close> form.
\<close>

section \<open>The Debug form of a string\<close>

definition hex_char :: "nat \<Rightarrow> char" where
  "hex_char d = (if d < 10 then digit_char d else char_of (87 + d))"

function show_hex :: "nat \<Rightarrow> string" where
  "show_hex n = (if n < 16 then [hex_char n] else show_hex (n div 16) @ [hex_char (n mod 16)])"
  by pat_completeness auto
termination
  by (relation "measure id") auto

declare show_hex.simps [simp del]

text \<open>The scalar value of a character from its lead byte and its continuation bytes.\<close>

definition utf8_len :: "char \<Rightarrow> nat" where
  "utf8_len c = (if code c < 0x80 then 1 else if code c < 0xE0 then 2 else if code c < 0xF0 then 3 else 4)"

definition scalar_value :: "char \<Rightarrow> string \<Rightarrow> nat" where
  "scalar_value c r =
     foldl (\<lambda>n d. 64 * n + code d mod 64)
       (if code c < 0x80 then code c else if code c < 0xE0 then code c mod 32
        else if code c < 0xF0 then code c mod 16 else code c mod 8) r"

definition escape_char :: "(nat \<Rightarrow> bool) \<Rightarrow> nat \<Rightarrow> string \<Rightarrow> string" where
  "escape_char printable n s =
     (if n = 0 then [CHR 0x5C, CHR ''0''] else if n = 9 then [CHR 0x5C, CHR ''t'']
      else if n = 13 then [CHR 0x5C, CHR ''r''] else if n = 10 then [CHR 0x5C, CHR ''n'']
      else if n = 0x22 \<or> n = 0x5C then CHR 0x5C # s
      else if (if n < 0x80 then 0x20 \<le> n \<and> n < 0x7F else printable n) then s
      else [CHR 0x5C, CHR ''u'', CHR 0x7B] @ show_hex n @ [CHR 0x7D])"

function escape_debug :: "(nat \<Rightarrow> bool) \<Rightarrow> string \<Rightarrow> string" where
  "escape_debug printable [] = []"
| "escape_debug printable (c # r) =
     (let k = utf8_len c - 1
      in escape_char printable (scalar_value c (take k r)) (c # take k r) @ escape_debug printable (drop k r))"
  by pat_completeness auto
termination
  by (relation "measure (\<lambda>(_, s). length s)") auto

definition str_debug :: "(nat \<Rightarrow> bool) \<Rightarrow> string \<Rightarrow> string" where
  "str_debug printable s = [CHR 0x22] @ escape_debug printable s @ [CHR 0x22]"

section \<open>Unsigned integers\<close>

fun parse_digits :: "nat \<Rightarrow> nat \<Rightarrow> string \<Rightarrow> string + nat" where
  "parse_digits bound n [] = Inr n"
| "parse_digits bound n (c # r) =
     (if \<not> is_digit c then Inl ''invalid digit found in string''
      else if bound \<le> dec_acc n c then Inl ''number too large to fit in target type''
      else parse_digits bound (dec_acc n c) r)"

definition parse_uint :: "nat \<Rightarrow> string \<Rightarrow> string + nat" where
  "parse_uint bound s =
     (case s of [] \<Rightarrow> Inl ''cannot parse integer from empty string''
      | c # r \<Rightarrow> if c = CHR ''+'' \<and> r \<noteq> [] then parse_digits bound 0 r else parse_digits bound 0 s)"

lemma parse_digits_Inr:
  "parse_digits bound n s = Inr m \<longleftrightarrow>
     list_all is_digit s \<and> m = foldl dec_acc n s \<and> (s \<noteq> [] \<longrightarrow> m < bound)"
proof (induction s arbitrary: n)
  case (Cons c r)
  have mono: "k \<le> foldl dec_acc k r" for k
  proof (induction r arbitrary: k)
    case (Cons d r)
    have "k \<le> dec_acc k d" by (simp add: dec_acc_def)
    also have "\<dots> \<le> foldl dec_acc k (d # r)" using Cons by simp
    finally show ?case .
  qed simp
  show ?case
    using Cons [of "dec_acc n c"] mono [of "dec_acc n c"] by (cases "r = []") auto
qed auto

lemma parse_uint_bound: "parse_uint bound s = Inr m \<Longrightarrow> m < bound"
  by (auto simp: parse_uint_def parse_digits_Inr split: list.splits if_splits)

section \<open>Socket addresses\<close>

datatype socket_addr =
    SocketV4 "nat list" nat
  | SocketV6 "nat list" nat nat

type_synonym 'a reader = "string \<Rightarrow> ('a \<times> string) option"

definition hex_digit :: "char \<Rightarrow> nat option" where
  "hex_digit c =
     (if is_digit c then Some (code c - 48)
      else if 97 \<le> code c \<and> code c \<le> 102 then Some (code c - 87)
      else if 65 \<le> code c \<and> code c \<le> 70 then Some (code c - 55) else None)"

definition radix_digit :: "nat \<Rightarrow> char \<Rightarrow> nat option" where
  "radix_digit radix c = opt_filter (\<lambda>d. d < radix) (hex_digit c)"

text \<open>The number read so far, the count of its digits, the allowed count.\<close>

fun read_digits :: "nat \<Rightarrow> nat \<Rightarrow> nat option \<Rightarrow> nat \<Rightarrow> nat \<Rightarrow> (nat \<times> nat) reader" where
  "read_digits radix bound max_digits n k [] = Some ((n, k), [])"
| "read_digits radix bound max_digits n k (c # r) =
     (case radix_digit radix c of
        None \<Rightarrow> Some ((n, k), c # r)
      | Some d \<Rightarrow>
          if bound \<le> radix * n + d then None
          else if (case max_digits of None \<Rightarrow> False | Some m \<Rightarrow> m < Suc k) then None
          else read_digits radix bound max_digits (radix * n + d) (Suc k) r)"

definition read_number :: "nat \<Rightarrow> nat \<Rightarrow> nat option \<Rightarrow> bool \<Rightarrow> nat reader" where
  "read_number radix bound max_digits allow_zero_prefix s =
     (case read_digits radix bound max_digits 0 0 s of
        None \<Rightarrow> None
      | Some ((n, k), r) \<Rightarrow>
          if k = 0 \<or> \<not> allow_zero_prefix \<and> take 1 s = ''0'' \<and> 1 < k then None else Some (n, r))"

definition read_given_char :: "char \<Rightarrow> unit reader" where
  "read_given_char c s = (case s of [] \<Rightarrow> None | d # r \<Rightarrow> if c = d then Some ((), r) else None)"

definition then_read :: "'a reader \<Rightarrow> ('a \<Rightarrow> 'b reader) \<Rightarrow> 'b reader" where
  "then_read p q s = (case p s of None \<Rightarrow> None | Some (a, r) \<Rightarrow> q a r)"

definition read_separator :: "char \<Rightarrow> nat \<Rightarrow> 'a reader \<Rightarrow> 'a reader" where
  "read_separator sep i p = (if 0 < i then then_read (read_given_char sep) (\<lambda>_. p) else p)"

fun read_octets :: "nat \<Rightarrow> nat \<Rightarrow> nat list reader" where
  "read_octets i 0 s = Some ([], s)"
| "read_octets i (Suc k) s =
     then_read (read_separator (CHR ''.'') i (read_number 10 256 (Some 3) False))
       (\<lambda>b. then_read (read_octets (Suc i) k) (\<lambda>bs r. Some (b # bs, r))) s"

definition read_ipv4_addr :: "nat list reader" where
  "read_ipv4_addr = read_octets 0 4"

text \<open>Up to \<open>limit\<close> groups of an IPv6 address; the flag says that the last two came from an
  embedded IPv4 address.\<close>

fun read_groups :: "nat \<Rightarrow> nat \<Rightarrow> string \<Rightarrow> nat list \<times> bool \<times> string" where
  "read_groups i 0 s = ([], False, s)"
| "read_groups i (Suc k) s =
     (case (if 0 < k then read_separator (CHR '':'') i read_ipv4_addr s else None) of
        Some (v4, r) \<Rightarrow> ([256 * v4 ! 0 + v4 ! 1, 256 * v4 ! 2 + v4 ! 3], True, r)
      | None \<Rightarrow>
          (case read_separator (CHR '':'') i (read_number 16 65536 (Some 4) True) s of
             None \<Rightarrow> ([], False, s)
           | Some (g, r) \<Rightarrow> (case read_groups (Suc i) k r of (gs, v4, r') \<Rightarrow> (g # gs, v4, r'))))"

definition read_ipv6_addr :: "nat list reader" where
  "read_ipv6_addr s =
     (case read_groups 0 8 s of (head, head_ipv4, r) \<Rightarrow>
        if length head = 8 then Some (head, r)
        else if head_ipv4 then None
        else then_read (read_given_char (CHR '':'')) (\<lambda>_. then_read (read_given_char (CHR '':'')) (\<lambda>_ r.
          case read_groups 0 (8 - (length head + 1)) r of (tail, _, r') \<Rightarrow>
            Some (head @ replicate (8 - length head - length tail) 0 @ tail, r'))) r)"

definition read_port :: "nat reader" where
  "read_port = then_read (read_given_char (CHR '':'')) (\<lambda>_. read_number 10 65536 None True)"

definition read_scope_id :: "nat reader" where
  "read_scope_id = then_read (read_given_char (CHR ''%'')) (\<lambda>_. read_number 10 (2 ^ 32) None True)"

definition read_socket_addr_v4 :: "socket_addr reader" where
  "read_socket_addr_v4 =
     then_read read_ipv4_addr (\<lambda>ip. then_read read_port (\<lambda>port r. Some (SocketV4 ip port, r)))"

definition read_socket_addr_v6 :: "socket_addr reader" where
  "read_socket_addr_v6 =
     then_read (read_given_char (CHR ''['')) (\<lambda>_. then_read read_ipv6_addr (\<lambda>ip r.
       case (case read_scope_id r of Some (n, r') \<Rightarrow> (n, r') | None \<Rightarrow> (0, r)) of (scope, r') \<Rightarrow>
         then_read (read_given_char (CHR '']'')) (\<lambda>_. then_read read_port
           (\<lambda>port r''. Some (SocketV6 ip port scope, r''))) r'))"

definition parse_socket :: "string \<Rightarrow> string + socket_addr" where
  "parse_socket s =
     (case (case read_socket_addr_v4 s of Some x \<Rightarrow> Some x | None \<Rightarrow> read_socket_addr_v6 s) of
        Some (a, []) \<Rightarrow> Inr a
      | _ \<Rightarrow> Inl ''invalid socket address syntax'')"

section \<open>Environment and URLs\<close>

text \<open>The process environment maps names to values that are valid Unicode. The URL parser is a
  library: a parsed URL is given by the values of the accessors the code calls on it.\<close>

record url =
  url_scheme :: string
  url_host :: "string option"
  url_username :: string
  url_password :: "string option"
  url_path :: string
  url_query :: "string option"
  url_fragment :: "string option"
  url_query_pairs :: "(string \<times> string) list"
  url_origin :: string
  url_text :: string

type_synonym url_parser = "string \<Rightarrow> url option"
type_synonym environment = "string \<rightharpoonup> string"

end
