(* ===== verification/Agent_Config.thy ===== *)
theory Agent_Config
  imports Agent_Export Rust_Std
begin

text \<open>
  The configuration of the agent (\<open>skid-monitor-agent/src/config.rs\<close>) and the construction of
  the pipeline and of its exporters from it (\<open>SignalPipeline::from_config\<close>,
  \<open>SignalExporters::from_config\<close>, \<open>OtlpExporter::new\<close>). A \<open>BTreeMap\<close> is the list of its entries
  in key order. The JSON reader, the URL parser and the parts of the gRPC and OAuth clients
  that can refuse a setting are arguments.
\<close>

section \<open>Types\<close>

definition CONFIG_ENV :: string where "CONFIG_ENV = ''SKID_MONITOR_AGENT_CONFIG''"
definition DEFAULT_CYCLE_INTERVAL_SECS :: u64 where "DEFAULT_CYCLE_INTERVAL_SECS = 15"
definition DEFAULT_DEVICE_LISTEN_ADDR :: string where "DEFAULT_DEVICE_LISTEN_ADDR = ''127.0.0.1:9101''"
definition DEFAULT_OTLP_GRPC_ADDR :: string where "DEFAULT_OTLP_GRPC_ADDR = ''127.0.0.1:4317''"

definition default_database_log_poll_interval_millis :: u64 where
  "default_database_log_poll_interval_millis = 1000"
definition default_database_log_max_line_bytes :: nat where
  "default_database_log_max_line_bytes = 64 * 1024"
definition default_database_log_max_read_bytes :: nat where
  "default_database_log_max_read_bytes = 1024 * 1024"

record self_observation_config =
  so_enabled :: bool
  so_interval_secs :: u64

record device_config =
  dv_enabled :: bool
  dv_listen_addr :: string

record otlp_receiver_config =
  or_enabled :: bool
  or_grpc_addr :: string

datatype log_start_position = Beginning | End

record database_log_source_config =
  ls_system :: string
  ls_path :: string
  ls_namespace :: "string option"
  ls_service_name :: "string option"
  ls_instance :: "string option"

record database_logs_config =
  dl_enabled :: bool
  dl_poll_interval_millis :: u64
  dl_start_at :: log_start_position
  dl_max_line_bytes :: nat
  dl_max_read_bytes :: nat
  dl_sources :: "database_log_source_config list"

record receivers_config =
  rv_self_observation :: self_observation_config
  rv_device :: device_config
  rv_otlp :: otlp_receiver_config
  rv_database_logs :: database_logs_config

record agent_auth_config = otlp_auth_config +
  oc_sequence_state_path :: string

datatype exporter_config =
    SkidClientConfig "string option"
  | LoggingConfig bool
  | OtlpConfig string "agent_auth_config option"

record pipelines_config =
  pl_metrics :: pipeline_config
  pl_traces :: pipeline_config
  pl_logs :: pipeline_config

record agent_config =
  ac_receivers :: receivers_config
  ac_processors :: "(string \<times> processor_config) list"
  ac_exporters :: "(string \<times> exporter_config) list"
  ac_pipelines :: pipelines_config

datatype agent_config_error =
    ReadConfig string io_error
  | ParseConfig string string
  | Validate string

section \<open>Defaults\<close>

definition env_or_legacy :: "environment \<Rightarrow> string \<Rightarrow> string \<Rightarrow> string option" where
  "env_or_legacy env primary legacy = opt_or (env primary) (env legacy)"

definition switched_off :: "string \<Rightarrow> bool" where
  "switched_off v \<longleftrightarrow> eq_ignore_ascii_case v ''off'' \<or> eq_ignore_ascii_case v ''disabled''"

definition self_observation_default :: self_observation_config where
  "self_observation_default = \<lparr>so_enabled = True, so_interval_secs = DEFAULT_CYCLE_INTERVAL_SECS\<rparr>"

definition device_default :: "environment \<Rightarrow> device_config" where
  "device_default env =
     (case env_or_legacy env ''SKID_MONITOR_DEVICE_LISTEN_ADDR'' ''MONITOR_CAT_DEVICE_LISTEN_ADDR'' of
        Some v \<Rightarrow> if switched_off v then \<lparr>dv_enabled = False, dv_listen_addr = DEFAULT_DEVICE_LISTEN_ADDR\<rparr>
                  else \<lparr>dv_enabled = True, dv_listen_addr = v\<rparr>
      | None \<Rightarrow> \<lparr>dv_enabled = True, dv_listen_addr = DEFAULT_DEVICE_LISTEN_ADDR\<rparr>)"

definition otlp_receiver_default :: "environment \<Rightarrow> otlp_receiver_config" where
  "otlp_receiver_default env =
     (case env ''SKID_MONITOR_OTLP_GRPC_ADDR'' of
        Some v \<Rightarrow> if switched_off v then \<lparr>or_enabled = False, or_grpc_addr = DEFAULT_OTLP_GRPC_ADDR\<rparr>
                  else \<lparr>or_enabled = True, or_grpc_addr = v\<rparr>
      | None \<Rightarrow> \<lparr>or_enabled = False, or_grpc_addr = DEFAULT_OTLP_GRPC_ADDR\<rparr>)"

definition database_logs_default :: database_logs_config where
  "database_logs_default =
     \<lparr>dl_enabled = False, dl_poll_interval_millis = default_database_log_poll_interval_millis, dl_start_at = End,
      dl_max_line_bytes = default_database_log_max_line_bytes,
      dl_max_read_bytes = default_database_log_max_read_bytes, dl_sources = []\<rparr>"

definition receivers_default :: "environment \<Rightarrow> receivers_config" where
  "receivers_default env =
     \<lparr>rv_self_observation = self_observation_default, rv_device = device_default env,
      rv_otlp = otlp_receiver_default env, rv_database_logs = database_logs_default\<rparr>"

definition pipeline_default :: pipeline_config where
  "pipeline_default =
     \<lparr>pc_receivers = [''self_observation'', ''device'', ''otlp'', ''database_logs''],
      pc_processors = [], pc_exporters = [''skid'']\<rparr>"

definition default_pipelines :: pipelines_config where
  "default_pipelines = \<lparr>pl_metrics = pipeline_default, pl_traces = pipeline_default, pl_logs = pipeline_default\<rparr>"

definition default_exporters :: "environment \<Rightarrow> (string \<times> exporter_config) list" where
  "default_exporters env =
     [(''skid'', SkidClientConfig (env_or_legacy env ''SKID_MONITOR_CLIENT_ADDR'' ''MONITOR_CAT_CLIENT_ADDR''))]"

definition agent_config_default :: "environment \<Rightarrow> agent_config" where
  "agent_config_default env =
     \<lparr>ac_receivers = receivers_default env, ac_processors = [], ac_exporters = default_exporters env,
      ac_pipelines = default_pipelines\<rparr>"

section \<open>Validation\<close>

text \<open>A \<open>for\<close> loop that leaves with the first error.\<close>

fun check_all :: "('a \<Rightarrow> 'e + unit) \<Rightarrow> 'a list \<Rightarrow> 'e + unit" where
  "check_all f [] = Inr ()"
| "check_all f (x # xs) = and_then (f x) (\<lambda>_. check_all f xs)"

definition ensure :: "bool \<Rightarrow> string \<Rightarrow> agent_config_error + unit" where
  "ensure ok message = (if ok then Inr () else Inl (Validate message))"

text \<open>The components of a path, up to which paths are compared: empty ones and \<open>.\<close> are skipped.\<close>

definition path_components :: "string \<Rightarrow> string list" where
  "path_components p = filter (\<lambda>c. c \<noteq> [] \<and> c \<noteq> ''.'') (split_on (\<lambda>c. c = CHR ''/'') p)"

definition path_file_name :: "string \<Rightarrow> string option" where
  "path_file_name p =
     (let cs = path_components p in if cs = [] \<or> last cs = ''..'' then None else Some (last cs))"

definition secure_url :: "url \<Rightarrow> bool" where
  "secure_url u \<longleftrightarrow> url_scheme u = ''https'' \<and> url_host u \<noteq> None \<and> url_username u = [] \<and>
     url_password u = None \<and> url_fragment u = None"

definition validate_otlp_auth ::
  "(nat \<Rightarrow> bool) \<Rightarrow> url_parser \<Rightarrow> string \<Rightarrow> string \<Rightarrow> agent_auth_config \<Rightarrow> agent_config_error + unit"
where
  "validate_otlp_auth pr parse name endpoint auth =
     (let exporter = ''exporter '' @ str_debug pr name in
      and_then (ensure (trim (oc_client_id auth) \<noteq> []) (exporter @ '' has an empty OAuth client_id'')) (\<lambda>_.
      and_then (ensure (trim (oc_client_secret_env auth) \<noteq> [] \<and> CHR ''='' \<notin> set (oc_client_secret_env auth) \<and>
          CHR 0x00 \<notin> set (oc_client_secret_env auth)) (exporter @ '' has an invalid OAuth client_secret_env'')) (\<lambda>_.
      and_then (ensure (oc_sequence_state_path auth \<noteq> [] \<and> path_file_name (oc_sequence_state_path auth) \<noteq> None)
          (exporter @ '' has an invalid sequence_state_path'')) (\<lambda>_.
      and_then (ensure (\<forall>scope \<in> set_option (oc_scope auth). trim scope \<noteq> []) (exporter @ '' has an empty OAuth scope'')) (\<lambda>_.
      and_then (ok_or (Validate (exporter @ '' has an invalid OAuth token_url'')) (parse (trim (oc_token_url auth)))) (\<lambda>token_url.
      and_then (ensure (secure_url token_url)
          (exporter @ '' OAuth token_url must be an HTTPS URL without credentials or a fragment'')) (\<lambda>_.
      and_then (ok_or (Validate (exporter @ '' authenticated OTLP endpoint must be a valid HTTPS URL''))
          (parse (trim endpoint))) (\<lambda>endpoint_url.
      ensure (secure_url endpoint_url)
        (exporter @ '' authenticated OTLP endpoint must use HTTPS without credentials or a fragment'')))))))))"

definition validate_pipeline ::
  "(nat \<Rightarrow> bool) \<Rightarrow> string \<Rightarrow> pipeline_config \<Rightarrow> agent_config \<Rightarrow> agent_config_error + unit"
where
  "validate_pipeline pr signal pipeline config =
     and_then (ensure (pc_exporters pipeline \<noteq> []) (signal @ '' pipeline must have at least one exporter'')) (\<lambda>_.
     and_then (check_all (\<lambda>receiver.
         ensure (receiver \<in> {''self_observation'', ''device'', ''otlp'', ''database_logs''})
           (signal @ '' pipeline references unknown receiver '' @ str_debug pr receiver)) (pc_receivers pipeline)) (\<lambda>_.
     and_then (check_all (\<lambda>processor.
         ensure (processor \<in> fst ` set (ac_processors config))
           (signal @ '' pipeline references unknown processor '' @ str_debug pr processor)) (pc_processors pipeline)) (\<lambda>_.
     check_all (\<lambda>exporter.
         ensure (exporter \<in> fst ` set (ac_exporters config))
           (signal @ '' pipeline references unknown exporter '' @ str_debug pr exporter)) (pc_exporters pipeline))))"

fun validate_exporter ::
  "(nat \<Rightarrow> bool) \<Rightarrow> url_parser \<Rightarrow> string \<times> exporter_config \<Rightarrow> agent_config_error + unit"
where
  "validate_exporter pr parse (name, OtlpConfig endpoint auth) =
     and_then (ensure (trim endpoint \<noteq> []) (''exporter '' @ str_debug pr name @ '' has an empty OTLP endpoint'')) (\<lambda>_.
       case auth of None \<Rightarrow> Inr () | Some a \<Rightarrow> validate_otlp_auth pr parse name endpoint a)"
| "validate_exporter pr parse (name, SkidClientConfig addr) = Inr ()"
| "validate_exporter pr parse (name, LoggingConfig include_json) = Inr ()"

definition validate_log_source :: "nat \<times> database_log_source_config \<Rightarrow> agent_config_error + unit" where
  "validate_log_source = (\<lambda>(index, source).
     and_then (ensure (trim (ls_system source) \<noteq> [])
         (''database_logs source '' @ show_nat index @ '' has an empty system'')) (\<lambda>_.
     ensure (ls_path source \<noteq> []) (''database_logs source '' @ show_nat index @ '' has an empty path'')))"

definition agent_config_validate ::
  "(nat \<Rightarrow> bool) \<Rightarrow> url_parser \<Rightarrow> agent_config \<Rightarrow> agent_config_error + unit"
where
  "agent_config_validate pr parse c =
     (let pl = ac_pipelines c; dl = rv_database_logs (ac_receivers c) in
      and_then (ensure (ac_exporters c \<noteq> []) ''at least one exporter must be configured'') (\<lambda>_.
      and_then (validate_pipeline pr ''metrics'' (pl_metrics pl) c) (\<lambda>_.
      and_then (validate_pipeline pr ''traces'' (pl_traces pl) c) (\<lambda>_.
      and_then (validate_pipeline pr ''logs'' (pl_logs pl) c) (\<lambda>_.
      and_then (check_all (validate_exporter pr parse) (ac_exporters c)) (\<lambda>_.
      and_then (ensure (\<not> (dl_enabled dl \<and> dl_sources dl = []))
          ''database_logs receiver is enabled but has no sources'') (\<lambda>_.
      and_then (ensure (dl_max_line_bytes dl \<le> 16 * 1024 * 1024)
          ''database_logs max_line_bytes must not exceed 16 MiB'') (\<lambda>_.
      and_then (ensure (dl_max_read_bytes dl \<le> 64 * 1024 * 1024)
          ''database_logs max_read_bytes must not exceed 64 MiB'') (\<lambda>_.
      check_all validate_log_source (enumerate 0 (dl_sources dl)))))))))))"

definition apply_runtime_defaults :: "agent_config \<Rightarrow> agent_config" where
  "apply_runtime_defaults c =
     (let rv = ac_receivers c; so = rv_self_observation rv; dl = rv_database_logs rv;
          so = (if so_interval_secs so = 0 then so\<lparr>so_interval_secs := DEFAULT_CYCLE_INTERVAL_SECS\<rparr> else so);
          dl = (if dl_poll_interval_millis dl = 0
                then dl\<lparr>dl_poll_interval_millis := default_database_log_poll_interval_millis\<rparr> else dl);
          dl = (if dl_max_line_bytes dl = 0
                then dl\<lparr>dl_max_line_bytes := default_database_log_max_line_bytes\<rparr> else dl);
          dl = (if dl_max_read_bytes dl = 0
                then dl\<lparr>dl_max_read_bytes := default_database_log_max_read_bytes\<rparr> else dl)
      in c\<lparr>ac_receivers := rv\<lparr>rv_self_observation := so, rv_database_logs := dl\<rparr>\<rparr>)"

text \<open>The files of the host are read by \<open>read_to_string\<close> and parsed by \<open>from_str\<close>.\<close>

definition agent_config_load ::
  "(nat \<Rightarrow> bool) \<Rightarrow> url_parser \<Rightarrow> (string \<Rightarrow> io_error + string) \<Rightarrow> (string \<Rightarrow> string + agent_config) \<Rightarrow>
   environment \<Rightarrow> agent_config_error + agent_config"
where
  "agent_config_load pr parse read_to_string from_str env =
     and_then (case env CONFIG_ENV of
         Some path \<Rightarrow>
           and_then (map_err (ReadConfig path) (read_to_string path)) (\<lambda>source.
             map_err (ParseConfig path) (from_str source))
       | None \<Rightarrow> Inr (agent_config_default env)) (\<lambda>c.
       let c = apply_runtime_defaults c
       in map_ok (\<lambda>_. c) (agent_config_validate pr parse c))"

section \<open>Building the pipeline\<close>

datatype sequence = Ephemeral u64 | Durable durable_sequence

record otlp_exporter =
  oe_endpoint :: string
  oe_use_tls :: bool
  oe_auth :: "agent_auth_config option"
  oe_sequence :: sequence

text \<open>What the clients' libraries answer: the URL parser, the errors of \<open>Endpoint::from_shared\<close>, of
  \<open>tls_config\<close> and of the HTTP client builder, and the canonical form of a directory.\<close>

record clients =
  cl_parse :: url_parser
  cl_from_shared :: "string \<Rightarrow> string + unit"
  cl_tls_config :: "string \<Rightarrow> string + unit"
  cl_http_client :: "string + unit"
  cl_canonicalize :: "string \<Rightarrow> io_error + string"
  cl_is_dir :: "string \<Rightarrow> bool"

datatype build_error =
    EndpointInvalid
  | EndpointNotSecure
  | InvalidOtlpEndpoint string
  | ConfigureTls string
  | StatePathNotFile
  | ResolveParent string io_error
  | ParentNotDirectory string
  | OpenSequence seq_error
  | TokenUrlInvalid
  | TokenUrlNotSecure
  | BuildHttpClient string

definition path_parent :: "string \<Rightarrow> string" where
  "path_parent p =
     (if take 1 p = ''/'' then ''/'' else []) @ str_join ''/'' (butlast (path_components p))"

definition normalize_sequence_state_path :: "clients \<Rightarrow> string \<Rightarrow> build_error + string" where
  "normalize_sequence_state_path cl path =
     and_then (ok_or StatePathNotFile (path_file_name path)) (\<lambda>file_name.
     let parent = path_parent path; parent = (if parent = [] then ''.'' else parent) in
     and_then (map_err (ResolveParent parent) (cl_canonicalize cl parent)) (\<lambda>parent.
       if \<not> cl_is_dir cl parent then Inl (ParentNotDirectory parent)
       else Inr (parent @ (if parent \<noteq> [] \<and> last parent = CHR ''/'' then [] else ''/'') @ file_name)))"

definition sequence_durable :: "clients \<Rightarrow> int \<Rightarrow> string \<Rightarrow> host \<Rightarrow> (build_error + durable_sequence) \<times> host" where
  "sequence_durable cl clock path h =
     (case normalize_sequence_state_path cl path of
        Inl e \<Rightarrow> (Inl e, h)
      | Inr p \<Rightarrow> (case open_with_start p (initial_sequence clock) h of (r, h) \<Rightarrow> (map_err OpenSequence r, h)))"

definition token_provider_new :: "clients \<Rightarrow> agent_auth_config \<Rightarrow> build_error + unit" where
  "token_provider_new cl config =
     and_then (ok_or TokenUrlInvalid (cl_parse cl (trim (oc_token_url config)))) (\<lambda>u.
     if \<not> secure_url u then Inl TokenUrlNotSecure
     else map_err BuildHttpClient (cl_http_client cl))"

definition endpoint_checks :: "clients \<Rightarrow> string \<Rightarrow> bool \<Rightarrow> bool \<Rightarrow> build_error + unit" where
  "endpoint_checks cl endpoint use_tls authenticated =
     and_then (if \<not> authenticated then Inr ()
         else and_then (ok_or EndpointInvalid (cl_parse cl endpoint)) (\<lambda>u.
           if \<not> use_tls \<or> url_host u = None \<or> url_username u \<noteq> [] \<or> url_password u \<noteq> None \<or> url_fragment u \<noteq> None
           then Inl EndpointNotSecure else Inr ())) (\<lambda>_.
     and_then (map_err InvalidOtlpEndpoint (cl_from_shared cl endpoint)) (\<lambda>_.
       if use_tls then map_err ConfigureTls (cl_tls_config cl endpoint) else Inr ()))"

text \<open>A sequence that was opened is dropped, and its lock released, when the token provider cannot
  be built.\<close>

definition otlp_exporter_new ::
  "clients \<Rightarrow> int \<Rightarrow> string \<Rightarrow> agent_auth_config option \<Rightarrow> host \<Rightarrow> (build_error + otlp_exporter) \<times> host"
where
  "otlp_exporter_new cl clock endpoint auth h =
     (let endpoint = normalize_endpoint endpoint; use_tls = starts_with endpoint ''https://'' in
      case endpoint_checks cl endpoint use_tls (auth \<noteq> None) of
        Inl e \<Rightarrow> (Inl e, h)
      | Inr _ \<Rightarrow>
          (case auth of
             None \<Rightarrow>
               (Inr \<lparr>oe_endpoint = endpoint, oe_use_tls = use_tls, oe_auth = None,
                     oe_sequence = Ephemeral (ephemeral (initial_sequence clock))\<rparr>, h)
           | Some config \<Rightarrow>
               (case sequence_durable cl clock (oc_sequence_state_path config) h of
                  (Inl e, h) \<Rightarrow> (Inl e, h)
                | (Inr d, h) \<Rightarrow>
                    (case token_provider_new cl config of
                       Inl e \<Rightarrow> (Inl e, unlock (companion_lock_path (ds_state_path d)) h)
                     | Inr _ \<Rightarrow>
                         (Inr \<lparr>oe_endpoint = endpoint, oe_use_tls = use_tls, oe_auth = Some config,
                               oe_sequence = Durable d\<rparr>, h)))))"

text \<open>Dropping an exporter releases the lock of its sequence.\<close>

fun drop_sequence :: "sequence \<Rightarrow> host \<Rightarrow> host" where
  "drop_sequence (Ephemeral _) h = h"
| "drop_sequence (Durable d) h = unlock (companion_lock_path (ds_state_path d)) h"

text \<open>An OTLP exporter is shared: the map holds its place in the list \<open>table\<close> of built exporters.\<close>

fun build_exporters ::
  "clients \<Rightarrow> int \<Rightarrow> (string \<times> exporter_config) list \<Rightarrow> (string \<rightharpoonup> runtime_exporter) \<Rightarrow> otlp_exporter list \<Rightarrow> host \<Rightarrow>
   ((string \<times> build_error) + (string \<rightharpoonup> runtime_exporter) \<times> otlp_exporter list) \<times> host"
where
  "build_exporters cl clock [] inner table h = (Inr (inner, table), h)"
| "build_exporters cl clock ((name, SkidClientConfig addr) # rest) inner table h =
     build_exporters cl clock rest (inner(name \<mapsto> SkidClient addr)) table h"
| "build_exporters cl clock ((name, LoggingConfig include_json) # rest) inner table h =
     build_exporters cl clock rest (inner(name \<mapsto> Logging include_json)) table h"
| "build_exporters cl clock ((name, OtlpConfig endpoint auth) # rest) inner table h =
     (case otlp_exporter_new cl clock endpoint auth h of
        (Inl e, h) \<Rightarrow> (Inl (name, e), fold (drop_sequence \<circ> oe_sequence) table h)
      | (Inr x, h) \<Rightarrow> build_exporters cl clock rest (inner(name \<mapsto> Otlp (length table))) (table @ [x]) h)"

definition pipeline_from_config ::
  "clients \<Rightarrow> int \<Rightarrow> agent_config \<Rightarrow> host \<Rightarrow> ((string \<times> build_error) + signal_pipeline \<times> otlp_exporter list) \<times> host"
where
  "pipeline_from_config cl clock c h =
     (case build_exporters cl clock (ac_exporters c) Map.empty [] h of
        (Inl e, h) \<Rightarrow> (Inl e, h)
      | (Inr (exporters, table), h) \<Rightarrow>
          (Inr (\<lparr>sp_processors = map_of (ac_processors c), sp_metrics = pl_metrics (ac_pipelines c),
                 sp_traces = pl_traces (ac_pipelines c), sp_logs = pl_logs (ac_pipelines c),
                 sp_exporters = exporters\<rparr>, table), h))"

section \<open>Lemmas\<close>

lemma check_all_Inr [result_simps]: "check_all f xs = Inr () \<longleftrightarrow> (\<forall>x \<in> set xs. f x = Inr ())"
  by (induction xs) (auto simp: result_simps)

lemma ensure_Inr [result_simps]: "ensure ok message = Inr () \<longleftrightarrow> ok"
  by (simp add: ensure_def)

lemma build_exporters_domain:
  assumes "build_exporters cl clock xs inner table h = (Inr (m, table'), h')"
  shows "dom m = dom inner \<union> fst ` set xs"
  using assms
  by (induction cl clock xs inner table h arbitrary: m table' h' rule: build_exporters.induct)
    (auto split: prod.splits sum.splits)

lemma otlp_exporter_new_auth:
  assumes "otlp_exporter_new cl clock endpoint auth h = (Inr x, h')" and "oe_auth x = Some a"
  shows "auth = Some a \<and> oe_use_tls x \<and> starts_with (oe_endpoint x) ''https://'' \<and>
    (\<exists>u. cl_parse cl (trim (oc_token_url a)) = Some u \<and> secure_url u) \<and>
    (\<exists>u. cl_parse cl (oe_endpoint x) = Some u \<and> url_username u = [] \<and> url_password u = None) \<and>
    (\<exists>d. oe_sequence x = Durable d)"
  using assms
  by (auto simp: otlp_exporter_new_def endpoint_checks_def token_provider_new_def Let_def result_simps
      split: sum.splits option.splits prod.splits if_splits)

definition authenticated_ok :: "clients \<Rightarrow> otlp_exporter \<Rightarrow> bool" where
  "authenticated_ok cl x \<longleftrightarrow> (\<forall>a. oe_auth x = Some a \<longrightarrow>
     oe_use_tls x \<and> starts_with (oe_endpoint x) ''https://'' \<and>
     (\<exists>u. cl_parse cl (trim (oc_token_url a)) = Some u \<and> secure_url u) \<and>
     (\<exists>u. cl_parse cl (oe_endpoint x) = Some u \<and> url_username u = [] \<and> url_password u = None) \<and>
     (\<exists>d. oe_sequence x = Durable d))"

lemma build_exporters_table:
  assumes "build_exporters cl clock xs inner table h = (Inr (m, table'), h')"
    and "\<forall>x \<in> set table. authenticated_ok cl x"
    and "\<forall>n i. inner n = Some (Otlp i) \<longrightarrow> i < length table"
  shows "(\<forall>x \<in> set table'. authenticated_ok cl x) \<and> (\<forall>n i. m n = Some (Otlp i) \<longrightarrow> i < length table')"
  using assms
proof (induction cl clock xs inner table h arbitrary: m table' h' rule: build_exporters.induct)
  case (4 cl clock name endpoint auth rest inner table h)
  then obtain x h1 where x: "otlp_exporter_new cl clock endpoint auth h = (Inr x, h1)"
    by (auto split: sum.splits prod.splits)
  have "authenticated_ok cl x"
    using otlp_exporter_new_auth [OF x] by (auto simp: authenticated_ok_def)
  then show ?case
    using 4 x by (fastforce simp: less_Suc_eq)
qed (auto split: if_splits)

lemma export_one_not_missing: "export_one fx name x sg w = (Inl e, w') \<Longrightarrow> e \<noteq> MissingExporter"
  by (cases x) (auto simp: result_simps split: prod.splits sum.splits if_splits)

lemma exporters_export_missing:
  "exporters_export fx m name sg w = (Inl f, w') \<Longrightarrow> xf_error f = MissingExporter \<Longrightarrow> m name = None"
  by (auto simp: exporters_export_def result_simps split: option.splits prod.splits
      dest: export_one_not_missing)

lemma export_all_missing:
  assumes "export_all fx m sg names fs w = (fs', w')" and "set names \<subseteq> dom m" and "f \<in> set fs'"
  shows "f \<in> set fs \<or> xf_error f \<noteq> MissingExporter"
  using assms
proof (induction names arbitrary: fs w)
  case (Cons name names)
  obtain r w1 where r: "exporters_export fx m name sg w = (r, w1)" by fastforce
  show ?case
    using Cons r exporters_export_missing [of fx m name sg w] by (cases r) fastforce+
qed simp

lemma pipeline_export_missing:
  assumes "set (pc_exporters (pipeline_for p sg)) \<subseteq> dom (sp_exporters p)"
    and "pipeline_export fx p receiver sg w = (Inl e, w')" and "f \<in> set (pe_failures e)"
  shows "xf_error f \<noteq> MissingExporter"
  using assms export_all_missing
  by (fastforce simp: pipeline_export_def Let_def processors_keep_signal split: if_splits prod.splits)

lemma validate_pipeline_Inr:
  "validate_pipeline pr signal pl c = Inr () \<longleftrightarrow>
    pc_exporters pl \<noteq> [] \<and>
    set (pc_receivers pl) \<subseteq> {''self_observation'', ''device'', ''otlp'', ''database_logs''} \<and>
    set (pc_processors pl) \<subseteq> fst ` set (ac_processors c) \<and>
    set (pc_exporters pl) \<subseteq> fst ` set (ac_exporters c)"
  by (auto simp: validate_pipeline_def result_simps)

lemma agent_config_validate_Inr:
  assumes "agent_config_validate pr parse c = Inr ()"
  shows "(\<forall>pl \<in> {pl_metrics (ac_pipelines c), pl_traces (ac_pipelines c), pl_logs (ac_pipelines c)}.
      pc_exporters pl \<noteq> [] \<and> set (pc_exporters pl) \<subseteq> fst ` set (ac_exporters c)) \<and>
    (let dl = rv_database_logs (ac_receivers c) in
      dl_max_line_bytes dl \<le> 16 * 1024 * 1024 \<and> dl_max_read_bytes dl \<le> 64 * 1024 * 1024 \<and>
      (dl_enabled dl \<longrightarrow> dl_sources dl \<noteq> []))"
  using assms by (auto simp: agent_config_validate_def Let_def result_simps validate_pipeline_Inr)

lemma apply_runtime_defaults_positive:
  "so_interval_secs (rv_self_observation (ac_receivers (apply_runtime_defaults c))) \<noteq> 0 \<and>
   dl_poll_interval_millis (rv_database_logs (ac_receivers (apply_runtime_defaults c))) \<noteq> 0 \<and>
   0 < dl_max_line_bytes (rv_database_logs (ac_receivers (apply_runtime_defaults c))) \<and>
   0 < dl_max_read_bytes (rv_database_logs (ac_receivers (apply_runtime_defaults c)))"
  by (simp add: apply_runtime_defaults_def Let_def DEFAULT_CYCLE_INTERVAL_SECS_def
      default_database_log_poll_interval_millis_def default_database_log_max_line_bytes_def
      default_database_log_max_read_bytes_def)

lemma pipeline_from_config_routes:
  assumes "pipeline_from_config cl clock c h = (Inr (p, table), h')"
  shows "dom (sp_exporters p) = fst ` set (ac_exporters c) \<and>
    pipeline_for p sg \<in> {pl_metrics (ac_pipelines c), pl_traces (ac_pipelines c), pl_logs (ac_pipelines c)} \<and>
    (\<forall>x \<in> set table. authenticated_ok cl x) \<and> (\<forall>n i. sp_exporters p n = Some (Otlp i) \<longrightarrow> i < length table)"
proof -
  obtain m where m: "build_exporters cl clock (ac_exporters c) Map.empty [] h = (Inr (m, table), h')"
    and p: "p = \<lparr>sp_processors = map_of (ac_processors c), sp_metrics = pl_metrics (ac_pipelines c),
       sp_traces = pl_traces (ac_pipelines c), sp_logs = pl_logs (ac_pipelines c), sp_exporters = m\<rparr>"
    using assms by (auto simp: pipeline_from_config_def split: prod.splits sum.splits)
  show ?thesis
    using build_exporters_domain [OF m] build_exporters_table [OF m] p by (cases sg) auto
qed

lemma agent_config_load_Inr:
  assumes "agent_config_load pr parse read_to_string from_str env = Inr c"
  shows "agent_config_validate pr parse c = Inr () \<and> (\<exists>c0. c = apply_runtime_defaults c0)"
  using assms unfolding agent_config_load_def by (auto simp: result_simps Let_def split: option.splits)

section \<open>An authenticated cloud exporter\<close>

definition ex_auth :: agent_auth_config where
  "ex_auth = \<lparr>oc_token_url = ''t'', oc_client_id = ''a'', oc_client_secret_env = ''S'', oc_scope = None,
     oc_sequence_state_path = ''s''\<rparr>"

definition ex_pipeline_config :: pipeline_config where
  "ex_pipeline_config = \<lparr>pc_receivers = [''otlp''], pc_processors = [], pc_exporters = [''cloud'']\<rparr>"

definition ex_agent_config :: agent_config where
  "ex_agent_config = \<lparr>ac_receivers = receivers_default Map.empty, ac_processors = [],
     ac_exporters = [(''cloud'', OtlpConfig ''https://h'' (Some ex_auth))],
     ac_pipelines = \<lparr>pl_metrics = ex_pipeline_config, pl_traces = ex_pipeline_config, pl_logs = ex_pipeline_config\<rparr>\<rparr>"

definition ex_url :: url where
  "ex_url = \<lparr>url_scheme = ''https'', url_host = Some ''h'', url_username = [], url_password = None, url_path = ''/'',
     url_query = None, url_fragment = None, url_query_pairs = [], url_origin = ''https://h'', url_text = ''https://h/''\<rparr>"

definition ex_clients :: clients where
  "ex_clients = \<lparr>cl_parse = (\<lambda>_. Some ex_url), cl_from_shared = (\<lambda>_. Inr ()), cl_tls_config = (\<lambda>_. Inr ()),
     cl_http_client = Inr (), cl_canonicalize = (\<lambda>_. Inr ''/d''), cl_is_dir = (\<lambda>_. True)\<rparr>"

lemma ex_trims: "trim ''t'' = ''t''" "trim ''a'' = ''a''" "trim ''S'' = ''S''" "trim ''https://h'' = ''https://h''"
  by code_simp+

lemma ex_state_path: "normalize_sequence_state_path ex_clients ''s'' = Inr ''/d/s''" "path_file_name ''s'' = Some ''s''"
  by code_simp+

lemma ex_config_load:
  "agent_config_load (\<lambda>_. True) (cl_parse ex_clients) (\<lambda>_. Inr []) (\<lambda>_. Inr ex_agent_config)
     [CONFIG_ENV \<mapsto> ''c''] = Inr ex_agent_config"
proof -
  have "apply_runtime_defaults ex_agent_config = ex_agent_config"
    by (simp add: apply_runtime_defaults_def ex_agent_config_def receivers_default_def self_observation_default_def
        database_logs_default_def DEFAULT_CYCLE_INTERVAL_SECS_def default_database_log_poll_interval_millis_def
        default_database_log_max_line_bytes_def default_database_log_max_read_bytes_def Let_def)
  moreover have "agent_config_validate (\<lambda>_. True) (cl_parse ex_clients) ex_agent_config = Inr ()"
    by (simp add: agent_config_validate_def ex_agent_config_def receivers_default_def database_logs_default_def
        default_database_log_max_line_bytes_def default_database_log_max_read_bytes_def result_simps
        validate_pipeline_Inr ex_pipeline_config_def validate_otlp_auth_def ex_auth_def ex_trims ex_state_path
        ex_clients_def ex_url_def secure_url_def Let_def)
  ultimately show ?thesis
    by (simp add: agent_config_load_def)
qed

lemma ex_open: "fst (open_with_start ''/d/s'' 5 fresh_host) = Inr \<lparr>ds_state_path = ''/d/s'', ds_next = 5\<rparr>"
  by code_simp

lemma ex_pipeline_built:
  "\<exists>p h'. pipeline_from_config ex_clients 5 ex_agent_config fresh_host =
     (Inr (p, [\<lparr>oe_endpoint = ''https://h'', oe_use_tls = True, oe_auth = Some ex_auth,
        oe_sequence = Durable \<lparr>ds_state_path = ''/d/s'', ds_next = 5\<rparr>\<rparr>]), h') \<and> sp_exporters p ''cloud'' = Some (Otlp 0)"
proof -
  have start: "initial_sequence 5 = 5" by (simp add: initial_sequence_def)
  obtain h where "open_with_start ''/d/s'' 5 fresh_host = (Inr \<lparr>ds_state_path = ''/d/s'', ds_next = 5\<rparr>, h)"
    using ex_open by (metis prod.collapse)
  then have "sequence_durable ex_clients 5 ''s'' fresh_host = (Inr \<lparr>ds_state_path = ''/d/s'', ds_next = 5\<rparr>, h)"
    by (simp add: sequence_durable_def ex_state_path start)
  then show ?thesis
    by (simp add: pipeline_from_config_def ex_agent_config_def otlp_exporter_new_def normalize_endpoint_def ex_trims
        starts_with_def endpoint_checks_def token_provider_new_def ex_clients_def ex_url_def secure_url_def ex_auth_def Let_def)
qed

section \<open>Property\<close>

text \<open>C40: an agent that starts is completely and safely wired: after a configuration was loaded and
  the pipeline was built from it, no export can fail because an exporter is missing; every
  exporter that sends access tokens uses TLS to an endpoint without credentials, obtains its
  tokens over HTTPS and allocates durable sequence numbers; and the intervals and buffer
  sizes of the receivers are positive and bounded.\<close>

theorem started_agent_is_wired:
  assumes load: "agent_config_load pr parse read_to_string from_str env = Inr c"
    and built: "pipeline_from_config cl clock c h = (Inr (p, table), h')"
  shows "(\<forall>fx receiver sg w e w'. pipeline_export fx p receiver sg w = (Inl e, w') \<longrightarrow>
       (\<forall>f \<in> set (pe_failures e). xf_error f \<noteq> MissingExporter)) \<and>
    (\<forall>name i. sp_exporters p name = Some (Otlp i) \<longrightarrow> i < length table \<and>
       (\<forall>a. oe_auth (table ! i) = Some a \<longrightarrow>
          oe_use_tls (table ! i) \<and> starts_with (oe_endpoint (table ! i)) ''https://'' \<and>
          (\<exists>u. cl_parse cl (trim (oc_token_url a)) = Some u \<and> secure_url u) \<and>
          (\<exists>u. cl_parse cl (oe_endpoint (table ! i)) = Some u \<and> url_username u = [] \<and> url_password u = None) \<and>
          (\<exists>d. oe_sequence (table ! i) = Durable d))) \<and>
    so_interval_secs (rv_self_observation (ac_receivers c)) \<noteq> 0 \<and>
    dl_poll_interval_millis (rv_database_logs (ac_receivers c)) \<noteq> 0 \<and>
    dl_max_line_bytes (rv_database_logs (ac_receivers c)) \<in> {1..16 * 1024 * 1024} \<and>
    dl_max_read_bytes (rv_database_logs (ac_receivers c)) \<in> {1..64 * 1024 * 1024}"
proof -
  have c: "agent_config_validate pr parse c = Inr ()" and "\<exists>c0. c = apply_runtime_defaults c0"
    using agent_config_load_Inr [OF load] by blast+
  then obtain c0 where c0: "c = apply_runtime_defaults c0" by blast
  have routed: "set (pc_exporters (pipeline_for p sg)) \<subseteq> dom (sp_exporters p)" for sg
    using pipeline_from_config_routes [OF built, of sg] agent_config_validate_Inr [OF c] by auto
  have missing: "\<forall>fx receiver sg w e w'. pipeline_export fx p receiver sg w = (Inl e, w') \<longrightarrow>
      (\<forall>f \<in> set (pe_failures e). xf_error f \<noteq> MissingExporter)"
    by (intro allI impI ballI) (rule pipeline_export_missing [OF routed])
  show ?thesis
    using missing pipeline_from_config_routes [OF built] agent_config_validate_Inr [OF c]
      apply_runtime_defaults_positive [of c0] nth_mem
    unfolding c0 [symmetric] authenticated_ok_def Let_def atLeastAtMost_iff by (simp add: Suc_le_eq) blast
qed

theorem started_agent_is_wired_witness:
  "\<exists>p h'. pipeline_from_config ex_clients 5 ex_agent_config fresh_host =
     (Inr (p, [\<lparr>oe_endpoint = ''https://h'', oe_use_tls = True, oe_auth = Some ex_auth,
        oe_sequence = Durable \<lparr>ds_state_path = ''/d/s'', ds_next = 5\<rparr>\<rparr>]), h') \<and>
     starts_with ''https://h'' ''https://'' \<and> so_interval_secs (rv_self_observation (ac_receivers ex_agent_config)) \<noteq> 0"
proof -
  obtain p h' where p: "pipeline_from_config ex_clients 5 ex_agent_config fresh_host =
     (Inr (p, [\<lparr>oe_endpoint = ''https://h'', oe_use_tls = True, oe_auth = Some ex_auth,
        oe_sequence = Durable \<lparr>ds_state_path = ''/d/s'', ds_next = 5\<rparr>\<rparr>]), h')" "sp_exporters p ''cloud'' = Some (Otlp 0)"
    using ex_pipeline_built by blast
  from started_agent_is_wired [OF ex_config_load p(1)] p show ?thesis by fastforce
qed

end
