(* ===== verification/Database_Logs.thy ===== *)
theory Database_Logs
  imports Agent_Config
begin

text \<open>
  The database log receiver (\<open>skid-monitor-agent/src/database_logs.rs\<close>). A log file is tailed:
  every poll opens it, detects truncation and rotation, reads a bounded piece, cuts it into
  lines and exports them through the pipeline; a failed export restores the checkpoint. What
  the file system answers during one poll is the record \<open>log_file\<close>. The second half proves
  that a log that only grows is exported line by line, once and in order.
\<close>

section \<open>The tail of a file\<close>

definition ROTATION_FINGERPRINT_BYTES :: nat where "ROTATION_FINGERPRINT_BYTES = 64"

record tail_state =
  ts_initialized :: bool
  ts_offset :: u64
  ts_fingerprint :: "bytes option"
  ts_pending_line :: bytes
  ts_pending_line_truncated :: bool
  ts_unavailable :: bool

definition tail_default :: tail_state where
  "tail_default = \<lparr>ts_initialized = False, ts_offset = 0, ts_fingerprint = None, ts_pending_line = [],
     ts_pending_line_truncated = False, ts_unavailable = False\<rparr>"

record log_file =
  lf_open :: "io_error + unit"
  lf_len :: "io_error + u64"
  lf_rewind :: "io_error + unit"
  lf_read_exact :: "nat \<Rightarrow> io_error + bytes"
  lf_seek :: "u64 \<Rightarrow> io_error + unit"
  lf_read :: "u64 \<Rightarrow> nat \<Rightarrow> io_error + bytes"

definition file_fingerprint :: "log_file \<Rightarrow> u64 \<Rightarrow> io_error + bytes option" where
  "file_fingerprint f len =
     and_then (lf_rewind f) (\<lambda>_.
       map_ok Some (lf_read_exact f (min (unat len) ROTATION_FINGERPRINT_BYTES)))"

definition bytes_start_with :: "bytes \<Rightarrow> bytes \<Rightarrow> bool" where
  "bytes_start_with s p \<longleftrightarrow> take (length p) s = p"

definition fingerprint_replaced :: "bytes \<Rightarrow> bytes \<Rightarrow> bool" where
  "fingerprint_replaced previous current =
     (if length current \<ge> length previous then \<not> bytes_start_with current previous
      else \<not> bytes_start_with previous current)"

definition newline :: u8 where "newline = 0x0A"
definition carriage_return :: u8 where "carriage_return = 0x0D"

definition truncation_mark :: string where
  "truncation_mark = [CHR 0xE2, CHR 0x80, CHR 0xA6] @ '' [truncated]''"

definition without_cr :: "bytes \<Rightarrow> bytes" where
  "without_cr line = (if line \<noteq> [] \<and> last line = carriage_return then butlast line else line)"

fun complete_lines :: "nat \<Rightarrow> bytes \<Rightarrow> tail_state \<Rightarrow> string list \<times> tail_state" where
  "complete_lines max_line_bytes [] st = ([], st)"
| "complete_lines max_line_bytes (byte # bytes) st =
     (if byte = newline then
        (let line = without_cr (ts_pending_line st);
             done = (if line \<noteq> [] \<or> ts_pending_line_truncated st
                     then [from_utf8_lossy line @ (if ts_pending_line_truncated st then truncation_mark else [])]
                     else []);
             (lines, st) = complete_lines max_line_bytes bytes
               (st\<lparr>ts_pending_line := [], ts_pending_line_truncated := False\<rparr>)
         in (done @ lines, st))
      else if length (ts_pending_line st) < max_line_bytes then
        complete_lines max_line_bytes bytes (st\<lparr>ts_pending_line := ts_pending_line st @ [byte]\<rparr>)
      else complete_lines max_line_bytes bytes (st\<lparr>ts_pending_line_truncated := True\<rparr>))"

text \<open>The start position on the first poll, and the detection of truncation and rotation.\<close>

definition tail_position ::
  "log_start_position \<Rightarrow> u64 \<Rightarrow> bytes option \<Rightarrow> tail_state \<Rightarrow> tail_state"
where
  "tail_position start_at len fingerprint st =
     (if \<not> ts_initialized st then
        st\<lparr>ts_offset := (case start_at of Beginning \<Rightarrow> 0 | End \<Rightarrow> len), ts_fingerprint := fingerprint,
           ts_initialized := True\<rparr>
      else
        (let truncated = len < ts_offset st;
             replaced = (case (ts_fingerprint st, fingerprint) of
                 (Some previous, Some current) \<Rightarrow> fingerprint_replaced previous current | _ \<Rightarrow> False);
             st = (if truncated \<or> replaced
                   then st\<lparr>ts_offset := 0, ts_pending_line := [], ts_pending_line_truncated := False\<rparr> else st)
         in if fingerprint \<noteq> None then st\<lparr>ts_fingerprint := fingerprint\<rparr> else st))"

definition poll_source ::
  "log_file \<Rightarrow> log_start_position \<Rightarrow> nat \<Rightarrow> nat \<Rightarrow> tail_state \<Rightarrow> (io_error + string list) \<times> tail_state"
where
  "poll_source f start_at max_line_bytes max_read_bytes st =
     (case and_then (lf_open f) (\<lambda>_. and_then (lf_len f) (\<lambda>len. map_ok (Pair len) (file_fingerprint f len))) of
        Inl e \<Rightarrow> (Inl e, st)
      | Inr (len, fingerprint) \<Rightarrow>
          (let st = tail_position start_at len fingerprint st in
           if ts_offset st \<ge> len then (Inr [], st)
           else
             (case and_then (lf_seek f (ts_offset st)) (\<lambda>_.
                  lf_read f (ts_offset st) (min (unat (len - ts_offset st)) max_read_bytes)) of
                Inl e \<Rightarrow> (Inl e, st)
              | Inr bytes \<Rightarrow>
                  (case complete_lines max_line_bytes bytes
                       (st\<lparr>ts_offset := sat_add (ts_offset st) (of_nat (length bytes))\<rparr>) of
                     (lines, st) \<Rightarrow> (Inr lines, st)))))"

section \<open>Log records\<close>

definition string_attribute :: "string \<Rightarrow> string \<Rightarrow> key_value" where
  "string_attribute k v = KeyValue k (Some (string_value v)) 0"

definition normalized_database_system :: "database_log_source_config \<Rightarrow> string" where
  "normalized_database_system source = to_ascii_lowercase (trim (ls_system source))"

definition db_log_severity :: "string \<Rightarrow> i32 \<times> string" where
  "db_log_severity line =
     (let line = to_ascii_uppercase line in
      if str_contains line ''FATAL'' \<or> str_contains line ''PANIC'' then (21, ''FATAL'')
      else if str_contains line ''ERROR'' then (17, ''ERROR'')
      else if str_contains line ''WARN'' then (13, ''WARN'')
      else if str_contains line ''DEBUG'' then (5, ''DEBUG'')
      else if str_contains line ''TRACE'' then (1, ''TRACE'')
      else (9, ''INFO''))"

definition optional_attribute :: "string \<Rightarrow> string option \<Rightarrow> key_value list" where
  "optional_attribute k v = (case v of None \<Rightarrow> [] | Some s \<Rightarrow> [string_attribute k s])"

definition db_log_record :: "database_log_source_config \<Rightarrow> u64 \<Rightarrow> string \<Rightarrow> log_record" where
  "db_log_record source observed line =
     (let (severity_number, severity_text) = db_log_severity line in
      \<lparr>lr_time_unix_nano = 0, lr_observed_time_unix_nano = observed, lr_severity_number = severity_number,
       lr_severity_text = severity_text, lr_body = Some (string_value line),
       lr_attributes = [string_attribute ''db.system.name'' (normalized_database_system source),
         string_attribute ''log.file.path'' (from_utf8_lossy (as_bytes (ls_path source)))] @
         optional_attribute ''db.namespace'' (ls_namespace source),
       lr_dropped_attributes_count = 0, lr_flags = 0, lr_trace_id = [], lr_span_id = [],
       lr_event_name = ''database.log''\<rparr>)"

definition db_resource_attributes :: "database_log_source_config \<Rightarrow> key_value list" where
  "db_resource_attributes source =
     (let database_system = normalized_database_system source in
      [string_attribute ''service.name'' (unwrap_or (database_system @ ''-database'') (ls_service_name source)),
       string_attribute ''db.system.name'' database_system,
       string_attribute ''skid_monitor.source'' ''database_log''] @
      optional_attribute ''db.namespace'' (ls_namespace source) @
      optional_attribute ''service.instance.id'' (ls_instance source))"

definition export_request :: "database_log_source_config \<Rightarrow> u64 \<Rightarrow> string list \<Rightarrow> export_logs_request" where
  "export_request source observed lines =
     \<lparr>elr_resource_logs = [
       \<lparr>rl_resource = Some \<lparr>res_attributes = db_resource_attributes source, res_dropped_attributes_count = 0,
          res_entity_refs = []\<rparr>,
        rl_scope_logs = [
          \<lparr>sl_scope = Some \<lparr>is_name = ''skid-monitor-agent.database-logs'', is_version = [], is_attributes = [],
             is_dropped_attributes_count = 0\<rparr>,
           sl_log_records = map (db_log_record source observed) lines,
           sl_schema_url = []\<rparr>],
        rl_schema_url = []\<rparr>]\<rparr>"

datatype poll_error = SourceError io_error | ExportError pipeline_export_error

definition poll_and_export_source ::
  "'w effects \<Rightarrow> signal_pipeline \<Rightarrow> database_log_source_config \<Rightarrow> log_start_position \<Rightarrow> nat \<Rightarrow> nat \<Rightarrow>
   log_file \<Rightarrow> u64 \<Rightarrow> tail_state \<Rightarrow> 'w \<Rightarrow> (poll_error + nat) \<times> tail_state \<times> 'w"
where
  "poll_and_export_source fx p source start_at max_line_bytes max_read_bytes f now st w =
     (let checkpoint = st in
      case poll_source f start_at max_line_bytes max_read_bytes st of
        (Inl e, st) \<Rightarrow> (Inl (SourceError e), st, w)
      | (Inr lines, st) \<Rightarrow>
          if lines = [] then (Inr 0, st, w)
          else
            (case pipeline_export fx p DatabaseLogs (Logs (export_request source now lines)) w of
               (Inl e, w) \<Rightarrow> (Inl (ExportError e), checkpoint, w)
             | (Inr _, w) \<Rightarrow> (Inr (length lines), st, w)))"

text \<open>One tick of the receiver: every source is polled with its own state.\<close>

fun note_availability :: "poll_error + nat \<Rightarrow> tail_state \<Rightarrow> tail_state" where
  "note_availability (Inr _) st = st\<lparr>ts_unavailable := False\<rparr>"
| "note_availability (Inl (SourceError _)) st = st\<lparr>ts_unavailable := True\<rparr>"
| "note_availability (Inl (ExportError _)) st = st"

fun serve_tick ::
  "'w effects \<Rightarrow> signal_pipeline \<Rightarrow> database_logs_config \<Rightarrow> (log_file \<times> u64) list \<Rightarrow>
   (database_log_source_config \<times> tail_state) list \<Rightarrow> 'w \<Rightarrow> tail_state list \<times> 'w"
where
  "serve_tick fx p config ((f, now) # files) ((source, st) # sources) w =
     (case poll_and_export_source fx p source (dl_start_at config) (dl_max_line_bytes config)
         (dl_max_read_bytes config) f now st w of
        (r, st, w) \<Rightarrow>
          (case serve_tick fx p config files sources w of
             (sts, w) \<Rightarrow> (note_availability r st # sts, w)))"
| "serve_tick fx p config files sources w = ([], w)"

section \<open>Lines of a whole log\<close>

text \<open>The reference: cut the log at the newlines; what follows the last one is not complete yet.\<close>

fun split_lines :: "bytes \<Rightarrow> bytes list" where
  "split_lines [] = [[]]"
| "split_lines (b # bs) =
     (if b = newline then [] # split_lines bs
      else case split_lines bs of [] \<Rightarrow> [[b]] | line # rest \<Rightarrow> (b # line) # rest)"

definition render_line :: "nat \<Rightarrow> bytes \<Rightarrow> string list" where
  "render_line max_line_bytes raw =
     (let kept = without_cr (take max_line_bytes raw); cut = max_line_bytes < length raw
      in if kept = [] \<and> \<not> cut then []
         else [from_utf8_lossy kept @ (if cut then truncation_mark else [])])"

definition log_lines :: "nat \<Rightarrow> bytes \<Rightarrow> string list" where
  "log_lines max_line_bytes bs = concat (map (render_line max_line_bytes) (butlast (split_lines bs)))"

definition open_line :: "bytes \<Rightarrow> bytes" where
  "open_line bs = last (split_lines bs)"

lemma split_lines_nonempty [simp]: "split_lines bs \<noteq> []"
  by (induction bs) (auto split: list.splits)

lemma split_lines_append: "split_lines (xs @ ys) = butlast (split_lines xs) @ split_lines (open_line xs @ ys)"
proof (induction xs)
  case Nil
  then show ?case by (simp add: open_line_def)
next
  case (Cons b xs)
  obtain line rest where rest: "split_lines xs = line # rest"
    by (cases "split_lines xs") auto
  show ?case
    using Cons rest by (cases rest) (simp_all add: open_line_def)
qed

lemma log_lines_append: "log_lines m (xs @ ys) = log_lines m xs @ log_lines m (open_line xs @ ys)"
  by (simp add: log_lines_def split_lines_append [of xs ys] butlast_append)

lemma open_line_append: "open_line (xs @ ys) = open_line (open_line xs @ ys)"
  unfolding open_line_def by (subst split_lines_append) (simp add: open_line_def)

lemma split_lines_free: "newline \<notin> set r \<Longrightarrow> split_lines r = [r]"
  by (induction r) auto

lemma split_lines_line: "newline \<notin> set r \<Longrightarrow> split_lines (r @ newline # bs) = r # split_lines bs"
  by (induction r) auto

lemma open_line_free: "newline \<notin> set (open_line bs)"
  unfolding open_line_def by (induction bs) (auto split: list.splits if_splits)

text \<open>The buffer of the receiver holds what the bound allows of the open line.\<close>

definition buffers :: "nat \<Rightarrow> tail_state \<Rightarrow> bytes \<Rightarrow> bool" where
  "buffers m st r \<longleftrightarrow> ts_pending_line st = take m r \<and> ts_pending_line_truncated st = (m < length r)"

lemma complete_lines_reference:
  assumes "buffers m st r" and "newline \<notin> set r"
  shows "\<exists>st'. complete_lines m bs st = (log_lines m (r @ bs), st') \<and> buffers m st' (open_line (r @ bs)) \<and>
    st' = st\<lparr>ts_pending_line := ts_pending_line st', ts_pending_line_truncated := ts_pending_line_truncated st'\<rparr>"
  using assms
proof (induction bs arbitrary: st r)
  case Nil
  then show ?case by (simp add: log_lines_def open_line_def split_lines_free)
next
  case (Cons b bs)
  show ?case
  proof (cases "b = newline")
    case True
    let ?st = "st\<lparr>ts_pending_line := [], ts_pending_line_truncated := False\<rparr>"
    have "buffers m ?st []" by (simp add: buffers_def)
    from Cons.IH [OF this] obtain st' where st': "complete_lines m bs ?st = (log_lines m bs, st')"
      "buffers m st' (open_line bs)" "st' = ?st\<lparr>ts_pending_line := ts_pending_line st',
         ts_pending_line_truncated := ts_pending_line_truncated st'\<rparr>"
      by auto
    have "log_lines m (r @ b # bs) = render_line m r @ log_lines m bs" "open_line (r @ b # bs) = open_line bs"
      using True Cons.prems(2) by (simp_all add: log_lines_def open_line_def split_lines_line)
    then show ?thesis
      using True st' Cons.prems(1) by (auto simp: buffers_def render_line_def Let_def)
  next
    case False
    let ?st = "if length (ts_pending_line st) < m then st\<lparr>ts_pending_line := ts_pending_line st @ [b]\<rparr>
      else st\<lparr>ts_pending_line_truncated := True\<rparr>"
    have "buffers m ?st (r @ [b])" using Cons.prems(1) by (auto simp: buffers_def)
    moreover have "newline \<notin> set (r @ [b])" using Cons.prems(2) False by simp
    ultimately obtain st' where "complete_lines m bs ?st = (log_lines m (r @ b # bs), st')"
      "buffers m st' (open_line (r @ b # bs))"
      "st' = ?st\<lparr>ts_pending_line := ts_pending_line st', ts_pending_line_truncated := ts_pending_line_truncated st'\<rparr>"
      using Cons.IH [of ?st "r @ [b]"] by auto
    then show ?thesis using False by (auto split: if_splits)
  qed
qed

lemma complete_lines_chunk:
  assumes "buffers m st (open_line xs)"
  shows "\<exists>lines st'. complete_lines m bs st = (lines, st') \<and> log_lines m (xs @ bs) = log_lines m xs @ lines \<and>
    buffers m st' (open_line (xs @ bs)) \<and> ts_initialized st' = ts_initialized st \<and> ts_offset st' = ts_offset st \<and>
    ts_fingerprint st' = ts_fingerprint st"
proof -
  obtain st' where "complete_lines m bs st = (log_lines m (open_line xs @ bs), st')"
    "buffers m st' (open_line (open_line xs @ bs))"
    "st' = st\<lparr>ts_pending_line := ts_pending_line st', ts_pending_line_truncated := ts_pending_line_truncated st'\<rparr>"
    using complete_lines_reference [OF assms open_line_free] by blast
  then show ?thesis
    using log_lines_append [of m xs bs] open_line_append [of xs bs]
    by (metis (no_types, lifting) tail_state.ext_inject tail_state.surjective tail_state.update_convs(4,5))
qed

section \<open>Tailing a log that only grows\<close>

text \<open>During a poll the log grows from \<open>c\<close> to \<open>c'\<close>: the length that is reported lies in between, what
  is read is what the file holds, and a read returns something unless it is at the end.\<close>

definition reads_log :: "bytes \<Rightarrow> bytes \<Rightarrow> log_file \<Rightarrow> bool" where
  "reads_log c c' f \<longleftrightarrow> (\<exists>new. c' = c @ new) \<and>
     (\<forall>n. lf_len f = Inr n \<longrightarrow> length c \<le> unat n \<and> unat n \<le> length c') \<and>
     (\<forall>k bs. lf_read_exact f k = Inr bs \<longrightarrow> bs = take k c') \<and>
     (\<forall>at k bs. lf_read f at k = Inr bs \<longrightarrow> bs = take (length bs) (drop (unat at) c') \<and> length bs \<le> k \<and>
        (0 < k \<and> unat at < length c' \<longrightarrow> bs \<noteq> []))"

fun reads_growing :: "bytes \<Rightarrow> (log_file \<times> u64) list \<Rightarrow> bytes list \<Rightarrow> bytes \<Rightarrow> bool" where
  "reads_growing c [] cs c' \<longleftrightarrow> cs = [] \<and> c' = c"
| "reads_growing c ((f, now) # polls) cs c' \<longleftrightarrow>
     (case cs of [] \<Rightarrow> False | d # ds \<Rightarrow> reads_log c d f \<and> reads_growing d polls ds c')"

text \<open>The bodies of the records of a request, and the bodies of the requests the pipeline accepted
  over a run of polls.\<close>

definition log_bodies :: "export_logs_request \<Rightarrow> string list" where
  "log_bodies r = map (\<lambda>l. case lr_body l of Some (AnyValue (Some (StringValue s))) \<Rightarrow> s | _ \<Rightarrow> [])
     (concat (map sl_log_records (concat (map rl_scope_logs (elr_resource_logs r)))))"

fun tail_polls ::
  "'w effects \<Rightarrow> signal_pipeline \<Rightarrow> database_log_source_config \<Rightarrow> log_start_position \<Rightarrow> nat \<Rightarrow> nat \<Rightarrow>
   (log_file \<times> u64) list \<Rightarrow> tail_state \<Rightarrow> 'w \<Rightarrow> string list \<Rightarrow> tail_state \<times> 'w \<times> string list"
where
  "tail_polls fx p source start_at m k [] st w accepted = (st, w, accepted)"
| "tail_polls fx p source start_at m k ((f, now) # polls) st w accepted =
     (case poll_and_export_source fx p source start_at m k f now st w of
        (r, st', w') \<Rightarrow>
          tail_polls fx p source start_at m k polls (note_availability r st') w'
            (case (r, fst (poll_source f start_at m k st)) of
               (Inr _, Inr lines) \<Rightarrow> accepted @ log_bodies (export_request source now lines)
             | _ \<Rightarrow> accepted))"

lemma log_bodies_export [simp]: "log_bodies (export_request source now lines) = lines"
  by (simp add: log_bodies_def export_request_def db_log_record_def string_value_def split_beta Let_def comp_def)

text \<open>What has been consumed, from the start position to the offset, is exactly what was accepted,
  up to the open line in the buffer.\<close>

definition consumed :: "nat \<Rightarrow> tail_state \<Rightarrow> bytes \<Rightarrow> bytes" where
  "consumed start st c = drop start (take (unat (ts_offset st)) c)"

definition tail_inv :: "log_start_position \<Rightarrow> nat \<Rightarrow> bytes \<Rightarrow> nat \<Rightarrow> tail_state \<Rightarrow> string list \<Rightarrow> bool" where
  "tail_inv start_at m c start st accepted \<longleftrightarrow>
     unat (ts_offset st) \<le> length c \<and> start \<le> unat (ts_offset st) \<and>
     (start_at = Beginning \<longrightarrow> start = 0) \<and>
     (\<not> ts_initialized st \<longrightarrow> ts_offset st = 0) \<and>
     buffers m st (open_line (consumed start st c)) \<and> accepted = log_lines m (consumed start st c) \<and>
     (\<forall>fp. ts_fingerprint st = Some fp \<longrightarrow> (\<exists>rest. c = fp @ rest))"

lemma tail_inv_grow:
  assumes "tail_inv start_at m c start st accepted"
  shows "tail_inv start_at m (c @ new) start st accepted"
  using assms by (auto simp: tail_inv_def consumed_def)

lemma tail_inv_default: "tail_inv start_at m c 0 tail_default []"
  by (simp add: tail_inv_def tail_default_def consumed_def buffers_def log_lines_def open_line_def)

lemma tail_inv_note: "tail_inv start_at m c start (note_availability r st) accepted = tail_inv start_at m c start st accepted"
  by (cases "(r, st)" rule: note_availability.cases) (auto simp: tail_inv_def consumed_def buffers_def)

lemma fingerprint_growing: "\<not> fingerprint_replaced (take j c) (take k c)"
  by (auto simp: fingerprint_replaced_def bytes_start_with_def min_def)

text \<open>Positioning keeps the invariant: on the first poll the start position is fixed, and growth is
  not taken for truncation or rotation.\<close>

lemma tail_position_inv:
  assumes inv: "tail_inv start_at m c start st accepted"
    and len: "unat (ts_offset st) \<le> unat len" "unat len \<le> length c"
    and fp: "fp = take k c"
  shows "\<exists>start'. tail_inv start_at m c start' (tail_position start_at len (Some fp) st) accepted \<and>
    unat (ts_offset (tail_position start_at len (Some fp) st)) \<le> unat len \<and>
    ts_offset st \<le> ts_offset (tail_position start_at len (Some fp) st)"
proof -
  have pre: "\<exists>rest. c = fp @ rest" using fp by (metis append_take_drop_id)
  show ?thesis
  proof (cases "ts_initialized st")
    case True
    have "\<not> len < ts_offset st" using len(1) by (simp add: word_less_nat_alt)
    moreover have "\<not> fingerprint_replaced g fp" if "ts_fingerprint st = Some g" for g
    proof -
      have "g = take (length g) c" using inv that by (auto simp: tail_inv_def)
      then show ?thesis using fingerprint_growing fp by metis
    qed
    ultimately have "tail_position start_at len (Some fp) st = st\<lparr>ts_fingerprint := Some fp\<rparr>"
      using True by (simp add: tail_position_def Let_def split: option.split)
    then show ?thesis
      using inv len pre by (intro exI [of _ start]) (simp add: tail_inv_def consumed_def buffers_def)
  next
    case False
    have zero: "ts_offset st = 0" "start = 0" using inv False by (auto simp: tail_inv_def)
    have none: "accepted = []" "ts_pending_line st = []" "\<not> ts_pending_line_truncated st"
      using inv zero by (auto simp: tail_inv_def consumed_def buffers_def log_lines_def open_line_def)
    show ?thesis
      using False none pre len zero
      by (intro exI [of _ "case start_at of Beginning \<Rightarrow> 0 | End \<Rightarrow> unat len"])
        (auto simp: tail_position_def tail_inv_def consumed_def buffers_def log_lines_def open_line_def
          split: log_start_position.split)
  qed
qed

text \<open>Reading a piece at the offset extends what has been consumed by that piece.\<close>

lemma tail_read_inv:
  assumes inv: "tail_inv start_at m c start st accepted" and init: "ts_initialized st"
    and bs: "bs = take (length bs) (drop (unat (ts_offset st)) c)" and len: "length c < 2 ^ 64"
    and run: "complete_lines m bs (st\<lparr>ts_offset := sat_add (ts_offset st) (of_nat (length bs))\<rparr>) = (lines, st')"
  shows "tail_inv start_at m c start st' (accepted @ lines) \<and> unat (ts_offset st') = unat (ts_offset st) + length bs"
proof -
  let ?o = "unat (ts_offset st)"
  let ?st = "st\<lparr>ts_offset := sat_add (ts_offset st) (of_nat (length bs))\<rparr>"
  have le: "?o + length bs \<le> length c"
    using arg_cong [OF bs, of length] inv by (auto simp: tail_inv_def min_def split: if_splits)
  then have "unat (of_nat (length bs) :: u64) = length bs"
    using len by (simp add: unat_of_nat)
  then have off: "unat (ts_offset ?st) = ?o + length bs"
    using le len by (simp add: unat_sat_add)
  have "consumed start ?st c = consumed start st c @ bs"
    using bs inv unfolding consumed_def off by (simp add: tail_inv_def take_add)
  moreover have "buffers m ?st (open_line (consumed start st c))"
    using inv by (simp add: tail_inv_def buffers_def)
  ultimately obtain "log_lines m (consumed start ?st c) = accepted @ lines"
    "buffers m st' (open_line (consumed start ?st c))"
    and same: "ts_initialized st' = ts_initialized st" "ts_offset st' = ts_offset ?st" "ts_fingerprint st' = ts_fingerprint st"
    using complete_lines_chunk [of m ?st "consumed start st c" bs] run inv by (auto simp: tail_inv_def)
  then show ?thesis
    using inv init le off by (simp add: tail_inv_def consumed_def)
qed

lemma reads_growing_length: "reads_growing c polls cs c' \<Longrightarrow> length c \<le> length c'"
proof (induction c polls cs c' rule: reads_growing.induct)
  case (2 c f now polls cs c')
  then show ?case by (cases cs) (fastforce simp: reads_log_def)+
qed simp

lemma poll_source_inv:
  assumes inv: "tail_inv start_at m c start st accepted" and f: "reads_log c c' f" and len: "length c' < 2 ^ 64"
    and run: "poll_source f start_at m k st = (r, st')"
  shows "\<exists>start'. tail_inv start_at m c' start' st' (accepted @ (case r of Inr lines \<Rightarrow> lines | Inl _ \<Rightarrow> [])) \<and>
    (is_ok r \<and> 0 < k \<longrightarrow> (\<exists>n. lf_len f = Inr n \<and> (n \<le> ts_offset st' \<or> ts_offset st < ts_offset st')))"
proof -
  have grown: "tail_inv start_at m c' start st accepted"
    using tail_inv_grow [OF inv] f by (auto simp: reads_log_def)
  show ?thesis
  proof (cases "and_then (lf_open f) (\<lambda>_. and_then (lf_len f) (\<lambda>len. map_ok (Pair len) (file_fingerprint f len)))")
    case (Inl e)
    then show ?thesis using run grown by (auto simp: poll_source_def)
  next
    case (Inr x)
    then obtain n fp j where n: "lf_len f = Inr n" and x: "x = (n, Some fp)" and "lf_read_exact f j = Inr fp"
      by (auto simp: result_simps file_fingerprint_def)
    then have fp: "fp = take j c'" using f unfolding reads_log_def by blast
    let ?st = "tail_position start_at n (Some fp) st"
    have bounds: "unat (ts_offset st) \<le> unat n" "unat n \<le> length c'"
      using f n inv by (fastforce simp: reads_log_def tail_inv_def)+
    obtain start' where start': "tail_inv start_at m c' start' ?st accepted" "unat (ts_offset ?st) \<le> unat n"
      and keep: "ts_offset st \<le> ts_offset ?st"
      using tail_position_inv [OF grown bounds fp] by blast
    have init: "ts_initialized ?st" by (simp add: tail_position_def Let_def)
    show ?thesis
    proof (cases "ts_offset ?st \<ge> n \<or> isl (and_then (lf_seek f (ts_offset ?st)) (\<lambda>_.
        lf_read f (ts_offset ?st) (min (unat (n - ts_offset ?st)) k)))")
      case True
      then show ?thesis
        using run Inr x n start' unfolding poll_source_def
        by (intro exI [of _ start']) (auto simp: Let_def split: sum.splits if_splits prod.splits)
    next
      case False
      then obtain bs where bs: "and_then (lf_seek f (ts_offset ?st)) (\<lambda>_.
          lf_read f (ts_offset ?st) (min (unat (n - ts_offset ?st)) k)) = Inr bs"
        by (auto simp: isl_def) (metis obj_sumE)
      obtain lines where lines: "complete_lines m bs
          (?st\<lparr>ts_offset := sat_add (ts_offset ?st) (of_nat (length bs))\<rparr>) = (lines, st')" "r = Inr lines"
        using run Inr x bs False unfolding poll_source_def by (auto simp: Let_def split: prod.splits)
      have "lf_read f (ts_offset ?st) (min (unat (n - ts_offset ?st)) k) = Inr bs"
        using bs by (auto simp: result_simps)
      moreover have "0 < unat (n - ts_offset ?st)" "unat (ts_offset ?st) < length c'"
        using False bounds(2) by (auto simp: word_le_nat_alt unat_gt_0)
      ultimately have piece: "bs = take (length bs) (drop (unat (ts_offset ?st)) c')"
        and some: "0 < k \<Longrightarrow> 0 < length bs"
        using f unfolding reads_log_def by (metis, metis min_less_iff_conj length_greater_0_conv)
      show ?thesis
        using tail_read_inv [OF start'(1) init piece len lines(1)] some keep lines(2) n
        by (intro exI [of _ start']) (auto simp: word_le_nat_alt word_less_nat_alt simp del: length_greater_0_conv)
    qed
  qed
qed

lemma poll_and_export_inv:
  assumes inv: "tail_inv start_at m c start st accepted" and f: "reads_log c c' f" and len: "length c' < 2 ^ 64"
    and run: "poll_and_export_source fx p source start_at m k f now st w = (r, st', w')"
  shows "\<exists>start'. tail_inv start_at m c' start' st' (case (r, fst (poll_source f start_at m k st)) of
      (Inr _, Inr lines) \<Rightarrow> accepted @ log_bodies (export_request source now lines) | _ \<Rightarrow> accepted)"
proof -
  obtain q st1 where q: "poll_source f start_at m k st = (q, st1)" by fastforce
  obtain start' where start': "tail_inv start_at m c' start' st1 (accepted @ (case q of Inr lines \<Rightarrow> lines | Inl _ \<Rightarrow> []))"
    using poll_source_inv [OF inv f len q] by blast
  have grown: "tail_inv start_at m c' start st accepted"
    using tail_inv_grow [OF inv] f by (auto simp: reads_log_def)
  show ?thesis
    using run q start' grown unfolding poll_and_export_source_def
    by (cases q) (auto split: if_splits sum.splits prod.splits)
qed

lemma tail_polls_inv:
  assumes "tail_polls fx p source start_at m k polls st w accepted = (st', w', accepted')"
    and "tail_inv start_at m c start st accepted" and "reads_growing c polls cs c'" and "length c' < 2 ^ 64"
  shows "\<exists>start'. tail_inv start_at m c' start' st' accepted'"
  using assms
proof (induction polls arbitrary: c cs start st w accepted)
  case (Cons poll polls)
  obtain f now d ds where poll: "poll = (f, now)" "cs = d # ds" "reads_log c d f" "reads_growing d polls ds c'"
    using Cons.prems(3) by (cases poll; cases cs) auto
  have d: "length d < 2 ^ 64"
    using reads_growing_length [OF poll(4)] Cons.prems(4) by simp
  obtain r st1 w1 where r: "poll_and_export_source fx p source start_at m k f now st w = (r, st1, w1)"
    by (metis prod_cases3)
  show ?case
    using poll_and_export_inv [OF Cons.prems(2) poll(3) d r] Cons.IH [OF _ _ poll(4) Cons.prems(4)] Cons.prems(1) r poll(1)
    by (fastforce simp: tail_inv_note)
qed auto

section \<open>A log of one line\<close>

definition ex_log :: bytes where "ex_log = [0x61, 0x0D, 0x0A, 0x62]"

definition ex_log_file :: log_file where
  "ex_log_file = \<lparr>lf_open = Inr (), lf_len = Inr 4, lf_rewind = Inr (), lf_read_exact = (\<lambda>k. Inr (take k ex_log)),
     lf_seek = (\<lambda>_. Inr ()), lf_read = (\<lambda>at k. Inr (take k (drop (unat at) ex_log)))\<rparr>"

definition ex_log_source :: database_log_source_config where
  "ex_log_source = \<lparr>ls_system = ''pg'', ls_path = ''l'', ls_namespace = None, ls_service_name = None, ls_instance = None\<rparr>"

definition ex_log_pipeline :: signal_pipeline where
  "ex_log_pipeline = two_exporters\<lparr>sp_logs := \<lparr>pc_receivers = [''database_logs''], pc_processors = [], pc_exporters = [''debug'']\<rparr>\<rparr>"

lemma ex_log_reads: "reads_log ex_log ex_log ex_log_file"
proof -
  have len: "length ex_log = 4" by (simp add: ex_log_def)
  then have cut: "take k (drop a ex_log) = take (min (4 - a) k) (drop a ex_log)" for k a by (simp add: min_def)
  show ?thesis by (simp add: reads_log_def ex_log_file_def len) (use cut in blast)
qed

lemma ex_log_cut:
  "complete_lines 10 ex_log (tail_default\<lparr>ts_initialized := True, ts_offset := 4, ts_fingerprint := Some ex_log\<rparr>) =
     ([''a''], \<lparr>ts_initialized = True, ts_offset = 4, ts_fingerprint = Some ex_log, ts_pending_line = [0x62],
        ts_pending_line_truncated = False, ts_unavailable = False\<rparr>)"
  by code_simp

lemma ex_log_polled:
  "poll_source ex_log_file Beginning 10 100 tail_default =
     (Inr [''a''], \<lparr>ts_initialized = True, ts_offset = 4, ts_fingerprint = Some ex_log, ts_pending_line = [0x62],
        ts_pending_line_truncated = False, ts_unavailable = False\<rparr>)"
proof -
  have "take 4 ex_log = ex_log" "length ex_log = 4" by (simp_all add: ex_log_def)
  then show ?thesis
    using ex_log_cut
    by (simp add: poll_source_def ex_log_file_def file_fingerprint_def ROTATION_FINGERPRINT_BYTES_def tail_position_def
        tail_default_def sat_add_def)
qed

lemma ex_log_exported:
  "tail_polls quiet_effects ex_log_pipeline ex_log_source Beginning 10 100 [(ex_log_file, 7)] tail_default 0 [] =
     (\<lparr>ts_initialized = True, ts_offset = 4, ts_fingerprint = Some ex_log, ts_pending_line = [0x62],
        ts_pending_line_truncated = False, ts_unavailable = False\<rparr>, 1, [''a''])"
  by (simp add: poll_and_export_source_def ex_log_polled pipeline_export_def ex_log_pipeline_def two_exporters_def
      quiet_effects_def exporters_export_def Let_def)

section \<open>Property\<close>



end
