(* ===== verification/Signal_Core.thy ===== *)
theory Signal_Core
  imports Otlp_Model "HOL-Library.Multiset"
begin

text \<open>
  The backend-neutral domain model (\<open>skid-monitor-core/src/envelope.rs\<close>,
  \<open>projection.rs\<close>, \<open>store.rs\<close>): identifiers, envelopes, the signal projection with its
  saturating counters, and the outcome and record types of the store traits. Identifiers
  drawn at random and the clock are arguments.
\<close>

section \<open>Identifiers and envelopes\<close>

type_synonym uuid = "128 word"

definition MAX_AGENT_ID_BYTES :: nat where "MAX_AGENT_ID_BYTES = 255"

datatype event_id = EventId (event_uuid: uuid)
datatype tenant_id = TenantId (tenant_uuid: uuid)
datatype agent_id = AgentId (agent_id_str: string)

datatype id_error = IdEmpty | IdTooLong nat | IdControlCharacter

definition agent_id_new :: "string \<Rightarrow> id_error + agent_id" where
  "agent_id_new value =
     (let trimmed = trim value in
      if trimmed = [] then Inl IdEmpty
      else if length trimmed > MAX_AGENT_ID_BYTES then Inl (IdTooLong MAX_AGENT_ID_BYTES)
      else if has_control trimmed then Inl IdControlCharacter
      else Inr (AgentId trimmed))"

fun id_error_display :: "id_error \<Rightarrow> string" where
  "id_error_display IdEmpty = ''identifier must not be empty''"
| "id_error_display (IdTooLong m) = ''identifier must be at most '' @ show_nat m @ '' bytes''"
| "id_error_display IdControlCharacter = ''identifier must not contain control characters''"

datatype signal_scope = Solo | Tenant tenant_id

fun scope_tenant_id :: "signal_scope \<Rightarrow> tenant_id option" where
  "scope_tenant_id Solo = None"
| "scope_tenant_id (Tenant t) = Some t"

datatype signal_kind = MetricsKind | TracesKind | LogsKind

record signal_envelope =
  env_event_id :: event_id
  env_scope :: signal_scope
  env_agent_id :: agent_id
  env_sequence :: u64
  env_received_at_unix_nano :: u64
  env_payload :: signal

definition signal_envelope_new ::
  "uuid \<Rightarrow> signal_scope \<Rightarrow> agent_id \<Rightarrow> u64 \<Rightarrow> u64 \<Rightarrow> signal \<Rightarrow> signal_envelope"
where
  "signal_envelope_new random scope agent_id sequence received_at_unix_nano payload =
     \<lparr>env_event_id = EventId random, env_scope = scope, env_agent_id = agent_id,
      env_sequence = sequence, env_received_at_unix_nano = received_at_unix_nano,
      env_payload = payload\<rparr>"

definition now_unix_nano :: "int \<Rightarrow> u64" where
  "now_unix_nano clock = of_nat (min (if clock < 0 then 0 else nat clock) (2 ^ 64 - 1))"

definition signal_envelope_now ::
  "uuid \<Rightarrow> int \<Rightarrow> signal_scope \<Rightarrow> agent_id \<Rightarrow> u64 \<Rightarrow> signal \<Rightarrow> signal_envelope"
where
  "signal_envelope_now random clock scope agent_id sequence payload =
     signal_envelope_new random scope agent_id sequence (now_unix_nano clock) payload"

definition envelope_kind :: "signal_envelope \<Rightarrow> signal_kind" where
  "envelope_kind e = (case env_payload e of
     Metrics _ \<Rightarrow> MetricsKind | Traces _ \<Rightarrow> TracesKind | Logs _ \<Rightarrow> LogsKind)"

section \<open>Store outcomes\<close>

type_synonym signal_cursor = u64

record append_outcome =
  ao_cursor :: signal_cursor
  ao_inserted :: bool

record signal_record =
  sr_cursor :: signal_cursor
  sr_envelope :: signal_envelope

section \<open>The projection\<close>

record signal_counters =
  sc_metric_batches :: u64
  sc_metric_points :: u64
  sc_trace_batches :: u64
  sc_spans :: u64
  sc_log_batches :: u64
  sc_log_records :: u64

definition signal_counters_default :: signal_counters where
  "signal_counters_default =
     \<lparr>sc_metric_batches = 0, sc_metric_points = 0, sc_trace_batches = 0, sc_spans = 0,
      sc_log_batches = 0, sc_log_records = 0\<rparr>"

definition metric_data_point_count :: "otlp_metric \<Rightarrow> u64" where
  "metric_data_point_count m = (case om_data m of
     Some (Gauge ps) \<Rightarrow> of_nat (length ps)
   | Some (Sum ps _ _) \<Rightarrow> of_nat (length ps)
   | Some (Histogram ps _) \<Rightarrow> of_nat (length ps)
   | Some (ExponentialHistogram ps _) \<Rightarrow> of_nat (length ps)
   | Some (Summary ps) \<Rightarrow> of_nat (length ps)
   | None \<Rightarrow> 0)"

fun counters_observe :: "signal_counters \<Rightarrow> signal \<Rightarrow> signal_counters" where
  "counters_observe c (Metrics request) =
     (let count = sum_list (map metric_data_point_count (all_metrics request)) in
      c\<lparr>sc_metric_batches := sat_add (sc_metric_batches c) 1,
        sc_metric_points := sat_add (sc_metric_points c) count\<rparr>)"
| "counters_observe c (Traces request) =
     (let count = sum_list (map (\<lambda>s. of_nat (length (ss_spans s)))
                    (concat (map rs_scope_spans (etr_resource_spans request)))) in
      c\<lparr>sc_trace_batches := sat_add (sc_trace_batches c) 1,
        sc_spans := sat_add (sc_spans c) count\<rparr>)"
| "counters_observe c (Logs request) =
     (let count = sum_list (map (\<lambda>s. of_nat (length (sl_log_records s)))
                    (concat (map rl_scope_logs (elr_resource_logs request)))) in
      c\<lparr>sc_log_batches := sat_add (sc_log_batches c) 1,
        sc_log_records := sat_add (sc_log_records c) count\<rparr>)"

record agent_signal_projection =
  asp_agent_id :: agent_id
  asp_last_sequence :: u64
  asp_last_received_at_unix_nano :: u64
  asp_counters :: signal_counters

record signal_projection =
  sp_counters :: signal_counters
  sp_agents :: "agent_id \<rightharpoonup> agent_signal_projection"

definition signal_projection_default :: signal_projection where
  "signal_projection_default = \<lparr>sp_counters = signal_counters_default, sp_agents = Map.empty\<rparr>"

definition agent_projection_new :: "agent_id \<Rightarrow> agent_signal_projection" where
  "agent_projection_new agent_id =
     \<lparr>asp_agent_id = agent_id, asp_last_sequence = 0, asp_last_received_at_unix_nano = 0,
      asp_counters = signal_counters_default\<rparr>"

definition projection_observe :: "signal_envelope \<Rightarrow> signal_projection \<Rightarrow> signal_projection" where
  "projection_observe e p =
     (let agent = unwrap_or (agent_projection_new (env_agent_id e)) (sp_agents p (env_agent_id e));
          agent' = agent\<lparr>
            asp_last_sequence := max (asp_last_sequence agent) (env_sequence e),
            asp_last_received_at_unix_nano :=
              max (asp_last_received_at_unix_nano agent) (env_received_at_unix_nano e),
            asp_counters := counters_observe (asp_counters agent) (env_payload e)\<rparr>
      in \<lparr>sp_counters = counters_observe (sp_counters p) (env_payload e),
          sp_agents = (sp_agents p)(env_agent_id e \<mapsto> agent')\<rparr>)"

section \<open>Facts about agent identifiers\<close>

lemma agent_id_new_Inr:
  "agent_id_new v = Inr a \<longleftrightarrow>
     a = AgentId (trim v) \<and> trim v \<noteq> [] \<and> length (trim v) \<le> MAX_AGENT_ID_BYTES \<and>
     \<not> has_control (trim v)"
  by (auto simp: agent_id_new_def Let_def)

section \<open>Facts about the projection\<close>

lemma sat_add_assoc_commute:
  "sat_add (sat_add a b) c = sat_add (sat_add a c) b" for a :: "'a::len word"
  unfolding word_unat_eq_iff unat_sat_add by linarith

lemma counters_observe_commute:
  "counters_observe (counters_observe c s) t = counters_observe (counters_observe c t) s"
  by (cases s; cases t) (simp_all add: Let_def sat_add_assoc_commute)

lemma projection_observe_commute:
  "projection_observe e (projection_observe d p) = projection_observe d (projection_observe e p)"
proof (cases "env_agent_id d = env_agent_id e")
  case True
  then show ?thesis
    by (simp add: projection_observe_def Let_def counters_observe_commute max.left_commute max.commute)
next
  case False
  then show ?thesis
    by (simp add: projection_observe_def Let_def counters_observe_commute fun_upd_twist)
qed

lemma projection_agent_step:
  "sp_agents (projection_observe e p) a =
    (if a = env_agent_id e
     then let agent = unwrap_or (agent_projection_new a) (sp_agents p a) in
       Some (agent\<lparr>
            asp_last_sequence := max (asp_last_sequence agent) (env_sequence e),
            asp_last_received_at_unix_nano :=
              max (asp_last_received_at_unix_nano agent) (env_received_at_unix_nano e),
            asp_counters := counters_observe (asp_counters agent) (env_payload e)\<rparr>)
     else sp_agents p a)"
  by (simp add: projection_observe_def Let_def)

lemma Max_map_snoc:
  "xs \<noteq> [] \<Longrightarrow> Max (set (map f (xs @ [x]))) = max (Max (set (map f xs))) (f x)"
  for f :: "'a \<Rightarrow> 'b::linorder"
  by (simp add: max.commute)

definition batches :: "signal_counters \<Rightarrow> nat" where
  "batches c = unat (sc_metric_batches c) + unat (sc_trace_batches c) + unat (sc_log_batches c)"

lemma batches_observe_le: "batches (counters_observe c s) \<le> batches c + 1"
  by (cases s) (simp_all add: Let_def batches_def unat_sat_add)

lemma batches_observe:
  assumes "batches c < 2 ^ 64 - 1"
  shows "batches (counters_observe c s) = batches c + 1"
  using assms by (cases s) (simp_all add: Let_def batches_def unat_sat_add)

section \<open>Properties\<close>

text \<open>C27: an accepted agent identifier is trimmed, non-empty, at most 255 bytes and free of
  control characters, and constructing an identifier from its text gives it back, so
  printing and parsing identifiers round-trips.\<close>

theorem agent_id_new_canonical:
  assumes "agent_id_new v = Inr a"
  shows "agent_id_str a = trim v \<and> agent_id_str a \<noteq> [] \<and> length (agent_id_str a) \<le> 255 \<and>
    \<not> has_control (agent_id_str a) \<and> agent_id_new (agent_id_str a) = Inr a"
  using assms by (auto simp: agent_id_new_Inr MAX_AGENT_ID_BYTES_def)

theorem agent_id_new_canonical_witness:
  "agent_id_new '' edge-1 '' = Inr (AgentId ''edge-1'') \<and>
   agent_id_new (agent_id_str (AgentId ''edge-1'')) = Inr (AgentId ''edge-1'')"
proof -
  have "agent_id_new '' edge-1 '' = Inr (AgentId ''edge-1'')"
    by (simp add: agent_id_new_def trim_def trim_end_def trim_start.simps trim_rev.simps ws1_def ws2_def
        ws3_def code_def MAX_AGENT_ID_BYTES_def)
  then show ?thesis
    using agent_id_new_canonical by blast
qed

text \<open>C28: the projection does not depend on the order in which envelopes arrive: any two
  arrival orders of the same envelopes give the same counters, the same last sequence and
  the same last reception time for every agent.\<close>

theorem projection_order_independent:
  assumes "mset es = mset ds"
  shows "fold projection_observe es p = fold projection_observe ds p"
proof -
  have "fold projection_observe es = fold projection_observe ds"
    by (rule fold_multiset_equiv [OF _ assms]) (auto simp: projection_observe_commute)
  then show ?thesis by simp
qed

theorem projection_order_independent_witness:
  "fold projection_observe
     [signal_envelope_new 1 Solo (AgentId ''a'') 4 9 (Traces \<lparr>etr_resource_spans = []\<rparr>),
      signal_envelope_new 2 Solo (AgentId ''a'') 3 8 (Logs \<lparr>elr_resource_logs = []\<rparr>)]
     signal_projection_default =
   fold projection_observe
     [signal_envelope_new 2 Solo (AgentId ''a'') 3 8 (Logs \<lparr>elr_resource_logs = []\<rparr>),
      signal_envelope_new 1 Solo (AgentId ''a'') 4 9 (Traces \<lparr>etr_resource_spans = []\<rparr>)]
     signal_projection_default"
  by (rule projection_order_independent) simp

text \<open>C29: the projection tracks every agent by its own envelopes only: an agent is present
  exactly when one of its envelopes was observed, its last sequence and last reception time
  are the maxima over its envelopes, and its counters are those of its own payloads.\<close>

theorem projection_tracks_agents:
  "sp_agents (fold projection_observe es signal_projection_default) a =
    (let own = filter (\<lambda>e. env_agent_id e = a) es in
     if own = [] then None
     else Some \<lparr>asp_agent_id = a,
       asp_last_sequence = Max (set (map env_sequence own)),
       asp_last_received_at_unix_nano = Max (set (map env_received_at_unix_nano own)),
       asp_counters = foldl counters_observe signal_counters_default (map env_payload own)\<rparr>)"
proof (induction es rule: rev_induct)
  case Nil
  then show ?case by (simp add: signal_projection_default_def)
next
  case (snoc e es)
  define own where "own = filter (\<lambda>e. env_agent_id e = a) es"
  have filt: "filter (\<lambda>e. env_agent_id e = a) (es @ [e]) =
      (if env_agent_id e = a then own @ [e] else own)"
    by (simp add: own_def)
  have ih: "sp_agents (fold projection_observe es signal_projection_default) a =
      (if own = [] then None
       else Some \<lparr>asp_agent_id = a,
         asp_last_sequence = Max (set (map env_sequence own)),
         asp_last_received_at_unix_nano = Max (set (map env_received_at_unix_nano own)),
         asp_counters = foldl counters_observe signal_counters_default (map env_payload own)\<rparr>)"
    using snoc unfolding own_def Let_def .
  have fm: "foldl counters_observe d (map env_payload (own @ [e])) =
      counters_observe (foldl counters_observe d (map env_payload own)) (env_payload e)" for d
    by simp
  have "sp_agents (fold projection_observe (es @ [e]) signal_projection_default) a =
      (let own' = if env_agent_id e = a then own @ [e] else own in
       if own' = [] then None
       else Some \<lparr>asp_agent_id = a,
         asp_last_sequence = Max (set (map env_sequence own')),
         asp_last_received_at_unix_nano = Max (set (map env_received_at_unix_nano own')),
         asp_counters = foldl counters_observe signal_counters_default (map env_payload own')\<rparr>)"
  proof (cases "env_agent_id e = a")
    case True
    have step: "sp_agents (fold projection_observe (es @ [e]) signal_projection_default) a =
        (let agent = unwrap_or (agent_projection_new a)
           (sp_agents (fold projection_observe es signal_projection_default) a) in
         Some (agent\<lparr>
            asp_last_sequence := max (asp_last_sequence agent) (env_sequence e),
            asp_last_received_at_unix_nano :=
              max (asp_last_received_at_unix_nano agent) (env_received_at_unix_nano e),
            asp_counters := counters_observe (asp_counters agent) (env_payload e)\<rparr>))"
      using True by (simp add: projection_agent_step)
    show ?thesis
    proof (cases "own = []")
      case own: True
      then show ?thesis
        using True unfolding step ih by (simp add: agent_projection_new_def)
    next
      case own: False
      then show ?thesis
        using True Max_map_snoc [OF own, of env_sequence e]
          Max_map_snoc [OF own, of env_received_at_unix_nano e]
        by (simp only: step ih Let_def fm if_True if_False unwrap_or.simps) simp
    qed
  next
    case False
    then have "a \<noteq> env_agent_id e" by simp
    then show ?thesis
      using False by (simp add: projection_agent_step ih Let_def)
  qed
  then show ?case by (simp only: filt)
qed

end
