(* ===== verification/Browser_Cloud.thy ===== *)
theory Browser_Cloud
  imports Signal_Core Signal_Frame Rust_Std
begin

text \<open>
  Endpoints, tickets and records of the browser dashboard's cloud connection
  (\<open>client/skid-monitor-fe/src/platform/ingress/cloud.rs\<close>), and the scope under which the browser
  stores its data (\<open>platform/ingress.rs\<close>). The \<open>url\<close>, \<open>uuid\<close> and \<open>serde_json\<close> crates are the
  fields of \<open>web_lib\<close>; \<open>'u\<close> is the type of a parsed URL.
\<close>

section \<open>Libraries\<close>

datatype url_host = HostIpv4 "nat list" | HostIpv6 "nat list" | HostDomain string

record 'u web_lib =
  wl_parse :: "string \<Rightarrow> 'u option"
  wl_scheme :: "'u \<Rightarrow> string"
  wl_username :: "'u \<Rightarrow> string"
  wl_password :: "'u \<Rightarrow> string option"
  wl_host :: "'u \<Rightarrow> url_host option"
  wl_path :: "'u \<Rightarrow> string"
  wl_query :: "'u \<Rightarrow> string option"
  wl_fragment :: "'u \<Rightarrow> string option"
  wl_origin :: "'u \<Rightarrow> string"
  wl_set_path :: "string \<Rightarrow> 'u \<Rightarrow> 'u"
  wl_clear_query :: "'u \<Rightarrow> 'u"
  wl_clear_fragment :: "'u \<Rightarrow> 'u"
  wl_set_scheme :: "string \<Rightarrow> 'u \<Rightarrow> 'u option"
  wl_append_pair :: "string \<Rightarrow> string \<Rightarrow> 'u \<Rightarrow> 'u"
  wl_to_string :: "'u \<Rightarrow> string"
  wl_uuid_show :: "uuid \<Rightarrow> string"
  wl_uuid_parse :: "string \<Rightarrow> uuid option"
  wl_record_from_str :: "string \<Rightarrow> signal_record option"
  wl_signal_from_str :: "string \<Rightarrow> string + signal"
  wl_signal_from_slice :: "bytes \<Rightarrow> string + signal"
  wl_ticket_from_str :: "string \<Rightarrow> string option"

section \<open>Endpoints\<close>

definition OIDC_ACCESS_TOKEN_SESSION_KEY :: string where
  "OIDC_ACCESS_TOKEN_SESSION_KEY = ''skid-monitor.oidc.access_token''"
definition LEGACY_KEYCLOAK_ACCESS_TOKEN_SESSION_KEY :: string where
  "LEGACY_KEYCLOAK_ACCESS_TOKEN_SESSION_KEY = ''skid-monitor.keycloak.access_token''"
definition CURSOR_STORAGE_PREFIX :: string where
  "CURSOR_STORAGE_PREFIX = ''skid-monitor.cloud.cursor.v1:''"

datatype browser_endpoint = RawWebSocket string | CloudApi string

fun endpoint_key :: "browser_endpoint \<Rightarrow> string" where
  "endpoint_key (RawWebSocket endpoint) = endpoint"
| "endpoint_key (CloudApi endpoint) = endpoint"

record decoded_json_signal =
  dj_signal :: signal
  dj_cursor :: "u64 option"
  dj_tenant_id :: "tenant_id option"

fun host_is_loopback :: "url_host option \<Rightarrow> bool" where
  "host_is_loopback (Some (HostIpv4 octets)) \<longleftrightarrow> take 1 octets = [127]"
| "host_is_loopback (Some (HostIpv6 segments)) \<longleftrightarrow> segments = [0, 0, 0, 0, 0, 0, 0, 1]"
| "host_is_loopback (Some (HostDomain _)) \<longleftrightarrow> False"
| "host_is_loopback None \<longleftrightarrow> False"

definition is_numeric_loopback :: "'u web_lib \<Rightarrow> 'u \<Rightarrow> bool" where
  "is_numeric_loopback wl u \<longleftrightarrow> host_is_loopback (wl_host wl u)"

definition browser_normalize_endpoint :: "'u web_lib \<Rightarrow> string \<Rightarrow> string + browser_endpoint" where
  "browser_normalize_endpoint wl value =
     and_then (ok_or ''browser ingress must be an http(s) client API or ws(s) bridge URL''
         (wl_parse wl (trim value))) (\<lambda>u.
     if wl_username wl u \<noteq> [] \<or> wl_password wl u \<noteq> None
     then Inl ''browser ingress URLs must not contain credentials''
     else if wl_scheme wl u \<in> {''ws'', ''wss''} then Inr (RawWebSocket (wl_to_string wl u))
     else if wl_scheme wl u \<in> {''http'', ''https''} then
       (if wl_query wl u \<noteq> None \<or> wl_fragment wl u \<noteq> None
        then Inl ''cloud client API URLs must not contain a query or fragment''
        else if wl_scheme wl u = ''http'' \<and> \<not> is_numeric_loopback wl u
        then Inl ''cloud client API must use https; http is allowed only on a numeric loopback address''
        else
          (let normalized_path = trim_end_char (CHR ''/'') (wl_path wl u)
           in Inr (CloudApi (wl_to_string wl
                (wl_set_path wl (if normalized_path = [] then ''/'' else normalized_path) u)))))
     else Inl ''browser ingress must be an http(s) client API or ws(s) bridge URL'')"

section \<open>Storage keys\<close>

definition tenant_display :: "'u web_lib \<Rightarrow> tenant_id \<Rightarrow> string" where
  "tenant_display wl t = wl_uuid_show wl (tenant_uuid t)"

definition cursor_storage_key :: "'u web_lib \<Rightarrow> string \<Rightarrow> tenant_id \<Rightarrow> string" where
  "cursor_storage_key wl cloud_api t =
     CURSOR_STORAGE_PREFIX @ cloud_api @ '':tenant:'' @ tenant_display wl t"

definition browser_storage_key :: "'u web_lib \<Rightarrow> string \<Rightarrow> string \<Rightarrow> tenant_id \<Rightarrow> string" where
  "browser_storage_key wl base cloud_api t =
     base @ '':cloud:'' @ cloud_api @ '':tenant:'' @ tenant_display wl t"

text \<open>The persistence boundary of the active ingress mode.\<close>

datatype storage_scope = LegacyScope | CloudPending | CloudScope string tenant_id

fun scope_storage_key :: "'u web_lib \<Rightarrow> storage_scope \<Rightarrow> string \<Rightarrow> string option" where
  "scope_storage_key wl LegacyScope base = Some base"
| "scope_storage_key wl CloudPending base = None"
| "scope_storage_key wl (CloudScope endpoint t) base = Some (browser_storage_key wl base endpoint t)"

fun scope_label :: "'u web_lib \<Rightarrow> storage_scope \<Rightarrow> string" where
  "scope_label wl LegacyScope = ''legacy browser ingress''"
| "scope_label wl CloudPending = ''cloud authentication pending''"
| "scope_label wl (CloudScope endpoint t) = ''cloud tenant '' @ tenant_display wl t @ '' via '' @ endpoint"

section \<open>Tickets\<close>

definition tenant_from_stream_ticket :: "'u web_lib \<Rightarrow> string \<Rightarrow> string + tenant_id" where
  "tenant_from_stream_ticket wl value =
     and_then (ok_or ''stream-ticket response contains an invalid ticket'' (split_once (CHR ''.'') value)) (\<lambda>(tenant, ticket).
     if CHR ''.'' \<in> set ticket then Inl ''stream-ticket response contains an invalid ticket''
     else
     and_then (ok_or ''stream-ticket response contains an invalid tenant'' (map_option TenantId (wl_uuid_parse wl tenant))) (\<lambda>tenant_id.
     and_then (ok_or ''stream-ticket response contains an invalid ticket'' (wl_uuid_parse wl ticket)) (\<lambda>ticket_id.
     if tenant_display wl tenant_id \<noteq> tenant \<or> wl_uuid_show wl ticket_id \<noteq> ticket
     then Inl ''stream-ticket response must use canonical UUIDs''
     else Inr tenant_id)))"

definition cloud_url :: "'u web_lib \<Rightarrow> string \<Rightarrow> string \<Rightarrow> bool \<Rightarrow> string option \<Rightarrow> u64 \<Rightarrow> string + string" where
  "cloud_url wl cloud_api path_suffix websocket ticket after =
     and_then (ok_or ''invalid cloud client API URL'' (wl_parse wl cloud_api)) (\<lambda>u.
     let root = trim_end_char (CHR ''/'') (wl_path wl u);
         path = (if root = [] then ''/'' @ path_suffix else root @ ''/'' @ path_suffix);
         u = wl_clear_fragment wl (wl_clear_query wl (wl_set_path wl path u))
     in if \<not> websocket then Inr (wl_to_string wl u)
        else
          and_then (if wl_scheme wl u = ''http'' then Inr ''ws''
            else if wl_scheme wl u = ''https'' then Inr ''wss''
            else Inl ''cloud client API URL must use http or https'') (\<lambda>scheme.
          and_then (ok_or ''failed to build cloud stream URL'' (wl_set_scheme wl scheme u)) (\<lambda>u.
          and_then (ok_or ''cloud stream ticket is missing'' ticket) (\<lambda>ticket.
          Inr (wl_to_string wl (wl_append_pair wl ''after'' (show_u64 after)
            (wl_append_pair wl ''ticket'' ticket u)))))))"

definition ticket_endpoint :: "'u web_lib \<Rightarrow> string \<Rightarrow> string + string" where
  "ticket_endpoint wl cloud_api = cloud_url wl cloud_api ''v1/stream-tickets'' False None 0"

definition stream_endpoint :: "'u web_lib \<Rightarrow> string \<Rightarrow> string \<Rightarrow> u64 \<Rightarrow> string + string" where
  "stream_endpoint wl cloud_api ticket after = cloud_url wl cloud_api ''v1/stream'' True (Some ticket) after"

section \<open>Records\<close>

definition decode_json_signal :: "'u web_lib \<Rightarrow> string \<Rightarrow> string + decoded_json_signal" where
  "decode_json_signal wl value =
     (case wl_record_from_str wl value of
        Some r \<Rightarrow>
          if sr_cursor r = 0 then Inl ''cloud signal record has an invalid zero cursor''
          else Inr \<lparr>dj_signal = env_payload (sr_envelope r), dj_cursor = Some (sr_cursor r),
                    dj_tenant_id = scope_tenant_id (env_scope (sr_envelope r))\<rparr>
      | None \<Rightarrow>
          map_ok (\<lambda>signal. \<lparr>dj_signal = signal, dj_cursor = None, dj_tenant_id = None\<rparr>)
            (map_err (\<lambda>e. ''invalid WebSocket signal JSON: '' @ e) (wl_signal_from_str wl value)))"

end
