(* ===== verification/Browser_Ingress.thy ===== *)
theory Browser_Ingress
  imports Browser_Cloud "HOL-Library.AList" "HOL-Library.List_Lexorder" "HOL-Library.Char_ord"
begin

text \<open>
  The browser dashboard's connections (\<open>client/skid-monitor-fe/src/platform/ingress/web.rs\<close>): raw
  WebSocket bridges and the authenticated cloud stream with its ticket requests, reconnection
  and persisted cursor. The page runs one handler at a time, so each callback, timer and
  completed request is one step on the shared state. A socket remembers the values its callbacks
  captured; detaching the handlers clears \<open>ws_attached\<close>. What the browser interfaces answer in
  a step is the record \<open>web_page\<close>.
\<close>

section \<open>Constants\<close>

definition MAX_RECONNECT_ATTEMPTS :: u8 where "MAX_RECONNECT_ATTEMPTS = 8"
definition MAX_RECONNECT_DELAY_MS :: nat where "MAX_RECONNECT_DELAY_MS = 30000"
definition MAX_TICKET_BYTES :: nat where "MAX_TICKET_BYTES = 4096"
definition MAX_TICKET_RESPONSE_BYTES :: nat where "MAX_TICKET_RESPONSE_BYTES = 8192"
definition MAX_ACCESS_TOKEN_BYTES :: nat where "MAX_ACCESS_TOKEN_BYTES = 16 * 1024"

section \<open>The page\<close>

datatype storage_access = AccessError | NoStorage | StorageOpen

record web_page =
  pg_window :: bool
  pg_origin :: "string option"
  pg_params :: "(string \<rightharpoonup> string) option"
  pg_session :: storage_access
  pg_session_get :: "string \<Rightarrow> string option option"
  pg_local :: storage_access
  pg_local_get_ok :: bool
  pg_local_set_ok :: bool
  pg_ws_new :: "string \<Rightarrow> bool"
  pg_close_ok :: bool

definition js_error :: string where "js_error = ''browser storage operation failed''"

definition page_storage :: "web_page \<Rightarrow> storage_access \<Rightarrow> string \<Rightarrow> string + unit" where
  "page_storage pg access name =
     (if \<not> pg_window pg then Inl ''browser window is unavailable''
      else case access of
        AccessError \<Rightarrow> Inl js_error
      | NoStorage \<Rightarrow> Inl (''browser '' @ name @ '' is unavailable'')
      | StorageOpen \<Rightarrow> Inr ())"

definition local_storage :: "web_page \<Rightarrow> string + unit" where
  "local_storage pg = page_storage pg (pg_local pg) ''localStorage''"

section \<open>State\<close>

datatype ingress_message =
    Listening "string list"
  | IngressSignal string signal
  | IngressError "string option" string
  | StorageScope storage_scope

record cloud_connection =
  cc_generation :: u64
  cc_tenant_id :: "tenant_id option"
  cc_socket :: "nat option"
  cc_reconnect_attempt :: u8
  cc_persisted_cursor :: u64
  cc_connecting :: bool

datatype browser_connection = RawConnection nat | CloudConnection cloud_connection

fun is_cloud :: "browser_connection \<Rightarrow> bool" where
  "is_cloud (CloudConnection _) \<longleftrightarrow> True"
| "is_cloud (RawConnection _) \<longleftrightarrow> False"

datatype ws_binding = RawBinding string | CloudBinding string u64 tenant_id

record web_socket =
  ws_url :: string
  ws_binding :: ws_binding
  ws_attached :: bool
  ws_closed :: bool

datatype browser_task = TicketRequest string u64 | RetryTimer string u64 nat

record browser =
  br_messages :: "ingress_message list"
  br_connections :: "(string \<times> browser_connection) list"
  br_active :: "string list"
  br_next_generation :: u64
  br_sockets :: "web_socket list"
  br_tasks :: "browser_task list"
  br_local :: "string \<rightharpoonup> string"

definition push_message :: "ingress_message \<Rightarrow> browser \<Rightarrow> browser" where
  "push_message m b = b\<lparr>br_messages := br_messages b @ [m]\<rparr>"

definition report_error :: "string option \<Rightarrow> string \<Rightarrow> browser \<Rightarrow> browser" where
  "report_error listener e = push_message (IngressError listener e)"

definition publish_storage_scope :: "storage_scope \<Rightarrow> browser \<Rightarrow> browser" where
  "publish_storage_scope scope = push_message (StorageScope scope)"

definition publish_active_snapshot :: "browser \<Rightarrow> browser" where
  "publish_active_snapshot b = push_message (Listening (br_active b)) b"

definition set_insert :: "string \<Rightarrow> string list \<Rightarrow> string list" where
  "set_insert s xs = (if s \<in> set xs then xs else insort s xs)"

definition activate :: "string \<Rightarrow> browser \<Rightarrow> browser" where
  "activate endpoint b = b\<lparr>br_active := set_insert endpoint (br_active b)\<rparr>"

definition deactivate :: "string \<Rightarrow> browser \<Rightarrow> browser" where
  "deactivate endpoint b = b\<lparr>br_active := remove1 endpoint (br_active b)\<rparr>"

text \<open>The cloud connection at an endpoint, when it is still of the given generation.\<close>

definition cloud_at :: "browser \<Rightarrow> string \<Rightarrow> u64 \<Rightarrow> cloud_connection option" where
  "cloud_at b endpoint generation =
     (case map_of (br_connections b) endpoint of
        Some (CloudConnection c) \<Rightarrow> if cc_generation c = generation then Some c else None
      | _ \<Rightarrow> None)"

definition put_connection :: "string \<Rightarrow> browser_connection \<Rightarrow> browser \<Rightarrow> browser" where
  "put_connection endpoint c b = b\<lparr>br_connections := AList.update endpoint c (br_connections b)\<rparr>"

definition put_cloud :: "string \<Rightarrow> cloud_connection \<Rightarrow> browser \<Rightarrow> browser" where
  "put_cloud endpoint c = put_connection endpoint (CloudConnection c)"

definition new_socket :: "string \<Rightarrow> ws_binding \<Rightarrow> browser \<Rightarrow> browser" where
  "new_socket u binding b =
     b\<lparr>br_sockets := br_sockets b @ [\<lparr>ws_url = u, ws_binding = binding, ws_attached = True, ws_closed = False\<rparr>]\<rparr>"

definition detach_handlers :: "nat \<Rightarrow> browser \<Rightarrow> browser" where
  "detach_handlers i b = b\<lparr>br_sockets := (br_sockets b)[i := (br_sockets b ! i)\<lparr>ws_attached := False\<rparr>]\<rparr>"

definition spawn_local :: "browser_task \<Rightarrow> browser \<Rightarrow> browser" where
  "spawn_local t b = b\<lparr>br_tasks := br_tasks b @ [t]\<rparr>"

section \<open>Tickets and cursors\<close>

definition browser_access_token :: "web_page \<Rightarrow> string + string" where
  "browser_access_token pg =
     and_then (page_storage pg (pg_session pg) ''sessionStorage'') (\<lambda>_.
     and_then (ok_or js_error (pg_session_get pg OIDC_ACCESS_TOKEN_SESSION_KEY)) (\<lambda>oidc_token.
     and_then (case oidc_token of
         Some token \<Rightarrow> Inr (token, OIDC_ACCESS_TOKEN_SESSION_KEY)
       | None \<Rightarrow>
           and_then (ok_or js_error (pg_session_get pg LEGACY_KEYCLOAK_ACCESS_TOKEN_SESSION_KEY)) (\<lambda>legacy.
           case legacy of
             Some token \<Rightarrow> Inr (token, LEGACY_KEYCLOAK_ACCESS_TOKEN_SESSION_KEY)
           | None \<Rightarrow> Inl (''OIDC access token is missing from sessionStorage key '' @ OIDC_ACCESS_TOKEN_SESSION_KEY @
               '' (legacy '' @ LEGACY_KEYCLOAK_ACCESS_TOKEN_SESSION_KEY @ '' is also accepted)''))) (\<lambda>(token, key).
     let token = trim token in
     if token = [] then Inl (''OIDC access token is missing from sessionStorage key '' @ key)
     else if length token > MAX_ACCESS_TOKEN_BYTES \<or> has_control token
     then Inl ''OIDC access token in sessionStorage is invalid''
     else Inr token)))"

text \<open>How a ticket request ends: an interface of the browser refuses to build it, or it is sent
  and answered.\<close>

datatype fetch_outcome =
    RequestRefused string
  | FetchFailed
  | ResponseTypeInvalid
  | Rejected nat
  | BodyUnreadable
  | BodyNotText
  | Body string

fun fetch_body :: "fetch_outcome \<Rightarrow> string + string" where
  "fetch_body (RequestRefused e) = Inl e"
| "fetch_body FetchFailed = Inl ''stream-ticket request failed''"
| "fetch_body ResponseTypeInvalid = Inl ''stream-ticket response has an invalid type''"
| "fetch_body (Rejected status) = Inl (''stream-ticket request was rejected with HTTP '' @ show_nat status)"
| "fetch_body BodyUnreadable = Inl ''failed to read stream-ticket response''"
| "fetch_body BodyNotText = Inl ''stream-ticket response is not text''"
| "fetch_body (Body text) = Inr text"

record acquired_stream_ticket =
  at_value :: string
  at_tenant_id :: tenant_id

definition accept_ticket :: "'u web_lib \<Rightarrow> string \<Rightarrow> string + acquired_stream_ticket" where
  "accept_ticket wl body =
     (if length body > MAX_TICKET_RESPONSE_BYTES then Inl ''stream-ticket response is too large''
      else
      and_then (ok_or ''stream-ticket response is invalid JSON'' (wl_ticket_from_str wl body)) (\<lambda>ticket.
      let ticket = trim ticket in
      if ticket = [] \<or> length ticket > MAX_TICKET_BYTES \<or> has_control ticket
      then Inl ''stream-ticket response contains an invalid ticket''
      else map_ok (\<lambda>t. \<lparr>at_value = ticket, at_tenant_id = t\<rparr>) (tenant_from_stream_ticket wl ticket)))"

definition request_stream_ticket ::
  "'u web_lib \<Rightarrow> web_page \<Rightarrow> (string \<Rightarrow> string \<Rightarrow> fetch_outcome) \<Rightarrow> string \<Rightarrow> string + acquired_stream_ticket"
where
  "request_stream_ticket wl pg fetch cloud_api =
     and_then (browser_access_token pg) (\<lambda>token.
     and_then (ticket_endpoint wl cloud_api) (\<lambda>endpoint.
     and_then (fetch_body (fetch endpoint token)) (accept_ticket wl)))"

definition load_cursor :: "'u web_lib \<Rightarrow> web_page \<Rightarrow> string \<Rightarrow> tenant_id \<Rightarrow> browser \<Rightarrow> string + u64" where
  "load_cursor wl pg cloud_api t b =
     and_then (local_storage pg) (\<lambda>_.
     if \<not> pg_local_get_ok pg then Inl js_error
     else case br_local b (cursor_storage_key wl cloud_api t) of
       None \<Rightarrow> Inr 0
     | Some value \<Rightarrow>
         ok_or ''stored cloud stream cursor is invalid; starting from cursor zero'' (parse_u64 value))"

definition persist_cursor :: "'u web_lib \<Rightarrow> web_page \<Rightarrow> string \<Rightarrow> tenant_id \<Rightarrow> u64 \<Rightarrow> browser \<Rightarrow> (string + unit) \<times> browser" where
  "persist_cursor wl pg cloud_api t cursor b =
     (case local_storage pg of
        Inl e \<Rightarrow> (Inl e, b)
      | Inr _ \<Rightarrow>
          if pg_local_set_ok pg
          then (Inr (), b\<lparr>br_local := (br_local b)(cursor_storage_key wl cloud_api t \<mapsto> show_u64 cursor)\<rparr>)
          else (Inl ''failed to persist the cloud stream cursor in localStorage'', b))"

section \<open>Cloud connections\<close>

definition begin_cloud_connect :: "string \<Rightarrow> u64 \<Rightarrow> browser \<Rightarrow> browser" where
  "begin_cloud_connect endpoint generation b =
     (case cloud_at b endpoint generation of
        None \<Rightarrow> b
      | Some c \<Rightarrow>
          if cc_connecting c then b
          else spawn_local (TicketRequest endpoint generation) (put_cloud endpoint (c\<lparr>cc_connecting := True\<rparr>) b))"

definition prepare_cloud_tenant ::
  "'u web_lib \<Rightarrow> web_page \<Rightarrow> string \<Rightarrow> u64 \<Rightarrow> tenant_id \<Rightarrow> browser \<Rightarrow> u64 option \<times> browser"
where
  "prepare_cloud_tenant wl pg endpoint generation t b =
     (case cloud_at b endpoint generation of
        None \<Rightarrow> (None, b)
      | Some c \<Rightarrow>
          if cc_tenant_id c = Some t then (Some (cc_persisted_cursor c), b)
          else
            (case (case load_cursor wl pg endpoint t b of
                Inr cursor \<Rightarrow> (cursor, b)
              | Inl e \<Rightarrow> (0, report_error (Some endpoint) e b)) of
               (persisted_cursor, b) \<Rightarrow>
                 (Some persisted_cursor,
                  publish_storage_scope (CloudScope endpoint t)
                    (put_cloud endpoint (c\<lparr>cc_tenant_id := Some t, cc_persisted_cursor := persisted_cursor\<rparr>) b))))"

definition open_cloud_socket ::
  "'u web_lib \<Rightarrow> web_page \<Rightarrow> string \<Rightarrow> u64 \<Rightarrow> acquired_stream_ticket \<Rightarrow> browser \<Rightarrow> (string + unit) \<times> browser"
where
  "open_cloud_socket wl pg endpoint generation ticket b =
     (case prepare_cloud_tenant wl pg endpoint generation (at_tenant_id ticket) b of
        (None, b) \<Rightarrow> (Inr (), b)
      | (Some after, b) \<Rightarrow>
          (case stream_endpoint wl endpoint (at_value ticket) after of
             Inl e \<Rightarrow> (Inl e, b)
           | Inr stream_url \<Rightarrow>
               if \<not> pg_ws_new pg stream_url then (Inl ''failed to open the authenticated cloud stream'', b)
               else
                 (let i = length (br_sockets b);
                      b = new_socket stream_url (CloudBinding endpoint generation (at_tenant_id ticket)) b
                  in case cloud_at b endpoint generation of
                       None \<Rightarrow> (Inr (), detach_handlers i b)
                     | Some c \<Rightarrow>
                         (let b = (case cc_socket c of None \<Rightarrow> b | Some previous \<Rightarrow> detach_handlers previous b)
                          in (Inr (), put_cloud endpoint (c\<lparr>cc_socket := Some i\<rparr>) b)))))"

definition set_cloud_connecting :: "string \<Rightarrow> u64 \<Rightarrow> bool \<Rightarrow> browser \<Rightarrow> browser" where
  "set_cloud_connecting endpoint generation connecting b =
     (case cloud_at b endpoint generation of
        None \<Rightarrow> b
      | Some c \<Rightarrow> put_cloud endpoint (c\<lparr>cc_connecting := connecting\<rparr>) b)"

definition retry_delay_ms :: "u8 \<Rightarrow> nat" where
  "retry_delay_ms attempt = min (min (1000 * 2 ^ unat (attempt - 1)) (2 ^ 32 - 1)) MAX_RECONNECT_DELAY_MS"

definition schedule_cloud_retry :: "string \<Rightarrow> u64 \<Rightarrow> string \<Rightarrow> browser \<Rightarrow> browser" where
  "schedule_cloud_retry endpoint generation reason b =
     (case cloud_at b endpoint generation of
        None \<Rightarrow> b
      | Some c \<Rightarrow>
          if cc_connecting c then b
          else if cc_reconnect_attempt c \<ge> MAX_RECONNECT_ATTEMPTS then
            report_error (Some endpoint) ''cloud reconnect limit reached; disconnect and connect again to retry'' b
          else
            (let attempt = cc_reconnect_attempt c + 1;
                 b = put_cloud endpoint (c\<lparr>cc_reconnect_attempt := attempt\<rparr>) b;
                 delay_ms = retry_delay_ms attempt;
                 b = report_error (Some endpoint) (reason @ '' (retry '' @ show_nat (unat attempt) @ ''/'' @
                   show_nat (unat MAX_RECONNECT_ATTEMPTS) @ '' in '' @ show_nat (delay_ms div 1000) @ ''s)'') b
             in spawn_local (RetryTimer endpoint generation delay_ms) b))"

text \<open>What a completed ticket request and an elapsed timer do.\<close>

definition ticket_request_done ::
  "'u web_lib \<Rightarrow> web_page \<Rightarrow> (string \<Rightarrow> string \<Rightarrow> fetch_outcome) \<Rightarrow> string \<Rightarrow> u64 \<Rightarrow> browser \<Rightarrow> browser"
where
  "ticket_request_done wl pg fetch endpoint generation b =
     (case request_stream_ticket wl pg fetch endpoint of
        Inr ticket \<Rightarrow>
          (case open_cloud_socket wl pg endpoint generation ticket b of
             (Inr _, b) \<Rightarrow> b
           | (Inl e, b) \<Rightarrow>
               schedule_cloud_retry endpoint generation e (set_cloud_connecting endpoint generation False b))
      | Inl e \<Rightarrow> schedule_cloud_retry endpoint generation e (set_cloud_connecting endpoint generation False b))"

definition retry_timer_done :: "string \<Rightarrow> u64 \<Rightarrow> browser \<Rightarrow> browser" where
  "retry_timer_done endpoint generation b =
     (if cloud_at b endpoint generation \<noteq> None then begin_cloud_connect endpoint generation b else b)"

definition should_queue :: "browser \<Rightarrow> string \<Rightarrow> u64 \<Rightarrow> tenant_id \<Rightarrow> u64 \<Rightarrow> bool" where
  "should_queue b endpoint generation t cursor =
     (case cloud_at b endpoint generation of
        None \<Rightarrow> False
      | Some c \<Rightarrow> cc_tenant_id c = Some t \<and> cc_persisted_cursor c < cursor)"

definition queue_cloud_record ::
  "'u web_lib \<Rightarrow> web_page \<Rightarrow> string \<Rightarrow> u64 \<Rightarrow> tenant_id \<Rightarrow> decoded_json_signal \<Rightarrow> browser \<Rightarrow> browser"
where
  "queue_cloud_record wl pg endpoint generation t d b =
     (case dj_cursor d of
        None \<Rightarrow> report_error (Some endpoint) ''cloud stream payload is not a full SignalRecord'' b
      | Some cursor \<Rightarrow>
          if dj_tenant_id d \<noteq> Some t then
            report_error (Some endpoint) ''cloud stream SignalRecord tenant does not match the authenticated stream'' b
          else if \<not> should_queue b endpoint generation t cursor then b
          else
            (case persist_cursor wl pg endpoint t cursor (push_message (IngressSignal endpoint (dj_signal d)) b) of
               (Inr _, b) \<Rightarrow>
                 (case cloud_at b endpoint generation of
                    None \<Rightarrow> b
                  | Some c \<Rightarrow>
                      if cc_tenant_id c = Some t
                      then put_cloud endpoint (c\<lparr>cc_persisted_cursor := max (cc_persisted_cursor c) cursor\<rparr>) b
                      else b)
             | (Inl e, b) \<Rightarrow> report_error (Some endpoint) e b))"

section \<open>Socket events\<close>

datatype ws_data = TextData string | ArrayBufferData bytes | OtherData

definition decode_raw_message :: "'u web_lib \<Rightarrow> (io_error \<Rightarrow> string) \<Rightarrow> ws_data \<Rightarrow> string + signal" where
  "decode_raw_message wl show_io data =
     (case data of
        TextData text \<Rightarrow> map_ok dj_signal (decode_json_signal wl text)
      | ArrayBufferData bs \<Rightarrow>
          map_err (\<lambda>e. ''invalid WebSocket signal payload: '' @ show_io e)
            (decode_signal_payload (wl_signal_from_slice wl) bs)
      | OtherData \<Rightarrow> Inl ''unsupported WebSocket message type; expected JSON text or ArrayBuffer'')"

definition decode_cloud_message :: "'u web_lib \<Rightarrow> ws_data \<Rightarrow> string + decoded_json_signal" where
  "decode_cloud_message wl data =
     and_then (ok_or ''cloud stream payload must be a JSON SignalRecord text message''
       (case data of TextData text \<Rightarrow> Some text | _ \<Rightarrow> None)) (decode_json_signal wl)"

datatype socket_event =
    SocketOpen
  | SocketMessage ws_data
  | SocketError
  | SocketClose bool nat string

fun raw_event :: "'u web_lib \<Rightarrow> (io_error \<Rightarrow> string) \<Rightarrow> string \<Rightarrow> socket_event \<Rightarrow> browser \<Rightarrow> browser" where
  "raw_event wl show_io endpoint SocketOpen b = publish_active_snapshot (activate endpoint b)"
| "raw_event wl show_io endpoint (SocketMessage data) b =
     push_message (case decode_raw_message wl show_io data of
       Inr signal \<Rightarrow> IngressSignal endpoint signal | Inl e \<Rightarrow> IngressError (Some endpoint) e) b"
| "raw_event wl show_io endpoint SocketError b =
     push_message (IngressError (Some endpoint) (''WebSocket error on '' @ endpoint)) b"
| "raw_event wl show_io endpoint (SocketClose was_clean close_code reason) b =
     (let b = publish_active_snapshot (deactivate endpoint b) in
      if was_clean then b
      else push_message (IngressError (Some endpoint)
        (''WebSocket '' @ endpoint @ '' closed with code '' @ show_nat close_code @ '': '' @ reason)) b)"

fun cloud_event :: "'u web_lib \<Rightarrow> web_page \<Rightarrow> string \<Rightarrow> u64 \<Rightarrow> tenant_id \<Rightarrow> socket_event \<Rightarrow> browser \<Rightarrow> browser" where
  "cloud_event wl pg endpoint generation t SocketOpen b =
     (case cloud_at b endpoint generation of
        None \<Rightarrow> b
      | Some c \<Rightarrow> put_cloud endpoint (c\<lparr>cc_connecting := False, cc_reconnect_attempt := 0\<rparr>) b)"
| "cloud_event wl pg endpoint generation t (SocketMessage data) b =
     (case decode_cloud_message wl data of
        Inr d \<Rightarrow> queue_cloud_record wl pg endpoint generation t d b
      | Inl e \<Rightarrow> report_error (Some endpoint) e b)"
| "cloud_event wl pg endpoint generation t SocketError b =
     report_error (Some endpoint) ''cloud signal stream WebSocket error'' b"
| "cloud_event wl pg endpoint generation t (SocketClose was_clean close_code reason) b =
     (let b = set_cloud_connecting endpoint generation False b;
          detail = (if was_clean then ''cloud signal stream closed; reconnecting''
            else ''cloud signal stream closed with code '' @ show_nat close_code @ ''; reconnecting'')
      in schedule_cloud_retry endpoint generation detail b)"

text \<open>The browser marks a socket closed and calls the handlers that are attached.\<close>

definition mark_closed :: "nat \<Rightarrow> socket_event \<Rightarrow> browser \<Rightarrow> browser" where
  "mark_closed i ev b =
     (case ev of
        SocketClose _ _ _ \<Rightarrow> b\<lparr>br_sockets := (br_sockets b)[i := (br_sockets b ! i)\<lparr>ws_closed := True\<rparr>]\<rparr>
      | _ \<Rightarrow> b)"

definition on_socket_event ::
  "'u web_lib \<Rightarrow> (io_error \<Rightarrow> string) \<Rightarrow> web_page \<Rightarrow> nat \<Rightarrow> socket_event \<Rightarrow> browser \<Rightarrow> browser"
where
  "on_socket_event wl show_io pg i ev b =
     (if length (br_sockets b) \<le> i \<or> ws_closed (br_sockets b ! i) then b
      else
        (let s = br_sockets b ! i; b = mark_closed i ev b in
         if \<not> ws_attached s then b
         else case ws_binding s of
           RawBinding endpoint \<Rightarrow> raw_event wl show_io endpoint ev b
         | CloudBinding endpoint generation t \<Rightarrow> cloud_event wl pg endpoint generation t ev b))"

section \<open>Adding and removing connections\<close>

definition require_same_origin :: "'u web_lib \<Rightarrow> web_page \<Rightarrow> string \<Rightarrow> string + unit" where
  "require_same_origin wl pg endpoint =
     (if \<not> pg_window pg then Inl ''browser window is unavailable''
      else
      and_then (ok_or js_error (pg_origin pg)) (\<lambda>page_origin.
      and_then (ok_or ''invalid cloud client API URL'' (wl_parse wl endpoint)) (\<lambda>u.
      if wl_origin wl u \<noteq> page_origin
      then Inl ''cloud client API must share the frontend origin; use a same-origin reverse proxy''
      else Inr ())))"

definition add_raw :: "web_page \<Rightarrow> string \<Rightarrow> browser \<Rightarrow> (string + unit) \<times> browser" where
  "add_raw pg endpoint b =
     (if \<not> pg_ws_new pg endpoint then (Inl (''failed to open WebSocket '' @ endpoint), b)
      else
        (let i = length (br_sockets b); b = new_socket endpoint (RawBinding endpoint) b
         in (Inr (), publish_storage_scope LegacyScope (put_connection endpoint (RawConnection i) b))))"

definition add_cloud :: "'u web_lib \<Rightarrow> web_page \<Rightarrow> string \<Rightarrow> browser \<Rightarrow> (string + unit) \<times> browser" where
  "add_cloud wl pg endpoint b =
     (case require_same_origin wl pg endpoint of
        Inl e \<Rightarrow> (Inl e, b)
      | Inr _ \<Rightarrow>
          (let generation = br_next_generation b;
               b = b\<lparr>br_next_generation := max (generation + 1) 1\<rparr>;
               b = put_cloud endpoint \<lparr>cc_generation = generation, cc_tenant_id = None, cc_socket = None,
                 cc_reconnect_attempt = 0, cc_persisted_cursor = 0, cc_connecting = False\<rparr> b;
               b = publish_storage_scope CloudPending b;
               b = publish_active_snapshot (activate endpoint b)
           in (Inr (), begin_cloud_connect endpoint generation b)))"

definition raw_closed :: "browser \<Rightarrow> browser_connection \<Rightarrow> bool" where
  "raw_closed b c = (case c of RawConnection i \<Rightarrow> ws_closed (br_sockets b ! i) | CloudConnection _ \<Rightarrow> False)"

definition ingress_add :: "'u web_lib \<Rightarrow> web_page \<Rightarrow> string \<Rightarrow> browser \<Rightarrow> (string + unit) \<times> browser" where
  "ingress_add wl pg value b =
     (case browser_normalize_endpoint wl value of
        Inl e \<Rightarrow> (Inl e, b)
      | Inr endpoint \<Rightarrow>
          (let key = endpoint_key endpoint;
               b = b\<lparr>br_connections := filter (\<lambda>(_, c). \<not> raw_closed b c) (br_connections b)\<rparr>;
               has_cloud = (\<exists>(_, c) \<in> set (br_connections b). is_cloud c);
               has_raw = (\<exists>(_, c) \<in> set (br_connections b). \<not> is_cloud c)
           in if map_of (br_connections b) key \<noteq> None
              then (Inl (''ingress '' @ key @ '' is already connected or connecting''), b)
              else case endpoint of
                CloudApi e \<Rightarrow>
                  if has_cloud \<or> has_raw
                  then (Inl ''cloud client API mode must be the browser's only ingress connection'', b)
                  else add_cloud wl pg e b
              | RawWebSocket e \<Rightarrow>
                  if has_cloud
                  then (Inl ''raw WebSocket ingress cannot be mixed with cloud client API mode'', b)
                  else add_raw pg e b))"

definition ingress_remove :: "'u web_lib \<Rightarrow> web_page \<Rightarrow> string \<Rightarrow> browser \<Rightarrow> (string + unit) \<times> browser" where
  "ingress_remove wl pg value b =
     (case browser_normalize_endpoint wl value of
        Inl e \<Rightarrow> (Inl e, b)
      | Inr endpoint \<Rightarrow>
          (let key = endpoint_key endpoint in
           case map_of (br_connections b) key of
             None \<Rightarrow> (Inl (''ingress '' @ key @ '' is not connected''), b)
           | Some c \<Rightarrow>
               (let b = b\<lparr>br_connections := AList.delete key (br_connections b)\<rparr>;
                    socket = (case c of RawConnection i \<Rightarrow> Some i | CloudConnection c \<Rightarrow> cc_socket c);
                    b = (case socket of None \<Rightarrow> b | Some i \<Rightarrow> detach_handlers i b);
                    b = publish_active_snapshot (deactivate key b);
                    b = (if is_cloud c then publish_storage_scope CloudPending b else b)
                in (if socket \<noteq> None \<and> \<not> pg_close_ok pg then Inl ''failed to close browser ingress WebSocket''
                    else Inr (), b))))"

section \<open>Starting and stepping\<close>

definition configured_endpoints :: "web_page \<Rightarrow> string list" where
  "configured_endpoints pg =
     (case (if pg_window pg then pg_params pg else None) of
        None \<Rightarrow> []
      | Some params \<Rightarrow>
          sort (remdups (filter (\<lambda>v. v \<noteq> [])
            (map trim (List.map_filter (\<lambda>x. x) [params ''client_api'', params ''ingress''])))))"

definition start_endpoint :: "'u web_lib \<Rightarrow> web_page \<Rightarrow> string \<Rightarrow> browser \<Rightarrow> browser" where
  "start_endpoint wl pg endpoint b =
     (case ingress_add wl pg endpoint b of
        (Inr _, b) \<Rightarrow> b
      | (Inl e, b) \<Rightarrow> report_error (Some endpoint) e b)"

definition ingress_start :: "'u web_lib \<Rightarrow> web_page \<Rightarrow> (string \<rightharpoonup> string) \<Rightarrow> browser" where
  "ingress_start wl pg stored =
     fold (start_endpoint wl pg) (configured_endpoints pg)
       \<lparr>br_messages = [Listening []], br_connections = [], br_active = [], br_next_generation = 1,
        br_sockets = [], br_tasks = [], br_local = stored\<rparr>"

definition try_next :: "browser \<Rightarrow> ingress_message option \<times> browser" where
  "try_next b =
     (case br_messages b of
        [] \<Rightarrow> (None, b)
      | m # ms \<Rightarrow> (Some m, b\<lparr>br_messages := ms\<rparr>))"

definition task_done ::
  "'u web_lib \<Rightarrow> web_page \<Rightarrow> (string \<Rightarrow> string \<Rightarrow> fetch_outcome) \<Rightarrow> nat \<Rightarrow> browser \<Rightarrow> browser"
where
  "task_done wl pg fetch i b =
     (if length (br_tasks b) \<le> i then b
      else
        (let t = br_tasks b ! i; b = b\<lparr>br_tasks := take i (br_tasks b) @ drop (Suc i) (br_tasks b)\<rparr> in
         case t of
           TicketRequest endpoint generation \<Rightarrow> ticket_request_done wl pg fetch endpoint generation b
         | RetryTimer endpoint generation _ \<Rightarrow> retry_timer_done endpoint generation b))"

datatype browser_event =
    AddEndpoint string
  | RemoveEndpoint string
  | TakeMessage
  | TaskDone nat "string \<Rightarrow> string \<Rightarrow> fetch_outcome"
  | SocketEvent nat socket_event
  | StoreItem string string
  | Reload

text \<open>Everything that happens in a page: the dashboard adds and removes connections, takes
  messages and stores items of its own; a task completes; a socket event arrives; the page is
  loaded again, with what was stored.\<close>

fun browser_step ::
  "'u web_lib \<Rightarrow> (io_error \<Rightarrow> string) \<Rightarrow> web_page \<Rightarrow> browser_event \<Rightarrow> browser \<Rightarrow> browser"
where
  "browser_step wl show_io pg (AddEndpoint v) b = snd (ingress_add wl pg v b)"
| "browser_step wl show_io pg (RemoveEndpoint v) b = snd (ingress_remove wl pg v b)"
| "browser_step wl show_io pg TakeMessage b = snd (try_next b)"
| "browser_step wl show_io pg (TaskDone i fetch) b = task_done wl pg fetch i b"
| "browser_step wl show_io pg (SocketEvent i ev) b = on_socket_event wl show_io pg i ev b"
| "browser_step wl show_io pg (StoreItem k v) b = b\<lparr>br_local := (br_local b)(k \<mapsto> v)\<rparr>"
| "browser_step wl show_io pg Reload b = ingress_start wl pg (br_local b)"

section \<open>What the dashboard receives\<close>

text \<open>The messages a step added to the queue, and the records among them: the signals that a
  message of a cloud stream put into the queue, with the endpoint and the tenant of the stream
  and the decoded message.\<close>

definition pushed :: "browser \<Rightarrow> browser \<Rightarrow> ingress_message list" where
  "pushed b b' = drop (length (br_messages b)) (br_messages b')"

definition pushed_signals :: "browser \<Rightarrow> browser \<Rightarrow> (string \<times> signal) list" where
  "pushed_signals b b' =
     List.map_filter (\<lambda>m. case m of IngressSignal e s \<Rightarrow> Some (e, s) | _ \<Rightarrow> None) (pushed b b')"

definition cloud_message ::
  "'u web_lib \<Rightarrow> browser_event \<Rightarrow> browser \<Rightarrow> (string \<times> tenant_id \<times> decoded_json_signal) option"
where
  "cloud_message wl ev b =
     (case ev of
        SocketEvent i (SocketMessage data) \<Rightarrow>
          if i < length (br_sockets b)
          then (case ws_binding (br_sockets b ! i) of
             RawBinding _ \<Rightarrow> None
           | CloudBinding e _ t \<Rightarrow>
               (case decode_cloud_message wl data of Inr d \<Rightarrow> Some (e, t, d) | Inl _ \<Rightarrow> None))
          else None
      | _ \<Rightarrow> None)"

definition received ::
  "'u web_lib \<Rightarrow> (io_error \<Rightarrow> string) \<Rightarrow> web_page \<Rightarrow> browser_event \<Rightarrow> browser \<Rightarrow>
   (string \<times> tenant_id \<times> decoded_json_signal \<times> signal) list"
where
  "received wl show_io pg ev b =
     (case cloud_message wl ev b of
        None \<Rightarrow> []
      | Some (e, t, d) \<Rightarrow> map (\<lambda>(_, s). (e, t, d, s)) (pushed_signals b (browser_step wl show_io pg ev b)))"

fun browser_run ::
  "'u web_lib \<Rightarrow> (io_error \<Rightarrow> string) \<Rightarrow> (web_page \<times> browser_event) list \<Rightarrow> browser \<Rightarrow>
   (string \<times> tenant_id \<times> decoded_json_signal \<times> signal) list \<times> browser"
where
  "browser_run wl show_io [] b = ([], b)"
| "browser_run wl show_io ((pg, ev) # evs) b =
     (case browser_run wl show_io evs (browser_step wl show_io pg ev b) of
        (rs, b') \<Rightarrow> (received wl show_io pg ev b @ rs, b'))"

text \<open>The cursors received for a tenant at an endpoint.\<close>

definition cursors_for ::
  "string \<Rightarrow> tenant_id \<Rightarrow> (string \<times> tenant_id \<times> decoded_json_signal \<times> signal) list \<Rightarrow> u64 list"
where
  "cursors_for e t rs = List.map_filter (\<lambda>(e', t', d, _). if e' = e \<and> t' = t then dj_cursor d else None) rs"

text \<open>What the browser promises: storage that works, and what the \<open>uuid\<close> crate promises.\<close>

definition storage_works :: "web_page \<Rightarrow> bool" where
  "storage_works pg \<longleftrightarrow> local_storage pg = Inr () \<and> pg_local_get_ok pg \<and> pg_local_set_ok pg"

definition uuid_text_ok :: "'u web_lib \<Rightarrow> bool" where
  "uuid_text_ok wl \<longleftrightarrow>
     (\<forall>u. length (wl_uuid_show wl u) = 36 \<and> wl_uuid_parse wl (wl_uuid_show wl u) = Some u)"

fun stores_no_cursor :: "browser_event \<Rightarrow> bool" where
  "stores_no_cursor (StoreItem k _) \<longleftrightarrow> \<not> starts_with k CURSOR_STORAGE_PREFIX"
| "stores_no_cursor _ \<longleftrightarrow> True"

definition stored_cursor :: "'u web_lib \<Rightarrow> string \<Rightarrow> tenant_id \<Rightarrow> browser \<Rightarrow> u64" where
  "stored_cursor wl e t b =
     (case br_local b (cursor_storage_key wl e t) of
        None \<Rightarrow> 0 | Some v \<Rightarrow> (case parse_u64 v of None \<Rightarrow> 0 | Some n \<Rightarrow> n))"

definition cursor_inv :: "'u web_lib \<Rightarrow> browser \<Rightarrow> bool" where
  "cursor_inv wl b \<longleftrightarrow> distinct (map fst (br_connections b)) \<and>
     (\<forall>e c t. map_of (br_connections b) e = Some (CloudConnection c) \<and> cc_tenant_id c = Some t \<longrightarrow>
        cc_persisted_cursor c = stored_cursor wl e t b)"

section \<open>Lemmas\<close>

lemma cloud_at_Some:
  "cloud_at b e g = Some c \<longleftrightarrow> map_of (br_connections b) e = Some (CloudConnection c) \<and> cc_generation c = g"
  by (auto simp: cloud_at_def split: option.splits browser_connection.splits)

lemma cursor_key_inj:
  assumes "uuid_text_ok wl"
  shows "cursor_storage_key wl e t = cursor_storage_key wl e' t' \<longleftrightarrow> e = e' \<and> t = t'"
proof
  assume *: "cursor_storage_key wl e t = cursor_storage_key wl e' t'"
  have len: "length (tenant_display wl t) = length (tenant_display wl t')"
    using assms by (simp add: uuid_text_ok_def tenant_display_def)
  have "(e @ '':tenant:'') @ tenant_display wl t = (e' @ '':tenant:'') @ tenant_display wl t'"
    using * by (simp add: cursor_storage_key_def)
  then have e: "e = e'" and t: "tenant_display wl t = tenant_display wl t'"
    using len append_eq_append_conv [of "e @ '':tenant:''" "e' @ '':tenant:''"] by auto
  have "wl_uuid_parse wl (tenant_display wl s) = Some (tenant_uuid s)" for s
    using assms by (simp add: uuid_text_ok_def tenant_display_def)
  then show "e = e' \<and> t = t'" using e t by (metis option.inject tenant_id.expand)
qed simp

lemma cursor_key_prefix: "starts_with (cursor_storage_key wl e t) CURSOR_STORAGE_PREFIX"
  by (simp add: starts_with_def cursor_storage_key_def)

lemma stored_cursor_local: "br_local b' = br_local b \<Longrightarrow> stored_cursor wl e t b' = stored_cursor wl e t b"
  by (simp add: stored_cursor_def)

lemma stored_cursor_write:
  assumes "uuid_text_ok wl" and "br_local b' = (br_local b)(cursor_storage_key wl e t \<mapsto> show_u64 n)"
  shows "stored_cursor wl e' t' b' = (if e' = e \<and> t' = t then n else stored_cursor wl e' t' b)"
  using assms cursor_key_inj [OF assms(1), of e' t' e t]
  by (auto simp: stored_cursor_def parse_show_u64)

text \<open>A step is calm when it leaves the storage alone and every cloud connection that has a tenant
  afterwards had that tenant and that cursor before.\<close>

definition kept_cursors :: "(string \<times> browser_connection) list \<Rightarrow> (string \<times> browser_connection) list \<Rightarrow> bool" where
  "kept_cursors cs cs' \<longleftrightarrow>
     (\<forall>e c' t. map_of cs' e = Some (CloudConnection c') \<longrightarrow> cc_tenant_id c' = Some t \<longrightarrow>
        (\<exists>c. map_of cs e = Some (CloudConnection c) \<and> cc_tenant_id c = Some t \<and>
           cc_persisted_cursor c = cc_persisted_cursor c'))"

definition calm :: "browser \<Rightarrow> browser \<Rightarrow> bool" where
  "calm b b' \<longleftrightarrow> br_local b' = br_local b \<and>
     (distinct (map fst (br_connections b)) \<longrightarrow>
        distinct (map fst (br_connections b')) \<and> kept_cursors (br_connections b) (br_connections b'))"

lemma kept_cursors_refl [simp]: "kept_cursors cs cs"
  by (auto simp: kept_cursors_def)

lemma kept_cursors_trans: "kept_cursors cs1 cs2 \<Longrightarrow> kept_cursors cs2 cs3 \<Longrightarrow> kept_cursors cs1 cs3"
  unfolding kept_cursors_def by fastforce

lemma calm_refl [simp]: "calm b b"
  by (simp add: calm_def)

lemma calm_trans: "calm b1 b2 \<Longrightarrow> calm b2 b3 \<Longrightarrow> calm b1 b3"
  by (auto simp: calm_def intro: kept_cursors_trans)

lemma calm_cursor_inv:
  assumes "calm b b'" and "cursor_inv wl b"
  shows "cursor_inv wl b'"
proof -
  have *: "kept_cursors (br_connections b) (br_connections b')" "br_local b' = br_local b"
    "distinct (map fst (br_connections b'))"
    using assms by (auto simp: calm_def cursor_inv_def)
  show ?thesis
    unfolding cursor_inv_def
  proof (intro conjI allI impI)
    fix e c' t
    assume "map_of (br_connections b') e = Some (CloudConnection c') \<and> cc_tenant_id c' = Some t"
    then obtain c where "map_of (br_connections b) e = Some (CloudConnection c)" "cc_tenant_id c = Some t"
        "cc_persisted_cursor c = cc_persisted_cursor c'"
      using *(1) unfolding kept_cursors_def by blast
    then show "cc_persisted_cursor c' = stored_cursor wl e t b'"
      using assms(2) stored_cursor_local [OF *(2), of wl e t] by (simp add: cursor_inv_def)
  qed (rule *(3))
qed

lemma calm_same: "br_local b' = br_local b \<Longrightarrow> br_connections b' = br_connections b \<Longrightarrow> calm b b'"
  by (auto simp: calm_def)

named_theorems calm_intros

lemma calm_push [calm_intros]: "calm b (push_message m b)"
  by (rule calm_same) (simp_all add: push_message_def)

lemma calm_report [calm_intros]: "calm b (report_error l e b)"
  unfolding report_error_def by (rule calm_push)

lemma calm_scope [calm_intros]: "calm b (publish_storage_scope s b)"
  unfolding publish_storage_scope_def by (rule calm_push)

lemma calm_snapshot [calm_intros]: "calm b (publish_active_snapshot b)"
  unfolding publish_active_snapshot_def by (rule calm_push)

lemma calm_active [calm_intros]: "calm b (activate e b)" "calm b (deactivate e b)"
  by (rule calm_same; simp add: activate_def deactivate_def)+

lemma calm_sockets [calm_intros]:
  "calm b (new_socket u k b)" "calm b (detach_handlers i b)" "calm b (mark_closed i ev b)"
  by (rule calm_same; simp add: new_socket_def detach_handlers_def mark_closed_def split: socket_event.splits)+

lemma calm_spawn [calm_intros]: "calm b (spawn_local t b)"
  by (rule calm_same) (simp_all add: spawn_local_def)

lemma calm_put_cloud [calm_intros]:
  assumes "cc_tenant_id c = None \<or> (\<exists>c0. map_of (br_connections b) e = Some (CloudConnection c0) \<and>
      cc_tenant_id c0 = cc_tenant_id c \<and> cc_persisted_cursor c0 = cc_persisted_cursor c)"
  shows "calm b (put_cloud e c b)"
  using assms
  by (auto simp: calm_def kept_cursors_def put_cloud_def put_connection_def update_conv' distinct_update split: if_splits)

lemma calm_put_raw [calm_intros]: "calm b (put_connection e (RawConnection i) b)"
  by (auto simp: calm_def kept_cursors_def put_connection_def update_conv' distinct_update split: if_splits)

lemma calm_begin [calm_intros]: "calm b (begin_cloud_connect e g b)"
  by (auto simp: begin_cloud_connect_def cloud_at_Some split: option.splits
      intro!: calm_trans [OF _ calm_spawn] calm_put_cloud)

lemma calm_connecting [calm_intros]: "calm b (set_cloud_connecting e g f b)"
  by (auto simp: set_cloud_connecting_def cloud_at_Some split: option.splits intro!: calm_put_cloud)

lemma calm_retry [calm_intros]: "calm b (schedule_cloud_retry e g r b)"
  by (auto simp: schedule_cloud_retry_def cloud_at_Some Let_def split: option.splits
      intro!: calm_report calm_trans [OF _ calm_spawn] calm_trans [OF _ calm_report] calm_put_cloud)

lemma calm_raw_event: "calm b (raw_event wl show_io e ev b)"
  by (cases "(wl, show_io, e, ev, b)" rule: raw_event.cases)
    (auto simp: Let_def intro!: calm_push calm_trans [OF _ calm_push] calm_trans [OF _ calm_snapshot] calm_active)

lemma calm_add_raw: "calm b (snd (add_raw pg e b))"
  by (auto simp: add_raw_def Let_def intro!: calm_trans [OF _ calm_scope] calm_trans [OF _ calm_put_raw] calm_sockets)

lemma calm_add_cloud: "calm b (snd (add_cloud wl pg e b))"
proof (cases "require_same_origin wl pg e")
  case (Inr u)
  let ?b = "b\<lparr>br_next_generation := max (br_next_generation b + 1) 1\<rparr>"
  have "calm b ?b" by (rule calm_same) simp_all
  then show ?thesis
    using Inr
    by (auto simp: add_cloud_def Let_def intro!: calm_trans [OF _ calm_begin] calm_trans [OF _ calm_snapshot]
        calm_trans [OF _ calm_active(1)] calm_trans [OF _ calm_scope] calm_trans [OF _ calm_put_cloud])
qed (simp add: add_cloud_def)

lemma calm_filter: "calm b (b\<lparr>br_connections := filter P (br_connections b)\<rparr>)"
proof -
  have "map_of (filter P cs) e = Some v \<Longrightarrow> map_of cs e = Some v" if "distinct (map fst cs)" for cs e v
    using that by (auto simp: distinct_map_filter)
  then show ?thesis
    by (fastforce simp: calm_def kept_cursors_def distinct_map_filter)
qed

lemma calm_add: "calm b (snd (ingress_add wl pg v b))"
  using calm_filter [of b] calm_trans [OF calm_filter calm_add_raw] calm_trans [OF calm_filter calm_add_cloud]
  by (auto simp: ingress_add_def Let_def split: sum.splits browser_endpoint.splits)

lemma calm_delete: "calm b (b\<lparr>br_connections := AList.delete k (br_connections b)\<rparr>)"
  by (auto simp: calm_def kept_cursors_def delete_conv' distinct_delete split: if_splits)

lemma calm_remove: "calm b (snd (ingress_remove wl pg v b))"
  by (auto simp: ingress_remove_def Let_def split: sum.splits option.splits browser_connection.splits
      intro!: calm_trans [OF _ calm_scope] calm_trans [OF _ calm_snapshot] calm_trans [OF _ calm_active(2)]
        calm_trans [OF _ calm_sockets(2)] calm_delete)

lemma calm_start_endpoint: "calm b (start_endpoint wl pg e b)"
proof (cases "ingress_add wl pg e b")
  case (Pair r b1)
  then have "calm b b1" using calm_add [of b wl pg e] by simp
  then show ?thesis
    using Pair by (auto simp: start_endpoint_def split: sum.splits intro: calm_trans [OF _ calm_report])
qed

lemma calm_fold_start: "calm b (fold (start_endpoint wl pg) es b)"
  by (induction es arbitrary: b) (auto intro: calm_trans [OF calm_start_endpoint])

lemma ingress_start_inv:
  "br_local (ingress_start wl pg stored) = stored" "cursor_inv wl (ingress_start wl pg stored)"
proof -
  let ?b = "\<lparr>br_messages = [Listening []], br_connections = [], br_active = [], br_next_generation = 1,
        br_sockets = [], br_tasks = [], br_local = stored\<rparr>"
  have "cursor_inv wl ?b" by (simp add: cursor_inv_def)
  then show "cursor_inv wl (ingress_start wl pg stored)" "br_local (ingress_start wl pg stored) = stored"
    using calm_fold_start [of ?b wl pg "configured_endpoints pg"]
      calm_cursor_inv [OF calm_fold_start, of wl ?b wl pg "configured_endpoints pg"]
    by (simp_all add: ingress_start_def calm_def)
qed

lemma load_cursor_stored: "storage_works pg \<Longrightarrow>
  (case load_cursor wl pg e t b of Inr n \<Rightarrow> n | Inl _ \<Rightarrow> 0) = stored_cursor wl e t b"
  by (auto simp: load_cursor_def storage_works_def stored_cursor_def split: option.splits)

lemma put_tenant_inv:
  assumes "cursor_inv wl b" and "cc_tenant_id c = Some t" and "cc_persisted_cursor c = stored_cursor wl e t b"
  shows "cursor_inv wl (put_cloud e c b)"
  using assms stored_cursor_local [of "put_cloud e c b" b]
  by (auto simp: cursor_inv_def put_cloud_def put_connection_def update_conv' distinct_update stored_cursor_def
      split: if_splits)

lemma prepare_inv:
  assumes "storage_works pg" and inv: "cursor_inv wl b"
  shows "cursor_inv wl (snd (prepare_cloud_tenant wl pg e g t b)) \<and>
    br_local (snd (prepare_cloud_tenant wl pg e g t b)) = br_local b"
proof (cases "\<exists>c. cloud_at b e g = Some c \<and> cc_tenant_id c \<noteq> Some t")
  case True
  then obtain c where c: "cloud_at b e g = Some c" "cc_tenant_id c \<noteq> Some t" by blast
  obtain n b1 where b1: "(case load_cursor wl pg e t b of Inr cursor \<Rightarrow> (cursor, b)
      | Inl e' \<Rightarrow> (0, report_error (Some e) e' b)) = (n, b1)" by fastforce
  have calm: "calm b b1" and n: "n = stored_cursor wl e t b"
    using b1 load_cursor_stored [OF assms(1), of wl e t b] calm_report
    by (auto split: sum.splits)
  have inv1: "cursor_inv wl b1" and local: "br_local b1 = br_local b"
    using calm_cursor_inv [OF calm inv] calm by (auto simp: calm_def)
  have "cursor_inv wl (put_cloud e (c\<lparr>cc_tenant_id := Some t, cc_persisted_cursor := n\<rparr>) b1)"
    by (rule put_tenant_inv [OF inv1]) (use n stored_cursor_local [OF local, of wl] in auto)
  then show ?thesis
    using c b1 local calm_cursor_inv [OF calm_scope]
    by (simp add: prepare_cloud_tenant_def publish_storage_scope_def push_message_def put_cloud_def put_connection_def
        cursor_inv_def stored_cursor_def)
next
  case False
  then show ?thesis using inv by (auto simp: prepare_cloud_tenant_def split: option.splits)
qed

text \<open>A ticket request prepares the tenant and is calm otherwise.\<close>

lemma calm_open_rest:
  assumes "prepare_cloud_tenant wl pg e g (at_tenant_id ticket) b = (r, b1)"
  shows "calm b1 (snd (open_cloud_socket wl pg e g ticket b))"
proof -
  have put: "calm b1 (put_cloud e (c\<lparr>cc_socket := s\<rparr>) b2)"
    if "calm b1 b2" "cloud_at b2 e g = Some c" for c s b2
    using that by (auto intro!: calm_trans [OF _ calm_put_cloud] simp: cloud_at_Some)
  have new: "calm b1 (new_socket u k b1)" for u k by (rule calm_sockets)
  have put_new: "calm b1 (put_cloud e (c\<lparr>cc_socket := s\<rparr>) (new_socket u k b1))"
    if "cloud_at (new_socket u k b1) e g = Some c" for c s u k
    using put [OF new that] .
  have put_detach: "calm b1 (put_cloud e (c\<lparr>cc_socket := s\<rparr>) (detach_handlers i (new_socket u k b1)))"
    if "cloud_at (new_socket u k b1) e g = Some c" for c s u k i
    by (rule put) (use that new calm_trans [OF new calm_sockets(2)] in \<open>auto simp: cloud_at_def detach_handlers_def\<close>)
  show ?thesis
    using assms put_new put_detach calm_trans [OF new calm_sockets(2)]
    by (auto simp: open_cloud_socket_def Let_def split: option.splits sum.splits)
qed

lemma ticket_request_calm:
  "\<exists>t r b1. (b1 = b \<or> prepare_cloud_tenant wl pg e g t b = (r, b1)) \<and>
     calm b1 (ticket_request_done wl pg fetch e g b)"
proof (cases "request_stream_ticket wl pg fetch e")
  case (Inl x)
  then have "calm b (ticket_request_done wl pg fetch e g b)"
    by (auto simp: ticket_request_done_def intro!: calm_trans [OF _ calm_retry] calm_connecting)
  then show ?thesis by (intro exI [of _ b] exI) simp
next
  case (Inr ticket)
  obtain r b1 where b1: "prepare_cloud_tenant wl pg e g (at_tenant_id ticket) b = (r, b1)" by fastforce
  obtain q b2 where b2: "open_cloud_socket wl pg e g ticket b = (q, b2)" by fastforce
  have "calm b1 b2" using calm_open_rest [OF b1] b2 by simp
  then have "calm b1 (ticket_request_done wl pg fetch e g b)"
    using Inr b2
    by (auto simp: ticket_request_done_def split: sum.splits
        intro!: calm_trans [OF _ calm_retry] calm_trans [OF _ calm_connecting])
  with b1 show ?thesis by (intro exI [of _ "at_tenant_id ticket"] exI [of _ r] exI [of _ b1]) simp
qed

lemma ticket_request_inv:
  assumes "storage_works pg" and "cursor_inv wl b"
  shows "cursor_inv wl (ticket_request_done wl pg fetch e g b) \<and>
    br_local (ticket_request_done wl pg fetch e g b) = br_local b"
proof -
  obtain t r b1 where b1: "b1 = b \<or> prepare_cloud_tenant wl pg e g t b = (r, b1)"
      and calm: "calm b1 (ticket_request_done wl pg fetch e g b)"
    using ticket_request_calm [of b wl pg e g fetch] by auto
  have "cursor_inv wl b1 \<and> br_local b1 = br_local b"
    using b1 prepare_inv [OF assms, of e g t] assms(2) by auto
  then show ?thesis using calm calm_cursor_inv [OF calm] by (auto simp: calm_def)
qed

lemma task_done_inv:
  assumes "storage_works pg" and "cursor_inv wl b"
  shows "cursor_inv wl (task_done wl pg fetch i b) \<and> br_local (task_done wl pg fetch i b) = br_local b"
proof -
  let ?b = "b\<lparr>br_tasks := take i (br_tasks b) @ drop (Suc i) (br_tasks b)\<rparr>"
  have calm: "calm b ?b" by (rule calm_same) simp_all
  have inv: "cursor_inv wl ?b" by (rule calm_cursor_inv [OF calm assms(2)])
  have timer: "calm b (retry_timer_done e g ?b)" for e g
    using calm calm_trans [OF calm calm_begin] by (simp add: retry_timer_done_def)
  show ?thesis
    using assms(2) ticket_request_inv [OF assms(1) inv] calm_cursor_inv [OF timer assms(2)] timer
    by (auto simp: task_done_def Let_def calm_def split: browser_task.splits)
qed

text \<open>A record that is queued has a later cursor, which becomes the stored one.\<close>

lemma queue_record_inv:
  assumes works: "storage_works pg" and uuid: "uuid_text_ok wl" and inv: "cursor_inv wl b"
    and queued: "dj_cursor d = Some n" "dj_tenant_id d = Some t" "should_queue b e g t n"
  defines "b' \<equiv> queue_cloud_record wl pg e g t d b"
  shows "stored_cursor wl e t b < n" "cursor_inv wl b'"
    "stored_cursor wl e' t' b' = (if e' = e \<and> t' = t then n else stored_cursor wl e' t' b)"
    "br_messages b' = br_messages b @ [IngressSignal e (dj_signal d)]"
proof -
  obtain c where c: "cloud_at b e g = Some c" "cc_tenant_id c = Some t" "cc_persisted_cursor c < n"
    using queued(3) by (auto simp: should_queue_def split: option.splits)
  let ?k = "cursor_storage_key wl e t"
  let ?b1 = "b\<lparr>br_messages := br_messages b @ [IngressSignal e (dj_signal d)], br_local := (br_local b)(?k \<mapsto> show_u64 n)\<rparr>"
  have b': "b' = put_cloud e (c\<lparr>cc_persisted_cursor := n\<rparr>) ?b1"
    using queued c works
    by (simp add: b'_def queue_cloud_record_def persist_cursor_def storage_works_def push_message_def cloud_at_def
        max_def split: option.splits browser_connection.splits if_splits)
  have old: "map_of (br_connections b) e = Some (CloudConnection c)" using c(1) by (simp add: cloud_at_Some)
  show "stored_cursor wl e t b < n" using inv old c by (auto simp: cursor_inv_def)
  show stored: "stored_cursor wl e' t' b' = (if e' = e \<and> t' = t then n else stored_cursor wl e' t' b)" for e' t'
    by (rule stored_cursor_write [OF uuid]) (simp add: b' put_cloud_def put_connection_def)
  show "br_messages b' = br_messages b @ [IngressSignal e (dj_signal d)]"
    by (simp add: b' put_cloud_def put_connection_def)
  show "cursor_inv wl b'"
    using inv c unfolding cursor_inv_def stored
    by (auto simp: b' put_cloud_def put_connection_def update_conv' distinct_update split: if_splits)
qed

lemma queue_refused:
  assumes "\<not> (\<exists>n. dj_cursor d = Some n \<and> dj_tenant_id d = Some t \<and> should_queue b e g t n)"
  shows "queue_cloud_record wl pg e g t d b = b \<or> (\<exists>m. queue_cloud_record wl pg e g t d b = report_error (Some e) m b)"
  using assms by (auto simp: queue_cloud_record_def split: option.splits)

lemma pushed_signals_simps [simp]:
  "pushed_signals b b = []" "pushed_signals b (report_error l m b) = []"
  "br_messages b' = br_messages b @ [IngressSignal e s] \<Longrightarrow> pushed_signals b b' = [(e, s)]"
  by (simp_all add: pushed_signals_def pushed_def report_error_def push_message_def map_filter_simps)

definition quiet :: "'u web_lib \<Rightarrow> browser \<Rightarrow> browser \<Rightarrow> bool" where
  "quiet wl b b' \<longleftrightarrow> cursor_inv wl b' \<and> (\<forall>e t. stored_cursor wl e t b' = stored_cursor wl e t b)"

lemma calm_quiet: "calm b b' \<Longrightarrow> cursor_inv wl b \<Longrightarrow> quiet wl b b'"
  using calm_cursor_inv [of b b' wl] by (auto simp: quiet_def calm_def stored_cursor_def)

lemma quietI: "cursor_inv wl b' \<and> br_local b' = br_local b \<Longrightarrow> quiet wl b b'"
  by (auto simp: quiet_def stored_cursor_def)

text \<open>Every step is quiet or receives one record.\<close>

lemma socket_event_cases:
  assumes works: "storage_works pg" and uuid: "uuid_text_ok wl" and inv: "cursor_inv wl b"
  shows "received wl show_io pg (SocketEvent i ev) b = [] \<and> quiet wl b (on_socket_event wl show_io pg i ev b) \<or>
    (\<exists>e t d n. received wl show_io pg (SocketEvent i ev) b = [(e, t, d, dj_signal d)] \<and> dj_cursor d = Some n \<and>
       dj_tenant_id d = Some t \<and> stored_cursor wl e t b < n \<and> cursor_inv wl (on_socket_event wl show_io pg i ev b) \<and>
       (\<forall>e' t'. stored_cursor wl e' t' (on_socket_event wl show_io pg i ev b) =
          (if e' = e \<and> t' = t then n else stored_cursor wl e' t' b)))"
proof (cases "\<exists>e g t data d. i < length (br_sockets b) \<and> \<not> ws_closed (br_sockets b ! i) \<and> ws_attached (br_sockets b ! i) \<and>
    ws_binding (br_sockets b ! i) = CloudBinding e g t \<and> ev = SocketMessage data \<and> decode_cloud_message wl data = Inr d")
  case True
  then obtain e g t data d where s: "i < length (br_sockets b)" "\<not> ws_closed (br_sockets b ! i)"
      "ws_attached (br_sockets b ! i)" "ws_binding (br_sockets b ! i) = CloudBinding e g t"
      and ev: "ev = SocketMessage data" "decode_cloud_message wl data = Inr d" by blast
  have step: "on_socket_event wl show_io pg i ev b = queue_cloud_record wl pg e g t d b"
    using s ev by (simp add: on_socket_event_def mark_closed_def Let_def)
  have recv: "received wl show_io pg (SocketEvent i ev) b =
      map (\<lambda>(_, s). (e, t, d, s)) (pushed_signals b (queue_cloud_record wl pg e g t d b))"
    using s ev step by (simp add: received_def cloud_message_def)
  show ?thesis
  proof (cases "\<exists>n. dj_cursor d = Some n \<and> dj_tenant_id d = Some t \<and> should_queue b e g t n")
    case True
    then obtain n where n: "dj_cursor d = Some n" "dj_tenant_id d = Some t" "should_queue b e g t n" by blast
    note q = queue_record_inv [OF works uuid inv n]
    have "received wl show_io pg (SocketEvent i ev) b = [(e, t, d, dj_signal d)]"
      using recv q(4) by simp
    then show ?thesis using n q(1,2,3) step by auto
  next
    case False
    have "calm b (queue_cloud_record wl pg e g t d b)" "pushed_signals b (queue_cloud_record wl pg e g t d b) = []"
      using queue_refused [OF False, of wl pg] calm_report by auto
    then show ?thesis using recv step calm_quiet [OF _ inv] by simp
  qed
next
  case False
  have "received wl show_io pg (SocketEvent i ev) b = []"
    using False
    by (auto simp: received_def cloud_message_def on_socket_event_def mark_closed_def Let_def
        split: socket_event.splits ws_binding.splits sum.splits if_splits)
  moreover have "calm b (on_socket_event wl show_io pg i ev b)"
  proof -
    have mark: "calm b (mark_closed i ev b)" by (rule calm_sockets)
    have "calm (mark_closed i ev b) (cloud_event wl pg e g t ev (mark_closed i ev b))"
      if "ws_binding (br_sockets b ! i) = CloudBinding e g t" "i < length (br_sockets b)"
        "\<not> ws_closed (br_sockets b ! i)" "ws_attached (br_sockets b ! i)" for e g t
      using that False
      by (cases ev) (auto simp: cloud_at_Some Let_def split: option.splits sum.splits
          intro!: calm_report calm_put_cloud calm_trans [OF _ calm_retry] calm_connecting)
    then show ?thesis
      using mark calm_trans [OF mark calm_raw_event] calm_trans [OF mark]
      by (auto simp: on_socket_event_def Let_def split: ws_binding.splits)
  qed
  ultimately show ?thesis using calm_quiet [OF _ inv] by blast
qed

lemma stores_no_cursor_key:
  "\<not> starts_with k CURSOR_STORAGE_PREFIX \<Longrightarrow> cursor_storage_key wl e t \<noteq> k"
  using cursor_key_prefix by blast

lemma browser_step_cases:
  assumes works: "storage_works pg" and uuid: "uuid_text_ok wl" and inv: "cursor_inv wl b" and ev: "stores_no_cursor ev"
  shows "received wl show_io pg ev b = [] \<and> quiet wl b (browser_step wl show_io pg ev b) \<or>
    (\<exists>e t d n. received wl show_io pg ev b = [(e, t, d, dj_signal d)] \<and> dj_cursor d = Some n \<and>
       dj_tenant_id d = Some t \<and> stored_cursor wl e t b < n \<and> cursor_inv wl (browser_step wl show_io pg ev b) \<and>
       (\<forall>e' t'. stored_cursor wl e' t' (browser_step wl show_io pg ev b) =
          (if e' = e \<and> t' = t then n else stored_cursor wl e' t' b)))"
proof (cases "\<exists>i s. ev = SocketEvent i s")
  case True
  then show ?thesis using socket_event_cases [OF works uuid inv] by fastforce
next
  case False
  then have "received wl show_io pg ev b = []"
    by (cases ev) (auto simp: received_def cloud_message_def)
  moreover have "quiet wl b (browser_step wl show_io pg ev b)"
  proof (cases ev)
    case TakeMessage
    have "calm b (snd (try_next b))" by (rule calm_same) (simp_all add: try_next_def split: list.splits)
    then show ?thesis using TakeMessage calm_quiet [OF _ inv] by simp
  next
    case (StoreItem k v)
    have "\<forall>e t. stored_cursor wl e t (b\<lparr>br_local := (br_local b)(k \<mapsto> v)\<rparr>) = stored_cursor wl e t b"
      using ev stores_no_cursor_key [of k wl] by (simp add: stored_cursor_def StoreItem)
    then show ?thesis using inv by (simp add: StoreItem quiet_def cursor_inv_def)
  next
    case Reload
    then show ?thesis using ingress_start_inv [of wl pg "br_local b"] by (simp add: quietI)
  next
    case (TaskDone i fetch)
    then show ?thesis using task_done_inv [OF works inv] by (simp add: quietI)
  qed (use False calm_quiet [OF calm_add inv] calm_quiet [OF calm_remove inv] in auto)
  ultimately show ?thesis by blast
qed

lemma cursors_for_simps [simp]:
  "cursors_for e t [] = []"
  "cursors_for e t ((e', t', d, s) # rs) =
     (if e' = e \<and> t' = t then (case dj_cursor d of None \<Rightarrow> [] | Some n \<Rightarrow> [n]) else []) @ cursors_for e t rs"
  by (auto simp: cursors_for_def map_filter_simps split: option.splits)

lemma browser_run_received:
  assumes "uuid_text_ok wl" and "cursor_inv wl b"
    and "\<forall>(pg, ev) \<in> set evs. storage_works pg \<and> stores_no_cursor ev"
    and "browser_run wl show_io evs b = (rs, b')"
  shows "(\<forall>(e, t, d, s) \<in> set rs. s = dj_signal d \<and> dj_tenant_id d = Some t \<and> dj_cursor d \<noteq> None) \<and>
    sorted_wrt (<) (stored_cursor wl e t b # cursors_for e t rs) \<and>
    stored_cursor wl e t b' = last (stored_cursor wl e t b # cursors_for e t rs)"
  using assms
proof (induction evs arbitrary: b rs)
  case Nil
  then show ?case by simp
next
  case (Cons p evs)
  obtain pg ev where p: "p = (pg, ev)" by fastforce
  let ?b = "browser_step wl show_io pg ev b"
  obtain rs' where run: "browser_run wl show_io evs ?b = (rs', b')" and rs: "rs = received wl show_io pg ev b @ rs'"
    using Cons.prems(4) by (auto simp: p split: prod.splits)
  have step: "storage_works pg" "stores_no_cursor ev" using Cons.prems(3) by (auto simp: p)
  have rest: "\<forall>(pg, ev) \<in> set evs. storage_works pg \<and> stores_no_cursor ev" using Cons.prems(3) by simp
  note cases = browser_step_cases [OF step(1) Cons.prems(1,2) step(2), of show_io]
  have "cursor_inv wl ?b" using cases by (auto simp: quiet_def)
  note IH = Cons.IH [OF Cons.prems(1) this rest run]
  show ?case
    using cases
  proof (elim disjE exE conjE)
    assume "received wl show_io pg ev b = []" "quiet wl b ?b"
    then show ?thesis using IH rs by (simp add: quiet_def)
  next
    fix e' t' d n
    assume r: "received wl show_io pg ev b = [(e', t', d, dj_signal d)]" "dj_cursor d = Some n" "dj_tenant_id d = Some t'"
      "stored_cursor wl e' t' b < n"
      "\<forall>e'' t''. stored_cursor wl e'' t'' ?b = (if e'' = e' \<and> t'' = t' then n else stored_cursor wl e'' t'' b)"
    show ?thesis
    proof (cases "e' = e \<and> t' = t")
      case True
      have n: "stored_cursor wl e t ?b = n" "stored_cursor wl e t b < n" using r(4,5) True by simp_all
      have c: "cursors_for e t rs = n # cursors_for e t rs'" using rs r(1,2) True by simp
      have ys: "sorted_wrt (<) (n # ys) \<Longrightarrow> sorted_wrt (<) (stored_cursor wl e t b # n # ys)" for ys
        using n(2) by (auto intro: less_trans)
      show ?thesis using IH ys [of "cursors_for e t rs'"] rs r(1,2,3) unfolding c n(1) by auto
    next
      case False
      then have "stored_cursor wl e t ?b = stored_cursor wl e t b" "cursors_for e t rs = cursors_for e t rs'"
        using r(5) rs r(1) by auto
      then show ?thesis using IH rs r(1,2,3) by simp
    qed
  qed
qed

section \<open>An example page\<close>

text \<open>A textual form of identifiers with 36 bytes, and a page with one endpoint.\<close>

definition ex_mask :: uuid where "ex_mask = 0x61616161616161616161616161616166"

definition ex_uuid_show :: "uuid \<Rightarrow> string" where
  "ex_uuid_show u =
     (let v = xor u ex_mask in
      replicate 20 (CHR ''0'') @ str_of_bytes (u64_to_be (ucast (drop_bit 64 v)) @ u64_to_be (ucast v)))"

definition ex_uuid_parse :: "string \<Rightarrow> uuid option" where
  "ex_uuid_parse s =
     (let bs = as_bytes (drop 20 s);
          v = push_bit 64 (ucast (u64_from_be (take 8 bs))) + ucast (u64_from_be (drop 8 bs)) :: uuid
      in Some (xor v ex_mask))"

lemma ex_uuid_halves: "push_bit 64 (ucast (ucast (drop_bit 64 v) :: u64)) + ucast (ucast v :: u64) = (v :: uuid)"
proof -
  have "push_bit 64 (ucast (ucast (drop_bit 64 v) :: u64)) + ucast (ucast v :: u64) =
      or (push_bit 64 (ucast (ucast (drop_bit 64 v) :: u64))) (ucast (ucast v :: u64) :: uuid)"
    by (rule disjunctive_add) (auto simp: bit_simps)
  also have "\<dots> = v"
    by (rule bit_eqI) (auto simp: bit_simps)
  finally show ?thesis .
qed

lemma ex_uuid_ok: "length (ex_uuid_show u) = 36" "ex_uuid_parse (ex_uuid_show u) = Some u"
proof -
  have len: "length (u64_to_be w) = 8" for w by (simp add: u64_to_be_def length_u32_to_be)
  show "length (ex_uuid_show u) = 36" by (simp add: ex_uuid_show_def Let_def str_of_bytes_def len)
  have "xor (xor u ex_mask) ex_mask = u" by (simp add: xor.assoc)
  then show "ex_uuid_parse (ex_uuid_show u) = Some u"
    by (simp add: ex_uuid_show_def ex_uuid_parse_def Let_def len u64_dec_enc ex_uuid_halves del: drop_bit_xor)
qed

definition ex_web_tenant :: tenant_id where "ex_web_tenant = TenantId 7"

definition ex_web_signal :: signal where
  "ex_web_signal = Logs \<lparr>elr_resource_logs = []\<rparr>"

definition ex_web_record :: signal_record where
  "ex_web_record = \<lparr>sr_cursor = 1, sr_envelope = \<lparr>env_event_id = EventId 1, env_scope = Tenant ex_web_tenant,
     env_agent_id = AgentId ''a'', env_sequence = 1, env_received_at_unix_nano = 1, env_payload = ex_web_signal\<rparr>\<rparr>"

definition ex_uuid_text :: string where
  "ex_uuid_text = replicate 20 (CHR ''0'') @ replicate 16 (CHR ''a'')"

definition ex_web_lib :: "signal_record \<Rightarrow> string web_lib" where
  "ex_web_lib r = \<lparr>wl_parse = Some, wl_scheme = (\<lambda>_. ''https''), wl_username = (\<lambda>_. []), wl_password = (\<lambda>_. None),
     wl_host = (\<lambda>_. None), wl_path = (\<lambda>_. ''/''), wl_query = (\<lambda>_. None), wl_fragment = (\<lambda>_. None),
     wl_origin = (\<lambda>_. ''https://h''), wl_set_path = (\<lambda>_ u. u), wl_clear_query = (\<lambda>u. u), wl_clear_fragment = (\<lambda>u. u),
     wl_set_scheme = (\<lambda>_. Some), wl_append_pair = (\<lambda>k v u. u @ k @ v), wl_to_string = (\<lambda>u. u),
     wl_uuid_show = ex_uuid_show, wl_uuid_parse = ex_uuid_parse, wl_record_from_str = (\<lambda>_. Some r),
     wl_signal_from_str = (\<lambda>_. Inl []), wl_signal_from_slice = (\<lambda>_. Inl []),
     wl_ticket_from_str = (\<lambda>_. Some (ex_uuid_text @ ''.'' @ ex_uuid_text))\<rparr>"

definition ex_page :: web_page where
  "ex_page = \<lparr>pg_window = True, pg_origin = Some ''https://h'', pg_params = None, pg_session = StorageOpen,
     pg_session_get = (\<lambda>_. Some (Some ''t'')), pg_local = StorageOpen, pg_local_get_ok = True,
     pg_local_set_ok = True, pg_ws_new = (\<lambda>_. True), pg_close_ok = True\<rparr>"

definition ex_web_events :: "(web_page \<times> browser_event) list" where
  "ex_web_events = map (Pair ex_page)
     [AddEndpoint ''https://h'', TaskDone 0 (\<lambda>_ _. Body []), SocketEvent 0 SocketOpen,
      SocketEvent 0 (SocketMessage (TextData []))]"

lemma ex_uuid_text: "ex_uuid_show 7 = ex_uuid_text" "ex_uuid_parse ex_uuid_text = Some 7"
proof -
  show *: "ex_uuid_show 7 = ex_uuid_text"
    by code_simp
  show "ex_uuid_parse ex_uuid_text = Some 7"
    using ex_uuid_ok(2) [of 7] * by simp
qed

definition ex_connection :: cloud_connection where
  "ex_connection = \<lparr>cc_generation = 1, cc_tenant_id = Some ex_web_tenant, cc_socket = Some 0,
     cc_reconnect_attempt = 0, cc_persisted_cursor = 0, cc_connecting = False\<rparr>"

lemma ex_ticket:
  "request_stream_ticket (ex_web_lib r) ex_page (\<lambda>_ _. Body []) ''https://h'' =
     Inr \<lparr>at_value = ex_uuid_text @ ''.'' @ ex_uuid_text, at_tenant_id = ex_web_tenant\<rparr>"
proof -
  have ticket: "trim (ex_uuid_text @ ''.'' @ ex_uuid_text) = ex_uuid_text @ ''.'' @ ex_uuid_text"
    "\<not> has_control (ex_uuid_text @ ''.'' @ ex_uuid_text)"
    "split_once (CHR ''.'') (ex_uuid_text @ ''.'' @ ex_uuid_text) = Some (ex_uuid_text, ex_uuid_text)"
    "CHR ''.'' \<notin> set ex_uuid_text" "length (ex_uuid_text @ ''.'' @ ex_uuid_text) = 73" "ex_uuid_text \<noteq> []"
    by code_simp+
  have token: "trim ''t'' = ''t''" "\<not> has_control ''t''" by code_simp+
  show ?thesis
    using ticket token ex_uuid_text
    by (simp add: request_stream_ticket_def browser_access_token_def ticket_endpoint_def cloud_url_def accept_ticket_def
        tenant_from_stream_ticket_def tenant_display_def page_storage_def ex_web_lib_def ex_page_def ex_web_tenant_def
        MAX_ACCESS_TOKEN_BYTES_def MAX_TICKET_BYTES_def MAX_TICKET_RESPONSE_BYTES_def Let_def)
qed

definition ex_stream_url :: string where
  "ex_stream_url = ''https://h'' @ ''ticket'' @ (ex_uuid_text @ ''.'' @ ex_uuid_text) @ ''after'' @ show_u64 0"

definition ex_socket :: web_socket where
  "ex_socket = \<lparr>ws_url = ex_stream_url, ws_binding = CloudBinding ''https://h'' 1 ex_web_tenant,
     ws_attached = True, ws_closed = False\<rparr>"

text \<open>The page after the endpoint was added, the ticket was received and the socket opened.\<close>

lemma ex_web_states:
  fixes r :: signal_record and show_io :: "io_error \<Rightarrow> string"
  defines "step \<equiv> browser_step (ex_web_lib r) show_io ex_page"
  obtains b1 b2 b3 where "b1 = step (AddEndpoint ''https://h'') (ingress_start (ex_web_lib r) ex_page Map.empty)"
    "b2 = step (TaskDone 0 (\<lambda>_ _. Body [])) b1" "b3 = step (SocketEvent 0 SocketOpen) b2"
    "br_sockets b1 = []" "br_sockets b2 = [ex_socket]" "br_sockets b3 = [ex_socket]"
    "br_connections b3 = [(''https://h'', CloudConnection ex_connection)]"
proof -
  let ?wl = "ex_web_lib r"
  have trim: "trim ''https://h'' = ''https://h''" "trim_end_char (CHR ''/'') ''/'' = []" by code_simp+
  obtain b1 where b1: "b1 = step (AddEndpoint ''https://h'') (ingress_start ?wl ex_page Map.empty)" by simp
  have f1: "br_connections b1 = [(''https://h'', CloudConnection \<lparr>cc_generation = 1, cc_tenant_id = None, cc_socket = None,
        cc_reconnect_attempt = 0, cc_persisted_cursor = 0, cc_connecting = True\<rparr>)]"
      "br_tasks b1 = [TicketRequest ''https://h'' 1]" "br_sockets b1 = []" "br_local b1 = Map.empty"
    unfolding b1 step_def
    by (simp_all add: ingress_start_def configured_endpoints_def ingress_add_def browser_normalize_endpoint_def trim Let_def
        add_cloud_def require_same_origin_def ex_web_lib_def ex_page_def put_cloud_def put_connection_def
        publish_storage_scope_def publish_active_snapshot_def push_message_def activate_def begin_cloud_connect_def
        cloud_at_def spawn_local_def)
  obtain b2 where b2: "b2 = step (TaskDone 0 (\<lambda>_ _. Body [])) b1" by simp
  have u: "stream_endpoint ?wl ''https://h'' (ex_uuid_text @ ''.'' @ ex_uuid_text) 0 = Inr ex_stream_url"
    by (simp add: stream_endpoint_def cloud_url_def ex_web_lib_def ex_stream_url_def Let_def)
  have pages: "pg_window ex_page" "pg_local ex_page = StorageOpen" "pg_local_get_ok ex_page" "pg_ws_new ex_page v" for v
    by (simp_all add: ex_page_def)
  have f2: "br_connections b2 = [(''https://h'', CloudConnection (ex_connection\<lparr>cc_connecting := True\<rparr>))]"
      "br_sockets b2 = [ex_socket]"
    unfolding b2 step_def using u
    by (simp_all add: f1 task_done_def ticket_request_done_def ex_ticket open_cloud_socket_def prepare_cloud_tenant_def
        cloud_at_def load_cursor_def local_storage_def page_storage_def new_socket_def put_cloud_def put_connection_def
        publish_storage_scope_def push_message_def ex_connection_def ex_socket_def pages Let_def)
  obtain b3 where b3: "b3 = step (SocketEvent 0 SocketOpen) b2" by simp
  have f3: "br_connections b3 = [(''https://h'', CloudConnection ex_connection)]" "br_sockets b3 = [ex_socket]"
    unfolding b3 step_def
    by (simp_all add: f2 on_socket_event_def mark_closed_def Let_def cloud_at_def put_cloud_def put_connection_def
        ex_connection_def ex_socket_def)
  show thesis by (rule that [OF b1 b2 b3 f1(3) f2(2) f3(2,1)])
qed

lemma ex_web_run:
  assumes "sr_cursor r \<noteq> 0" and "env_scope (sr_envelope r) = Tenant ex_web_tenant"
  defines "b0 \<equiv> ingress_start (ex_web_lib r) ex_page Map.empty"
    and "d \<equiv> \<lparr>dj_signal = env_payload (sr_envelope r), dj_cursor = Some (sr_cursor r), dj_tenant_id = Some ex_web_tenant\<rparr>"
  shows "fst (browser_run (ex_web_lib r) show_io ex_web_events b0) =
      [(''https://h'', ex_web_tenant, d, env_payload (sr_envelope r))]"
    "br_sockets (snd (browser_run (ex_web_lib r) show_io ex_web_events b0)) = [ex_socket]"
proof -
  let ?wl = "ex_web_lib r"
  obtain b1 b2 b3 where b: "b1 = browser_step ?wl show_io ex_page (AddEndpoint ''https://h'') b0"
      "b2 = browser_step ?wl show_io ex_page (TaskDone 0 (\<lambda>_ _. Body [])) b1"
      "b3 = browser_step ?wl show_io ex_page (SocketEvent 0 SocketOpen) b2"
      "br_sockets b1 = []" "br_sockets b2 = [ex_socket]" "br_sockets b3 = [ex_socket]"
      "br_connections b3 = [(''https://h'', CloudConnection ex_connection)]"
    unfolding b0_def by (rule ex_web_states)
  have d: "decode_cloud_message ?wl (TextData []) = Inr d"
    using assms(1,2) by (simp add: d_def decode_cloud_message_def decode_json_signal_def ex_web_lib_def)
  have queued: "should_queue b3 ''https://h'' 1 ex_web_tenant (sr_cursor r)"
    using assms(1) by (simp add: should_queue_def cloud_at_def b(7) ex_connection_def word_gt_0)
  let ?ev = "SocketEvent 0 (SocketMessage (TextData []))"
  have "received ?wl show_io ex_page ?ev b3 = [(''https://h'', ex_web_tenant, d, env_payload (sr_envelope r))]"
    "br_sockets (browser_step ?wl show_io ex_page ?ev b3) = [ex_socket]"
    using queued b(6) d
    by (simp_all add: received_def cloud_message_def on_socket_event_def mark_closed_def queue_cloud_record_def
        persist_cursor_def local_storage_def page_storage_def ex_page_def d_def push_message_def cloud_at_def
        b(7) ex_connection_def ex_socket_def put_cloud_def put_connection_def Let_def)
  then show "fst (browser_run ?wl show_io ex_web_events b0) =
      [(''https://h'', ex_web_tenant, d, env_payload (sr_envelope r))]"
    "br_sockets (snd (browser_run ?wl show_io ex_web_events b0)) = [ex_socket]"
    using b by (simp_all add: ex_web_events_def received_def cloud_message_def)
qed

section \<open>Properties\<close>

text \<open>C39: a browser dashboard receives every record of a tenant at most once and in order, across
  reconnects, disconnects, tenant changes and page loads, as long as the browser's storage works:
  each signal that a cloud stream puts into its queue belongs to the tenant that the stream's
  ticket proved, and the cursors received for a tenant at an endpoint increase strictly from the
  cursor that was stored at first to the one that is stored at last.\<close>

theorem browser_receives_each_record_once:
  assumes uuid: "uuid_text_ok wl"
    and events: "\<forall>(pg, ev) \<in> set evs. storage_works pg \<and> stores_no_cursor ev"
    and run: "browser_run wl show_io evs (ingress_start wl pg0 stored) = (rs, b)"
  shows "(\<forall>(e, t, d, s) \<in> set rs. s = dj_signal d \<and> dj_tenant_id d = Some t \<and> dj_cursor d \<noteq> None) \<and>
    (\<forall>e t. let first = stored_cursor wl e t (ingress_start wl pg0 stored) in
       sorted_wrt (<) (first # cursors_for e t rs) \<and> stored_cursor wl e t b = last (first # cursors_for e t rs))"
proof -
  note received = browser_run_received [OF uuid ingress_start_inv(2) events run]
  show ?thesis
    unfolding Let_def by (intro conjI allI) (rule received [THEN conjunct1] received [THEN conjunct2, THEN conjunct1]
        received [THEN conjunct2, THEN conjunct2])+
qed

theorem browser_receives_each_record_once_witness:
  "let run = browser_run (ex_web_lib ex_web_record) (\<lambda>_. []) ex_web_events (ingress_start (ex_web_lib ex_web_record) ex_page Map.empty)
   in cursors_for ''https://h'' ex_web_tenant (fst run) = [1] \<and>
     stored_cursor (ex_web_lib ex_web_record) ''https://h'' ex_web_tenant (snd run) = 1"
proof -
  let ?wl = "ex_web_lib ex_web_record"
  obtain rs b where run: "browser_run ?wl (\<lambda>_. []) ex_web_events (ingress_start ?wl ex_page Map.empty) = (rs, b)"
    by fastforce
  have uuid: "uuid_text_ok ?wl" by (simp add: uuid_text_ok_def ex_web_lib_def ex_uuid_ok)
  have events: "\<forall>(pg, ev) \<in> set ex_web_events. storage_works pg \<and> stores_no_cursor ev"
    by (simp add: ex_web_events_def storage_works_def local_storage_def page_storage_def ex_page_def)
  have c: "cursors_for ''https://h'' ex_web_tenant rs = [1]"
    using ex_web_run(1) [of ex_web_record "\<lambda>_. []"] run by (simp add: ex_web_record_def)
  have "stored_cursor ?wl ''https://h'' ex_web_tenant b = 1"
    using browser_receives_each_record_once [OF uuid events run] c unfolding Let_def
    by (elim conjE allE [of _ "''https://h''"] allE [of _ ex_web_tenant]) simp
  then show ?thesis using run c by (simp add: Let_def)
qed

end
