(* ===== verification/Browser_Session.thy ===== *)
theory Browser_Session
  imports Browser_Ingress
begin

text \<open>
  How the connections of a page evolve: which sockets can still deliver records, which requests
  and timers are pending, and that the two exclude each other. A socket is live when the browser
  still calls its handlers. The facts here say which stream a received record came from.
\<close>

definition live_socket :: "browser \<Rightarrow> string \<Rightarrow> u64 \<Rightarrow> tenant_id \<Rightarrow> nat \<Rightarrow> bool" where
  "live_socket b e g t i \<longleftrightarrow> i < length (br_sockets b) \<and> ws_attached (br_sockets b ! i) \<and>
     \<not> ws_closed (br_sockets b ! i) \<and> ws_binding (br_sockets b ! i) = CloudBinding e g t"

fun task_for :: "string \<Rightarrow> u64 \<Rightarrow> browser_task \<Rightarrow> bool" where
  "task_for e g (TicketRequest e' g') \<longleftrightarrow> e' = e \<and> g' = g"
| "task_for e g (RetryTimer e' g' _) \<longleftrightarrow> e' = e \<and> g' = g"

fun task_generation :: "browser_task \<Rightarrow> u64" where
  "task_generation (TicketRequest _ g) = g"
| "task_generation (RetryTimer _ g _) = g"

definition tasks_of :: "browser \<Rightarrow> string \<Rightarrow> u64 \<Rightarrow> browser_task list" where
  "tasks_of b e g = filter (task_for e g) (br_tasks b)"

definition session_inv :: "nat \<Rightarrow> browser \<Rightarrow> bool" where
  "session_inv n b \<longleftrightarrow> distinct (map fst (br_connections b)) \<and> unat (br_next_generation b) \<le> n \<and>
     (\<forall>e g t i. live_socket b e g t i \<longrightarrow>
        (\<exists>c. cloud_at b e g = Some c \<and> cc_socket c = Some i \<and> cc_tenant_id c = Some t) \<and> tasks_of b e g = []) \<and>
     (\<forall>e g c. cloud_at b e g = Some c \<longrightarrow> length (tasks_of b e g) \<le> 1 \<and> unat g < unat (br_next_generation b)) \<and>
     (\<forall>task \<in> set (br_tasks b). unat (task_generation task) < unat (br_next_generation b))"

lemma session_live:
  assumes "session_inv n b" and "live_socket b e g t i"
  shows "tasks_of b e g = []" "\<exists>c. cloud_at b e g = Some c \<and> cc_socket c = Some i \<and> cc_tenant_id c = Some t"
  using assms unfolding session_inv_def by blast+

lemma session_cloud:
  assumes "session_inv n b" and "cloud_at b e g = Some c"
  shows "length (tasks_of b e g) \<le> 1" "unat g < unat (br_next_generation b)"
  using assms unfolding session_inv_def by blast+

lemma cloud_at_other: "cloud_at b e g = Some c \<Longrightarrow> cloud_at b e g' = (if g' = g then Some c else None)"
  by (auto simp: cloud_at_def split: option.splits browser_connection.splits if_splits)

text \<open>A step is tame when it starts no task, opens no cloud socket and leaves the socket and the
  tenant of every cloud connection alone.\<close>

definition connection_view :: "browser \<Rightarrow> string \<Rightarrow> u64 \<Rightarrow> (nat option \<times> tenant_id option) option" where
  "connection_view b e g = map_option (\<lambda>c. (cc_socket c, cc_tenant_id c)) (cloud_at b e g)"

definition tame :: "browser \<Rightarrow> browser \<Rightarrow> bool" where
  "tame b b' \<longleftrightarrow> distinct (map fst (br_connections b)) \<longrightarrow> distinct (map fst (br_connections b')) \<and>
     br_next_generation b' = br_next_generation b \<and> br_tasks b' = br_tasks b \<and>
     (\<forall>e g t i. live_socket b' e g t i \<longrightarrow> live_socket b e g t i) \<and>
     (\<forall>e g. connection_view b' e g = connection_view b e g)"

lemma tame_refl [simp]: "tame b b"
  by (simp add: tame_def)

lemma tame_trans: "tame b1 b2 \<Longrightarrow> tame b2 b3 \<Longrightarrow> tame b1 b3"
  by (simp add: tame_def)

lemma tame_session:
  assumes "tame b b'" and inv: "session_inv n b"
  shows "session_inv n b'"
proof -
  have t: "distinct (map fst (br_connections b'))" "br_next_generation b' = br_next_generation b" "br_tasks b' = br_tasks b"
      "\<And>e g t i. live_socket b' e g t i \<Longrightarrow> live_socket b e g t i" "\<And>e g. connection_view b' e g = connection_view b e g"
    using assms by (auto simp: tame_def session_inv_def)
  have c: "cloud_at b' e g = Some c' \<Longrightarrow> \<exists>c. cloud_at b e g = Some c" for e g c'
    using t(5) [of e g] by (cases "cloud_at b e g") (auto simp: connection_view_def)
  have d: "cloud_at b e g = Some c \<Longrightarrow> \<exists>c'. cloud_at b' e g = Some c' \<and> cc_socket c' = cc_socket c \<and>
      cc_tenant_id c' = cc_tenant_id c" for e g c
    using t(5) [of e g] by (auto simp: connection_view_def)
  show ?thesis
    unfolding session_inv_def
  proof (intro conjI allI impI)
    fix e g t' i
    assume "live_socket b' e g t' i"
    then obtain c where "cloud_at b e g = Some c" "cc_socket c = Some i" "cc_tenant_id c = Some t'" "tasks_of b e g = []"
      using session_live [OF inv t(4)] by blast
    then show "\<exists>c. cloud_at b' e g = Some c \<and> cc_socket c = Some i \<and> cc_tenant_id c = Some t'" "tasks_of b' e g = []"
      using d [of e g c] by (auto simp: tasks_of_def t(3))
  next
    fix e g c'
    assume "cloud_at b' e g = Some c'"
    then show "length (tasks_of b' e g) \<le> 1" "unat g < unat (br_next_generation b')"
      using c [of e g c'] session_cloud [OF inv, of e g] by (auto simp: tasks_of_def t(2,3))
  qed (use t inv in \<open>auto simp: session_inv_def\<close>)
qed

lemma tame_same:
  assumes "br_connections b' = br_connections b" "br_sockets b' = br_sockets b" "br_tasks b' = br_tasks b"
    "br_next_generation b' = br_next_generation b"
  shows "tame b b'"
  using assms by (simp add: tame_def live_socket_def connection_view_def cloud_at_def)

lemma tame_push: "tame b (push_message m b)"
  by (rule tame_same) (simp_all add: push_message_def)

lemma tame_report: "tame b (report_error l e b)"
  unfolding report_error_def by (rule tame_push)

lemma tame_scope: "tame b (publish_storage_scope s b)"
  unfolding publish_storage_scope_def by (rule tame_push)

lemma tame_snapshot: "tame b (publish_active_snapshot b)"
  unfolding publish_active_snapshot_def by (rule tame_push)

lemma tame_active: "tame b (activate e b)" "tame b (deactivate e b)"
  by (rule tame_same; simp add: activate_def deactivate_def)+

lemma tame_socket_flags:
  "tame b (detach_handlers i b)" "tame b (mark_closed i ev b)"
  by (cases "i < length (br_sockets b)"; auto simp: tame_def live_socket_def connection_view_def cloud_at_def detach_handlers_def mark_closed_def nth_list_update
      split: socket_event.splits if_splits)+

lemma cloud_at_put:
  "cloud_at (put_cloud e c b) e' g = (if e' = e then (if cc_generation c = g then Some c else None) else cloud_at b e' g)"
  by (simp add: cloud_at_def put_cloud_def put_connection_def update_conv')

lemma tame_put_cloud:
  assumes "cloud_at b e g = Some c" "cc_generation c' = cc_generation c" "cc_socket c' = cc_socket c"
    "cc_tenant_id c' = cc_tenant_id c"
  shows "tame b (put_cloud e c' b)"
proof -
  have "connection_view (put_cloud e c' b) e' g' = connection_view b e' g'" for e' g'
    using assms cloud_at_other [OF assms(1), of g'] by (auto simp: connection_view_def cloud_at_put cloud_at_Some)
  then show ?thesis
    by (auto simp: tame_def live_socket_def put_cloud_def put_connection_def distinct_update)
qed

lemma tame_connecting: "tame b (set_cloud_connecting e g f b)"
  by (auto simp: set_cloud_connecting_def split: option.splits intro!: tame_put_cloud)

section \<open>Tasks\<close>

text \<open>Nothing is pending and nothing is delivered for a connection.\<close>

definition idle :: "browser \<Rightarrow> string \<Rightarrow> u64 \<Rightarrow> bool" where
  "idle b e g \<longleftrightarrow> tasks_of b e g = [] \<and> (\<forall>t i. \<not> live_socket b e g t i)"

lemma tameD:
  assumes "tame b b'" and "session_inv n b"
  shows "br_next_generation b' = br_next_generation b" "br_tasks b' = br_tasks b"
    "live_socket b' e g t i \<Longrightarrow> live_socket b e g t i" "connection_view b' e g = connection_view b e g"
  using assms unfolding tame_def session_inv_def by blast+

lemma tame_idle: "tame b b' \<Longrightarrow> session_inv n b \<Longrightarrow> idle b e g \<Longrightarrow> idle b' e g"
  unfolding idle_def tasks_of_def using tameD(2,3) [of b b' n] by metis

lemma tame_cloud_at:
  assumes "tame b b'" and "session_inv n b"
  shows "cloud_at b' e g = None \<longleftrightarrow> cloud_at b e g = None"
  using tameD(4) [OF assms, of e g] by (cases "cloud_at b e g"; cases "cloud_at b' e g") (auto simp: connection_view_def)

lemma live_spawn [simp]: "live_socket (spawn_local task b) = live_socket b" "cloud_at (spawn_local task b) = cloud_at b"
  by (auto simp: live_socket_def spawn_local_def cloud_at_def fun_eq_iff)

lemma task_for_unique: "task_for e g task \<Longrightarrow> task_for e' g' task \<longleftrightarrow> e' = e \<and> g' = g"
  by (cases task) auto

lemma task_for_generation: "task_for e g task \<Longrightarrow> task_generation task = g"
  by (cases task) auto

lemma session_spawn:
  assumes inv: "session_inv n b" and c: "cloud_at b e g = Some c" and idle: "idle b e g" and task: "task_for e g task"
  shows "session_inv n (spawn_local task b)"
proof -
  have tasks: "tasks_of (spawn_local task b) e' g' = (if e' = e \<and> g' = g then [task] else tasks_of b e' g')" for e' g'
    using idle task_for_unique [OF task] by (auto simp: tasks_of_def spawn_local_def idle_def)
  show ?thesis
    unfolding session_inv_def
  proof (intro conjI allI impI)
    fix e' g' t i
    assume l: "live_socket (spawn_local task b) e' g' t i"
    then have "\<not> (e' = e \<and> g' = g)" using idle by (auto simp: idle_def)
    then show "\<exists>c. cloud_at (spawn_local task b) e' g' = Some c \<and> cc_socket c = Some i \<and> cc_tenant_id c = Some t"
        "tasks_of (spawn_local task b) e' g' = []"
      using l session_live [OF inv, of e' g' t i] by (auto simp: tasks)
  next
    fix e' g' c'
    assume "cloud_at (spawn_local task b) e' g' = Some c'"
    then show "length (tasks_of (spawn_local task b) e' g') \<le> 1" "unat g' < unat (br_next_generation (spawn_local task b))"
      using session_cloud [OF inv, of e' g'] by (simp_all add: tasks, simp add: spawn_local_def)
  qed (use inv session_cloud [OF inv c] task_for_generation [OF task] in \<open>auto simp: session_inv_def spawn_local_def\<close>)
qed

lemma session_begin:
  assumes inv: "session_inv n b" and idle: "idle b e g"
  shows "session_inv n (begin_cloud_connect e g b)"
proof (cases "cloud_at b e g")
  case (Some c)
  let ?b = "put_cloud e (c\<lparr>cc_connecting := True\<rparr>) b"
  have "tame b ?b" using Some by (rule tame_put_cloud) simp_all
  then have "session_inv n ?b" "idle ?b e g" using tame_session [OF _ inv] tame_idle [OF _ inv idle] by blast+
  moreover have "cloud_at ?b e g = Some (c\<lparr>cc_connecting := True\<rparr>)"
    using Some by (simp add: cloud_at_put cloud_at_Some)
  ultimately have "session_inv n (spawn_local (TicketRequest e g) ?b)" using session_spawn by fastforce
  then show ?thesis using inv Some by (simp add: begin_cloud_connect_def)
qed (use inv in \<open>simp add: begin_cloud_connect_def\<close>)

lemma session_retry:
  assumes inv: "session_inv n b" and idle: "idle b e g"
  shows "session_inv n (schedule_cloud_retry e g r b)"
proof (cases "cloud_at b e g")
  case (Some c)
  let ?c = "c\<lparr>cc_reconnect_attempt := cc_reconnect_attempt c + 1\<rparr>"
  have "session_inv n (spawn_local (RetryTimer e g d) (report_error l m (put_cloud e ?c b)))" for d l m
  proof -
    have "tame b (put_cloud e ?c b)" using Some by (rule tame_put_cloud) simp_all
    then have t: "tame b (report_error l m (put_cloud e ?c b))" using tame_report by (rule tame_trans)
    have "cloud_at (report_error l m (put_cloud e ?c b)) e g = Some ?c"
      using Some by (simp add: report_error_def push_message_def cloud_at_def put_cloud_def put_connection_def update_conv'
          split: option.splits browser_connection.splits if_splits)
    then show ?thesis
      by (rule session_spawn [OF tame_session [OF t inv] _ tame_idle [OF t inv idle]]) simp
  qed
  then show ?thesis
    using Some inv tame_session [OF tame_report inv] by (simp add: schedule_cloud_retry_def Let_def)
qed (use inv in \<open>simp add: schedule_cloud_retry_def\<close>)

lemma session_drop_task:
  assumes inv: "session_inv n b" and i: "i < length (br_tasks b)"
  defines "b' \<equiv> b\<lparr>br_tasks := take i (br_tasks b) @ drop (Suc i) (br_tasks b)\<rparr>"
  shows "session_inv n b'" "cloud_at b' = cloud_at b" "live_socket b' = live_socket b"
    "task_for e g (br_tasks b ! i) \<Longrightarrow> cloud_at b e g \<noteq> None \<Longrightarrow> idle b' e g"
proof -
  have split: "br_tasks b = take i (br_tasks b) @ br_tasks b ! i # drop (Suc i) (br_tasks b)"
    using i by (rule id_take_nth_drop)
  have tasks: "tasks_of b e g = filter (task_for e g) (take i (br_tasks b)) @
      (if task_for e g (br_tasks b ! i) then [br_tasks b ! i] else []) @ filter (task_for e g) (drop (Suc i) (br_tasks b))" for e g
    unfolding tasks_of_def by (subst split) simp
  have tasks': "tasks_of b' e g = filter (task_for e g) (take i (br_tasks b)) @ filter (task_for e g) (drop (Suc i) (br_tasks b))" for e g
    by (simp add: tasks_of_def b'_def)
  show at: "cloud_at b' = cloud_at b" and live_socket: "live_socket b' = live_socket b"
    by (auto simp: b'_def cloud_at_def live_socket_def fun_eq_iff)
  have sub: "set (br_tasks b') \<subseteq> set (br_tasks b)"
    by (auto simp: b'_def dest: in_set_takeD in_set_dropD)
  show "session_inv n b'"
    unfolding session_inv_def at live_socket
  proof (intro conjI allI impI)
    fix e g t i
    assume "live_socket b e g t i"
    from session_live [OF inv this] show "\<exists>c. cloud_at b e g = Some c \<and> cc_socket c = Some i \<and> cc_tenant_id c = Some t"
      "tasks_of b' e g = []" by (auto simp: tasks tasks' split: if_splits)
  next
    fix e g c
    assume "cloud_at b e g = Some c"
    from session_cloud [OF inv this] show "length (tasks_of b' e g) \<le> 1" "unat g < unat (br_next_generation b')"
      by (simp_all add: tasks tasks', simp add: b'_def)
  qed (use inv sub in \<open>auto simp: session_inv_def b'_def\<close>)
  assume *: "task_for e g (br_tasks b ! i)" "cloud_at b e g \<noteq> None"
  have "length (tasks_of b e g) \<le> 1" "tasks_of b e g \<noteq> []" using * session_cloud(1) [OF inv, of e g] by (auto simp: tasks)
  then have "tasks_of b' e g = []" "\<not> live_socket b e g t j" for t j
    using * session_live(1) [OF inv, of e g] by (auto simp: tasks tasks')
  then show "idle b' e g" by (simp add: idle_def live_socket)
qed

section \<open>Opening a stream\<close>

lemma session_put_idle:
  assumes inv: "session_inv n b" and idle: "idle b e g" and c: "cloud_at b e g = Some c" and g: "cc_generation c' = g"
  shows "session_inv n (put_cloud e c' b)" "idle (put_cloud e c' b) e g"
proof -
  have live_socket: "live_socket (put_cloud e c' b) = live_socket b" and tasks: "tasks_of (put_cloud e c' b) = tasks_of b"
    by (auto simp: live_socket_def put_cloud_def put_connection_def tasks_of_def fun_eq_iff)
  have other: "live_socket b e' g' t i \<Longrightarrow> e' \<noteq> e" for e' g' t i
    using session_live(2) [OF inv, of e' g' t i] cloud_at_other [OF c, of g'] idle
    by (auto simp: idle_def split: if_splits)
  show "session_inv n (put_cloud e c' b)"
    unfolding session_inv_def live_socket tasks
  proof (intro conjI allI impI)
    fix e' g' t i
    assume l: "live_socket b e' g' t i"
    from session_live [OF inv l] other [OF l]
    show "\<exists>c. cloud_at (put_cloud e c' b) e' g' = Some c \<and> cc_socket c = Some i \<and> cc_tenant_id c = Some t"
      "tasks_of b e' g' = []" by (simp_all add: cloud_at_put)
  next
    fix e' g' c''
    assume "cloud_at (put_cloud e c' b) e' g' = Some c''"
    then have "\<exists>c. cloud_at b e' g' = Some c" using c g by (auto simp: cloud_at_put split: if_splits)
    then show "length (tasks_of b e' g') \<le> 1" "unat g' < unat (br_next_generation (put_cloud e c' b))"
      using session_cloud [OF inv, of e' g'] by (auto simp: put_cloud_def put_connection_def)
  qed (use inv in \<open>auto simp: session_inv_def put_cloud_def put_connection_def distinct_update\<close>)
  show "idle (put_cloud e c' b) e g" using idle by (simp add: idle_def live_socket tasks)
qed

lemma session_open:
  assumes inv: "session_inv n b" and idle: "idle b e g" and c: "cloud_at b e g = Some c" and t: "cc_tenant_id c = Some t"
    and b1: "b1 = new_socket u (CloudBinding e g t) b \<or> b1 = detach_handlers p (new_socket u (CloudBinding e g t) b)"
  defines "b' \<equiv> put_cloud e (c\<lparr>cc_socket := Some (length (br_sockets b))\<rparr>) b1"
  shows "session_inv n b'"
proof -
  let ?i = "length (br_sockets b)" and ?c = "c\<lparr>cc_socket := Some (length (br_sockets b))\<rparr>"
  have conns: "br_connections b1 = br_connections b" "br_tasks b1 = br_tasks b" "br_next_generation b1 = br_next_generation b"
    using b1 by (auto simp: new_socket_def detach_handlers_def)
  have "live_socket b' e' g' t' i \<Longrightarrow> live_socket (new_socket u (CloudBinding e g t) b) e' g' t' i" for e' g' t' i
  proof -
    assume "live_socket b' e' g' t' i"
    then have "live_socket b1 e' g' t' i" by (simp add: b'_def live_socket_def put_cloud_def put_connection_def)
    moreover have "live_socket (detach_handlers p b2) e' g' t' i \<Longrightarrow> live_socket b2 e' g' t' i" for b2
      by (cases "p < length (br_sockets b2)") (auto simp: live_socket_def detach_handlers_def nth_list_update split: if_splits)
    ultimately show ?thesis using b1 by auto
  qed
  then have live_socket: "live_socket b e' g' t' i \<or> i = ?i \<and> e' = e \<and> g' = g \<and> t' = t" if "live_socket b' e' g' t' i" for e' g' t' i
    using that by (fastforce simp: live_socket_def new_socket_def nth_append less_Suc_eq split: if_splits)
  have tasks: "tasks_of b' = tasks_of b"
    by (simp add: fun_eq_iff tasks_of_def b'_def put_cloud_def put_connection_def conns)
  have at: "cloud_at b' e' g' = (if e' = e then (if g' = g then Some ?c else None) else cloud_at b e' g')" for e' g'
    using c by (auto simp: b'_def cloud_at_put cloud_at_Some) (simp_all add: cloud_at_def conns)
  show ?thesis
    unfolding session_inv_def tasks
  proof (intro conjI allI impI)
    fix e' g' t' i
    assume "live_socket b' e' g' t' i"
    from live_socket [OF this] show "\<exists>c. cloud_at b' e' g' = Some c \<and> cc_socket c = Some i \<and> cc_tenant_id c = Some t'"
      and "tasks_of b e' g' = []"
      using session_live [OF inv, of e' g' t' i] cloud_at_other [OF c, of g'] idle t
      by (auto simp: at idle_def split: if_splits)
  next
    fix e' g' c''
    assume "cloud_at b' e' g' = Some c''"
    then have "\<exists>c. cloud_at b e' g' = Some c" using c by (auto simp: at split: if_splits)
    then show "length (tasks_of b e' g') \<le> 1" "unat g' < unat (br_next_generation b')"
      using session_cloud [OF inv, of e' g'] by (auto simp: b'_def conns put_cloud_def put_connection_def)
  qed (use inv in \<open>auto simp: session_inv_def b'_def conns put_cloud_def put_connection_def distinct_update\<close>)
qed

lemma session_prepare:
  assumes inv: "session_inv n b" and idle: "idle b e g" and c: "cloud_at b e g = Some c"
    and prepare: "prepare_cloud_tenant wl pg e g t b = (r, b1)"
  shows "session_inv n b1 \<and> idle b1 e g \<and> (\<exists>c1. cloud_at b1 e g = Some c1 \<and> cc_tenant_id c1 = Some t \<and>
    r = Some (cc_persisted_cursor c1))"
proof (cases "cc_tenant_id c = Some t")
  case True
  then show ?thesis using assms by (auto simp: prepare_cloud_tenant_def)
next
  case False
  obtain m b2 where b2: "(case load_cursor wl pg e t b of Inr cursor \<Rightarrow> (cursor, b)
      | Inl e' \<Rightarrow> (0, report_error (Some e) e' b)) = (m, b2)" by fastforce
  let ?c = "c\<lparr>cc_tenant_id := Some t, cc_persisted_cursor := m\<rparr>"
  have t2: "tame b b2" and c2: "cloud_at b2 e g = Some c"
    using b2 c tame_report by (auto split: sum.splits simp: report_error_def push_message_def cloud_at_def)
  have inv2: "session_inv n b2" and idle2: "idle b2 e g"
    using tame_session [OF t2 inv] tame_idle [OF t2 inv idle] by auto
  have gen: "cc_generation ?c = g" using c by (simp add: cloud_at_Some)
  note put = session_put_idle [OF inv2 idle2 c2 gen]
  have b1: "r = Some m" "b1 = publish_storage_scope (CloudScope e t) (put_cloud e ?c b2)"
    using prepare c False b2 by (auto simp: prepare_cloud_tenant_def)
  have "cloud_at b1 e g = Some ?c"
    using gen by (simp add: b1 publish_storage_scope_def push_message_def cloud_at_def put_cloud_def put_connection_def
        update_conv')
  then show ?thesis
    using b1 tame_session [OF tame_scope put(1)] tame_idle [OF tame_scope put] by auto
qed

text \<open>A socket that is live after a ticket request was live before, or is new and asks for the records
  after the cursor of its connection.\<close>

definition opened :: "'u web_lib \<Rightarrow> browser \<Rightarrow> browser \<Rightarrow> string \<Rightarrow> u64 \<Rightarrow> nat \<Rightarrow> bool" where
  "opened wl b b' e g i \<longleftrightarrow> length (br_sockets b) \<le> i \<and>
     (\<exists>ticket after c. stream_endpoint wl e ticket after = Inr (ws_url (br_sockets b' ! i)) \<and>
        cloud_at b' e g = Some c \<and> cc_persisted_cursor c = after)"

lemma tame_live: "tame b b' \<Longrightarrow> session_inv n b \<Longrightarrow> live_socket b' e g t i \<Longrightarrow> live_socket b e g t i"
  by (rule tameD(3))

lemma schedule_live: "live_socket (schedule_cloud_retry e g r b) = live_socket b"
  by (auto simp: schedule_cloud_retry_def Let_def live_socket_def spawn_local_def report_error_def push_message_def put_cloud_def
      put_connection_def fun_eq_iff split: option.splits)

lemma session_failed:
  assumes inv: "session_inv n b" and idle: "idle b e g"
  shows "session_inv n (schedule_cloud_retry e g m (set_cloud_connecting e g False b))"
    "live_socket (schedule_cloud_retry e g m (set_cloud_connecting e g False b)) e' g' t i \<Longrightarrow> live_socket b e' g' t i"
  using session_retry [OF tame_session [OF tame_connecting inv] tame_idle [OF tame_connecting inv idle]]
    tame_live [OF tame_connecting inv]
  by (auto simp: schedule_live)

lemma prepare_live: "prepare_cloud_tenant wl pg e g t b = (r, b1) \<Longrightarrow> live_socket b1 = live_socket b"
  by (auto simp: prepare_cloud_tenant_def live_socket_def publish_storage_scope_def report_error_def push_message_def put_cloud_def
      put_connection_def fun_eq_iff split: option.splits if_splits sum.splits)

lemma prepare_sockets: "prepare_cloud_tenant wl pg e g t b = (r, b1) \<Longrightarrow> br_sockets b1 = br_sockets b"
  by (auto simp: prepare_cloud_tenant_def publish_storage_scope_def report_error_def push_message_def put_cloud_def
      put_connection_def split: option.splits if_splits sum.splits)

lemma session_opened:
  assumes inv: "session_inv n b" and idle: "idle b e g" and c: "cloud_at b e g = Some c" and t: "cc_tenant_id c = Some t"
    and u: "stream_endpoint wl e ticket (cc_persisted_cursor c) = Inr u"
    and b1: "b1 = new_socket u (CloudBinding e g t) b \<or> b1 = detach_handlers p (new_socket u (CloudBinding e g t) b)"
    and b': "b' = put_cloud e (c\<lparr>cc_socket := Some (length (br_sockets b))\<rparr>) b1"
  shows "session_inv n b'" "live_socket b' e' g' t' i \<Longrightarrow> live_socket b e' g' t' i \<or> e' = e \<and> g' = g \<and> opened wl b b' e g i"
proof -
  let ?s = "new_socket u (CloudBinding e g t) b"
  show "session_inv n b'" unfolding b' by (rule session_open [OF inv idle c t b1])
  assume "live_socket b' e' g' t' i"
  then have l: "live_socket b1 e' g' t' i" by (simp add: b' live_socket_def put_cloud_def put_connection_def)
  have flags: "live_socket ?s e' g' t' i \<and> ws_url (br_sockets b1 ! i) = ws_url (br_sockets ?s ! i)"
    using b1 l
    by (cases "p < length (br_sockets ?s)") (auto simp: live_socket_def detach_handlers_def nth_list_update split: if_splits)
  show "live_socket b e' g' t' i \<or> e' = e \<and> g' = g \<and> opened wl b b' e g i"
  proof (cases "i < length (br_sockets b)")
    case True
    then have "live_socket b e' g' t' i" using flags by (simp add: live_socket_def new_socket_def nth_append)
    then show ?thesis ..
  next
    case False
    then have i: "i = length (br_sockets b)" "e' = e" "g' = g"
      using flags by (auto simp: live_socket_def new_socket_def nth_append less_Suc_eq split: if_splits)
    have "cloud_at b' e g = Some (c\<lparr>cc_socket := Some (length (br_sockets b))\<rparr>)"
      using c by (simp add: b' cloud_at_put cloud_at_Some)
    moreover have "ws_url (br_sockets b' ! i) = u"
      using flags i by (simp add: b' put_cloud_def put_connection_def new_socket_def)
    ultimately have "opened wl b b' e g i" using u i by (auto simp: opened_def)
    then show ?thesis using i by simp
  qed
qed

lemma session_ticket:
  fixes wl :: "'u web_lib" and pg :: web_page and fetch :: "string \<Rightarrow> string \<Rightarrow> fetch_outcome"
  assumes inv: "session_inv n b" and idle: "cloud_at b e g \<noteq> None \<Longrightarrow> idle b e g"
  defines "b' \<equiv> ticket_request_done wl pg fetch e g b"
  shows "session_inv n b' \<and> (\<forall>e' g' t i. live_socket b' e' g' t i \<longrightarrow> live_socket b e' g' t i \<or> e' = e \<and> g' = g \<and> opened wl b b' e g i)"
proof (cases "cloud_at b e g")
  case None
  then have "b' = b"
    by (auto simp: b'_def ticket_request_done_def open_cloud_socket_def prepare_cloud_tenant_def set_cloud_connecting_def
        schedule_cloud_retry_def split: sum.splits)
  then show ?thesis using inv by simp
next
  case (Some c)
  note idle = idle [unfolded Some, simplified]
  show ?thesis
  proof (cases "request_stream_ticket wl pg fetch e")
    case (Inl m)
    then show ?thesis using session_failed [OF inv idle] by (auto simp: b'_def ticket_request_done_def)
  next
    case (Inr ticket)
    obtain r b1 where b1: "prepare_cloud_tenant wl pg e g (at_tenant_id ticket) b = (r, b1)" by fastforce
    obtain c1 where inv1: "session_inv n b1" "idle b1 e g" and c1: "cloud_at b1 e g = Some c1"
        "cc_tenant_id c1 = Some (at_tenant_id ticket)" "r = Some (cc_persisted_cursor c1)"
      using session_prepare [OF inv idle Some b1] by blast
    show ?thesis
    proof (cases "\<exists>u. stream_endpoint wl e (at_value ticket) (cc_persisted_cursor c1) = Inr u \<and> pg_ws_new pg u")
      case False
      then obtain m where "open_cloud_socket wl pg e g ticket b = (Inl m, b1)"
        using b1 c1
        by (cases "stream_endpoint wl e (at_value ticket) (cc_persisted_cursor c1)") (auto simp: open_cloud_socket_def)
      then show ?thesis
        using Inr session_failed [OF inv1] prepare_live [OF b1] by (auto simp: b'_def ticket_request_done_def)
    next
      case True
      then obtain u where u: "stream_endpoint wl e (at_value ticket) (cc_persisted_cursor c1) = Inr u" "pg_ws_new pg u" by blast
      let ?s = "new_socket u (CloudBinding e g (at_tenant_id ticket)) b1"
      have at: "cloud_at ?s e g = Some c1" using c1 by (simp add: cloud_at_def new_socket_def)
      obtain b2 p where b2: "b2 = ?s \<or> b2 = detach_handlers p ?s"
          and b': "b' = put_cloud e (c1\<lparr>cc_socket := Some (length (br_sockets b1))\<rparr>) b2"
        using b1 c1 u at Inr
        by (cases "cc_socket c1") (auto simp: b'_def ticket_request_done_def open_cloud_socket_def Let_def)
      show ?thesis
        using session_opened [OF inv1 c1(1,2) u(1) b2 b'] prepare_live [OF b1] prepare_sockets [OF b1]
        by (auto simp: opened_def)
    qed
  qed
qed

section \<open>Steps\<close>

lemma session_mono: "session_inv n b \<Longrightarrow> n \<le> m \<Longrightarrow> session_inv m b"
  unfolding session_inv_def by auto

lemma tame_filter: "tame b (b\<lparr>br_connections := filter (\<lambda>(_, c). \<not> raw_closed b c) (br_connections b)\<rparr>)"
proof -
  let ?b = "b\<lparr>br_connections := filter (\<lambda>(_, c). \<not> raw_closed b c) (br_connections b)\<rparr>"
  have "cloud_at ?b e g = cloud_at b e g" if d: "distinct (map fst (br_connections b))" for e g
  proof -
    have "cloud_at ?b e g = Some c \<longleftrightarrow> cloud_at b e g = Some c" for c
      using d by (auto simp: cloud_at_Some distinct_map_filter raw_closed_def)
    then show ?thesis by (metis not_None_eq)
  qed
  then show ?thesis by (simp add: tame_def live_socket_def connection_view_def distinct_map_filter)
qed

lemma tame_add_raw:
  assumes "map_of (br_connections b) e = None"
  shows "tame b (snd (add_raw pg e b))"
  using assms
  by (auto simp: add_raw_def Let_def tame_def live_socket_def connection_view_def cloud_at_def new_socket_def put_connection_def
      publish_storage_scope_def push_message_def update_conv' distinct_update nth_append less_Suc_eq split: if_splits)

lemma session_add_cloud:
  assumes inv: "session_inv n b" and e: "map_of (br_connections b) e = None" and n: "n < 2 ^ 64 - 1"
  shows "session_inv (Suc n) (snd (add_cloud wl pg e b)) \<and> live_socket (snd (add_cloud wl pg e b)) = live_socket b"
proof (cases "require_same_origin wl pg e")
  case (Inl m)
  then show ?thesis using session_mono [OF inv] by (simp add: add_cloud_def)
next
  case (Inr u)
  let ?g = "br_next_generation b"
  let ?c = "\<lparr>cc_generation = ?g, cc_tenant_id = None, cc_socket = None, cc_reconnect_attempt = 0,
      cc_persisted_cursor = 0, cc_connecting = False\<rparr>"
  let ?b = "put_cloud e ?c (b\<lparr>br_next_generation := max (?g + 1) 1\<rparr>)"
  have "unat ?g \<le> n" using inv by (simp add: session_inv_def)
  then have next_g: "unat (max (?g + 1) 1) = Suc (unat ?g)"
    using n by (subst max_def) (auto simp: word_le_nat_alt unat_word_ariths)
  have none: "\<not> live_socket b e g t i" for g t i
    using session_live(2) [OF inv, of e g t i] e by (auto simp: cloud_at_def)
  have tasks: "tasks_of b e ?g = []"
    using inv task_for_generation by (fastforce simp: session_inv_def tasks_of_def filter_empty_conv)
  have at: "cloud_at ?b e' g' = (if e' = e then (if g' = ?g then Some ?c else None) else cloud_at b e' g')" for e' g'
    by (simp add: cloud_at_def put_cloud_def put_connection_def update_conv')
  have next_b: "unat (br_next_generation ?b) = Suc (unat ?g)"
    using next_g by (simp add: put_cloud_def put_connection_def)
  have same: "live_socket ?b = live_socket b" "tasks_of ?b = tasks_of b"
    by (auto simp: live_socket_def tasks_of_def put_cloud_def put_connection_def fun_eq_iff)
  have "session_inv (Suc n) ?b"
    unfolding session_inv_def same
  proof (intro conjI allI impI)
    fix e' g' t i
    assume l: "live_socket b e' g' t i"
    then have "e' \<noteq> e" using none by blast
    then show "\<exists>c. cloud_at ?b e' g' = Some c \<and> cc_socket c = Some i \<and> cc_tenant_id c = Some t" "tasks_of b e' g' = []"
      using session_live [OF inv l] by (simp_all add: at)
  next
    fix e' g' c'
    assume "cloud_at ?b e' g' = Some c'"
    then show "length (tasks_of b e' g') \<le> 1" "unat g' < unat (br_next_generation ?b)"
      using session_cloud [OF inv, of e' g'] tasks unfolding next_b by (auto simp: at split: if_splits)
  qed (use inv next_g in \<open>auto simp: session_inv_def put_cloud_def put_connection_def distinct_update less_Suc_eq\<close>)
  moreover have "idle ?b e ?g" using none tasks by (simp add: idle_def same)
  moreover have "tame ?b (publish_active_snapshot (activate e (publish_storage_scope CloudPending ?b)))"
    by (intro tame_trans [OF _ tame_snapshot] tame_trans [OF _ tame_active(1)] tame_scope)
  ultimately have "session_inv (Suc n) (snd (add_cloud wl pg e b))"
    using Inr session_begin [OF tame_session tame_idle] by (simp add: add_cloud_def Let_def)
  moreover have "live_socket (snd (add_cloud wl pg e b)) = live_socket b"
    using Inr by (auto simp: add_cloud_def Let_def live_socket_def begin_cloud_connect_def spawn_local_def put_cloud_def
        put_connection_def publish_active_snapshot_def publish_storage_scope_def push_message_def activate_def fun_eq_iff
        split: option.splits)
  ultimately show ?thesis by blast
qed

lemma ingress_add_cases:
  fixes b :: browser
  defines "b1 \<equiv> b\<lparr>br_connections := filter (\<lambda>(_, c). \<not> raw_closed b c) (br_connections b)\<rparr>"
  shows "snd (ingress_add wl pg v b) \<in> {b, b1} \<or> (\<exists>k. map_of (br_connections b1) k = None \<and>
    (snd (ingress_add wl pg v b) = snd (add_raw pg k b1) \<or> snd (ingress_add wl pg v b) = snd (add_cloud wl pg k b1)))"
proof (cases "browser_normalize_endpoint wl v")
  case (Inr endpoint)
  then show ?thesis
    by (cases endpoint) (auto simp: ingress_add_def Let_def b1_def)
qed (simp add: ingress_add_def)

lemma session_add:
  assumes inv: "session_inv n b" and n: "n < 2 ^ 64 - 1"
  shows "session_inv (Suc n) (snd (ingress_add wl pg v b)) \<and> (\<forall>e g t i. live_socket (snd (ingress_add wl pg v b)) e g t i \<longrightarrow> live_socket b e g t i)"
proof -
  let ?b = "b\<lparr>br_connections := filter (\<lambda>(_, c). \<not> raw_closed b c) (br_connections b)\<rparr>"
  have f: "session_inv n ?b" by (rule tame_session [OF tame_filter inv])
  have l: "live_socket ?b = live_socket b" by (auto simp: live_socket_def fun_eq_iff)
  show ?thesis
    using ingress_add_cases [of wl pg v b]
  proof (elim disjE exE conjE)
    fix k
    assume k: "map_of (br_connections ?b) k = None" and *: "snd (ingress_add wl pg v b) = snd (add_raw pg k ?b)"
    show ?thesis
      using session_mono [OF tame_session [OF tame_add_raw [OF k] f], of "Suc n"] tame_live [OF tame_add_raw [OF k] f]
      unfolding * l by auto
  next
    fix k
    assume k: "map_of (br_connections ?b) k = None" and *: "snd (ingress_add wl pg v b) = snd (add_cloud wl pg k ?b)"
    show ?thesis using session_add_cloud [OF f k n, of wl pg] unfolding * l by simp
  qed (use session_mono [OF f, of "Suc n"] session_mono [OF inv, of "Suc n"] l in auto)
qed

lemma session_delete:
  assumes inv: "session_inv n b" and c: "map_of (br_connections b) k = Some (CloudConnection c)"
    and socks: "\<And>i. cc_socket c = Some i \<Longrightarrow> i < length (br_sockets b') \<Longrightarrow> \<not> ws_attached (br_sockets b' ! i)"
    and b': "br_connections b' = AList.delete k (br_connections b)" "br_tasks b' = br_tasks b"
      "br_next_generation b' = br_next_generation b" "\<And>e g t i. live_socket b' e g t i \<Longrightarrow> live_socket b e g t i"
  shows "session_inv n b'"
proof -
  have at: "cloud_at b' e g = (if e = k then None else cloud_at b e g)" for e g
    by (simp add: cloud_at_def b' delete_conv')
  have tasks: "tasks_of b' = tasks_of b" by (simp add: tasks_of_def b' fun_eq_iff)
  show ?thesis
    unfolding session_inv_def tasks
  proof (intro conjI allI impI)
    fix e g t i
    assume l: "live_socket b' e g t i"
    note old = session_live [OF inv b'(4) [OF l]]
    have "e \<noteq> k"
    proof
      assume "e = k"
      then have "cc_socket c = Some i" using old(2) c by (auto simp: cloud_at_Some)
      then show False using socks l by (simp add: live_socket_def)
    qed
    then show "\<exists>c. cloud_at b' e g = Some c \<and> cc_socket c = Some i \<and> cc_tenant_id c = Some t" "tasks_of b e g = []"
      using old by (simp_all add: at)
  next
    fix e g c'
    assume "cloud_at b' e g = Some c'"
    then show "length (tasks_of b e g) \<le> 1" "unat g < unat (br_next_generation b')"
      using session_cloud [OF inv, of e g c'] by (auto simp: at b' split: if_splits)
  qed (use inv in \<open>auto simp: session_inv_def b' distinct_delete\<close>)
qed

lemma tame_remove_raw:
  assumes "map_of (br_connections b) k = Some (RawConnection i)"
  shows "tame b (b\<lparr>br_connections := AList.delete k (br_connections b)\<rparr>)"
  using assms by (auto simp: tame_def live_socket_def connection_view_def cloud_at_def delete_conv' distinct_delete)

lemma session_remove:
  assumes inv: "session_inv n b"
  shows "session_inv n (snd (ingress_remove wl pg v b)) \<and> (\<forall>e g t i. live_socket (snd (ingress_remove wl pg v b)) e g t i \<longrightarrow> live_socket b e g t i)"
proof (cases "\<exists>k c. browser_normalize_endpoint wl v = Inr k \<and> map_of (br_connections b) (endpoint_key k) = Some c")
  case True
  then obtain k c where k: "browser_normalize_endpoint wl v = Inr k" "map_of (br_connections b) (endpoint_key k) = Some c" by blast
  let ?k = "endpoint_key k" and ?b = "b\<lparr>br_connections := AList.delete (endpoint_key k) (br_connections b)\<rparr>"
  let ?b' = "snd (ingress_remove wl pg v b)"
  define s where "s = (case c of RawConnection i \<Rightarrow> Some i | CloudConnection c \<Rightarrow> cc_socket c)"
  define b1 where "b1 = (case s of None \<Rightarrow> ?b | Some i \<Rightarrow> detach_handlers i ?b)"
  have rest: "tame b1 ?b'"
    using k by (auto simp: ingress_remove_def Let_def b1_def s_def
        intro!: tame_trans [OF _ tame_scope] tame_trans [OF _ tame_snapshot] tame_active)
  have live_socket: "live_socket b1 e g t i \<Longrightarrow> live_socket b e g t i" for e g t i
    by (cases s; cases "the s < length (br_sockets b)")
      (auto simp: b1_def live_socket_def detach_handlers_def nth_list_update split: if_splits)
  have "session_inv n b1"
  proof (cases c)
    case (RawConnection i)
    have "tame b b1"
      using tame_trans [OF tame_remove_raw tame_socket_flags(1)] k RawConnection by (simp add: b1_def s_def)
    then show ?thesis by (rule tame_session [OF _ inv])
  next
    case (CloudConnection c')
    show ?thesis
      by (rule session_delete [OF inv, of ?k c'])
        (use k CloudConnection live_socket in \<open>auto simp: b1_def s_def detach_handlers_def nth_list_update split: option.splits\<close>)
  qed
  then show ?thesis
    using tame_session [OF rest] tame_live [OF rest] live_socket by blast
next
  case False
  then have "snd (ingress_remove wl pg v b) = b"
    by (auto simp: ingress_remove_def Let_def split: sum.splits option.splits)
  then show ?thesis using inv by simp
qed

lemma tame_raw_event: "tame b (raw_event wl show_io e ev b)"
  by (cases "(wl, show_io, e, ev, b)" rule: raw_event.cases)
    (auto simp: Let_def intro!: tame_push tame_trans [OF _ tame_push] tame_trans [OF _ tame_snapshot] tame_active)

lemma tame_queue: "tame b (queue_cloud_record wl pg e g t d b)"
proof -
  have local: "tame b (b\<lparr>br_local := m\<rparr>)" for b m by (rule tame_same) simp_all
  have put: "tame b (put_cloud e (c\<lparr>cc_persisted_cursor := m\<rparr>) b1)"
    if "tame b b1" "cloud_at b1 e g = Some c" for b1 c m
    by (rule tame_trans [OF that(1) tame_put_cloud [OF that(2)]]) simp_all
  show ?thesis
    by (auto simp: queue_cloud_record_def persist_cursor_def split: option.splits sum.splits if_splits
        intro!: tame_report put tame_trans [OF tame_push tame_report] tame_trans [OF tame_push local] tame_push)
qed

lemma session_socket_event:
  fixes wl :: "'u web_lib" and show_io :: "io_error \<Rightarrow> string" and pg :: web_page and i :: nat and ev :: socket_event
  assumes inv: "session_inv n b"
  defines "b' \<equiv> on_socket_event wl show_io pg i ev b"
  shows "session_inv n b' \<and> (\<forall>e g t j. live_socket b' e g t j \<longrightarrow> live_socket b e g t j)"
proof (cases "\<exists>e g t. live_socket b e g t i")
  case False
  have mark: "tame b (mark_closed i ev b)" by (rule tame_socket_flags)
  have "tame b b'"
    using False mark tame_trans [OF mark tame_raw_event]
    by (auto simp: b'_def on_socket_event_def Let_def live_socket_def split: ws_binding.splits)
  then show ?thesis using tame_session [OF _ inv] tame_live [OF _ inv] by blast
next
  case True
  then obtain e g t where l: "live_socket b e g t i" by blast
  then have b': "b' = cloud_event wl pg e g t ev (mark_closed i ev b)"
    by (auto simp: b'_def on_socket_event_def Let_def live_socket_def)
  show ?thesis
  proof (cases "\<exists>x y z. ev = SocketClose x y z")
    case True
    let ?b = "mark_closed i ev b"
    have mark: "tame b ?b" by (rule tame_socket_flags)
    have closed: "\<not> live_socket ?b e g t' j" for t' j
    proof
      assume lj: "live_socket ?b e g t' j"
      then have "live_socket b e g t' j" by (rule tame_live [OF mark inv])
      then have "j = i" using session_live(2) [OF inv, of e g t' j] session_live(2) [OF inv l] by auto
      then show False using lj True by (auto simp: live_socket_def mark_closed_def)
    qed
    have "tasks_of ?b e g = []" using session_live(1) [OF inv l] tameD(2) [OF mark inv] by (simp add: tasks_of_def)
    then have idle: "idle ?b e g" using closed by (simp add: idle_def)
    note inv1 = tame_session [OF mark inv]
    show ?thesis
      using True session_failed [OF inv1 idle] tame_live [OF mark inv] unfolding b' by (auto simp: Let_def)
  next
    case False
    then have "mark_closed i ev b = b" by (cases ev) (auto simp: mark_closed_def)
    then have "tame b b'"
      using False b'
      by (cases ev) (auto split: option.splits sum.splits intro!: tame_report tame_queue tame_put_cloud)
    then show ?thesis using tame_session [OF _ inv] tame_live [OF _ inv] by blast
  qed
qed

lemma session_task_done:
  fixes wl :: "'u web_lib" and pg :: web_page and fetch :: "string \<Rightarrow> string \<Rightarrow> fetch_outcome" and i :: nat
  assumes inv: "session_inv n b"
  defines "b' \<equiv> task_done wl pg fetch i b"
  shows "session_inv n b' \<and> (\<forall>e g t j. live_socket b' e g t j \<longrightarrow> live_socket b e g t j \<or> opened wl b b' e g j)"
proof (cases "i < length (br_tasks b)")
  case False
  then show ?thesis using inv by (simp add: b'_def task_done_def)
next
  case True
  let ?b = "b\<lparr>br_tasks := take i (br_tasks b) @ drop (Suc i) (br_tasks b)\<rparr>"
  note drop = session_drop_task [OF inv True]
  show ?thesis
  proof (cases "br_tasks b ! i")
    case (TicketRequest e g)
    have b': "b' = ticket_request_done wl pg fetch e g ?b"
      using True TicketRequest by (simp add: b'_def task_done_def Let_def)
    have o: "opened wl ?b = opened wl b" by (simp add: opened_def fun_eq_iff)
    have "cloud_at ?b e g \<noteq> None \<Longrightarrow> idle ?b e g" using drop(2,4) TicketRequest by simp
    from session_ticket [OF drop(1) this, of wl pg fetch] show ?thesis
      unfolding b' [symmetric] drop(3) o by blast
  next
    case (RetryTimer e g d)
    have "cloud_at ?b e g \<noteq> None \<Longrightarrow> session_inv n (begin_cloud_connect e g ?b)"
      using drop(2,4) RetryTimer session_begin [OF drop(1)] by simp
    moreover have "live_socket (begin_cloud_connect e g ?b) = live_socket b"
      by (auto simp: begin_cloud_connect_def live_socket_def spawn_local_def put_cloud_def put_connection_def fun_eq_iff
          split: option.splits)
    ultimately show ?thesis
      using True RetryTimer drop(1,3) by (auto simp: b'_def task_done_def Let_def retry_timer_done_def)
  qed
qed

lemma session_step:
  fixes wl :: "'u web_lib" and show_io :: "io_error \<Rightarrow> string" and pg :: web_page
  assumes inv: "session_inv n b" and n: "n < 2 ^ 64 - 1" and ev: "ev \<noteq> Reload"
  defines "b' \<equiv> browser_step wl show_io pg ev b"
  shows "session_inv (Suc n) b' \<and> (\<forall>e g t j. live_socket b' e g t j \<longrightarrow> live_socket b e g t j \<or> opened wl b b' e g j)"
proof -
  have tame: "session_inv (Suc n) b1 \<and> (\<forall>e g t j. live_socket b1 e g t j \<longrightarrow> live_socket b e g t j)" if "tame b b1" for b1
    using session_mono [OF tame_session [OF that inv], of "Suc n"] tame_live [OF that inv] by auto
  show ?thesis
  proof (cases ev)
    case (AddEndpoint v)
    then show ?thesis using session_add [OF inv n] by (auto simp: b'_def)
  next
    case (RemoveEndpoint v)
    then show ?thesis using session_remove [OF inv, of wl pg v] session_mono [of n _ "Suc n"] by (auto simp: b'_def)
  next
    case TakeMessage
    have "tame b (snd (try_next b))" by (rule tame_same) (simp_all add: try_next_def split: list.splits)
    then show ?thesis using tame TakeMessage by (auto simp: b'_def)
  next
    case (StoreItem k v)
    have "tame b (b\<lparr>br_local := (br_local b)(k \<mapsto> v)\<rparr>)" by (rule tame_same) simp_all
    then show ?thesis using tame StoreItem by (auto simp: b'_def)
  next
    case (TaskDone i fetch)
    then show ?thesis using session_task_done [OF inv, of wl pg fetch i] session_mono [of n _ "Suc n"] by (auto simp: b'_def)
  next
    case (SocketEvent i s)
    then show ?thesis
      using session_socket_event [OF inv, of wl show_io pg i s] session_mono [of n _ "Suc n"] by (auto simp: b'_def)
  qed (use ev in simp)
qed

section \<open>Sockets are never forgotten\<close>

definition kept_sockets :: "browser \<Rightarrow> browser \<Rightarrow> bool" where
  "kept_sockets b b' \<longleftrightarrow> length (br_sockets b) \<le> length (br_sockets b') \<and>
     (\<forall>i < length (br_sockets b). ws_url (br_sockets b' ! i) = ws_url (br_sockets b ! i) \<and>
        ws_binding (br_sockets b' ! i) = ws_binding (br_sockets b ! i))"

lemma kept_refl: "br_sockets b' = br_sockets b \<Longrightarrow> kept_sockets b b'"
  by (simp add: kept_sockets_def)

lemma kept_after: "kept_sockets b b1 \<Longrightarrow> br_sockets b2 = br_sockets b1 \<Longrightarrow> kept_sockets b b2"
  by (simp add: kept_sockets_def)

lemma kept_trans: "kept_sockets b1 b2 \<Longrightarrow> kept_sockets b2 b3 \<Longrightarrow> kept_sockets b1 b3"
  by (auto simp: kept_sockets_def)

lemma kept_flags:
  "kept_sockets b (new_socket u k b)" "kept_sockets b (detach_handlers i b)" "kept_sockets b (mark_closed i ev b)"
  by (cases "i < length (br_sockets b)"; auto simp: kept_sockets_def new_socket_def detach_handlers_def mark_closed_def
      nth_append nth_list_update split: socket_event.splits)+

lemma same_sockets:
  "br_sockets (push_message m b) = br_sockets b" "br_sockets (report_error l e b) = br_sockets b"
  "br_sockets (publish_storage_scope s b) = br_sockets b" "br_sockets (publish_active_snapshot b) = br_sockets b"
  "br_sockets (activate e b) = br_sockets b" "br_sockets (deactivate e b) = br_sockets b"
  "br_sockets (put_connection e k b) = br_sockets b" "br_sockets (put_cloud e c b) = br_sockets b"
  "br_sockets (spawn_local task b) = br_sockets b" "br_sockets (begin_cloud_connect e g b) = br_sockets b"
  "br_sockets (set_cloud_connecting e g f b) = br_sockets b" "br_sockets (schedule_cloud_retry e g r b) = br_sockets b"
  "br_sockets (queue_cloud_record wl pg e g t d b) = br_sockets b"
  by (simp_all add: push_message_def report_error_def publish_storage_scope_def publish_active_snapshot_def activate_def
      deactivate_def put_connection_def put_cloud_def spawn_local_def begin_cloud_connect_def set_cloud_connecting_def
      schedule_cloud_retry_def queue_cloud_record_def persist_cursor_def Let_def split: option.splits sum.splits)

lemma kept_raw_event: "br_sockets (raw_event wl show_io e ev b) = br_sockets b"
  by (cases ev) (auto simp: same_sockets Let_def)

lemma kept_cloud_event: "br_sockets (cloud_event wl pg e g t ev b) = br_sockets b"
  by (cases ev) (auto simp: same_sockets Let_def split: option.splits sum.splits)

lemma kept_open:
  assumes "open_cloud_socket wl pg e g ticket b = (r, b')"
  shows "kept_sockets b b'"
proof -
  obtain q b1 where b1: "prepare_cloud_tenant wl pg e g (at_tenant_id ticket) b = (q, b1)" by fastforce
  have "kept_sockets b1 b'"
    using assms b1 kept_trans [OF kept_flags(1) kept_flags(2)] kept_after [OF kept_flags(1)]
      kept_after [OF kept_trans [OF kept_flags(1) kept_flags(2)]]
    by (auto simp: open_cloud_socket_def Let_def kept_refl same_sockets split: option.splits sum.splits if_splits)
  then show ?thesis using kept_trans [OF kept_refl [OF prepare_sockets [OF b1]]] by blast
qed

lemma kept_step:
  assumes "ev \<noteq> Reload"
  shows "kept_sockets b (browser_step wl show_io pg ev b)"
proof (cases ev)
  case (AddEndpoint v)
  have raw: "kept_sockets b1 (snd (add_raw pg k b1))" for k b1
    by (auto simp: add_raw_def Let_def kept_refl same_sockets intro: kept_after [OF kept_flags(1)])
  have cloud: "br_sockets (snd (add_cloud wl pg k b1)) = br_sockets b1" for k b1
    by (auto simp: add_cloud_def Let_def same_sockets split: sum.splits)
  let ?b = "b\<lparr>br_connections := filter (\<lambda>(_, c). \<not> raw_closed b c) (br_connections b)\<rparr>"
  have "kept_sockets b ?b" by (rule kept_refl) simp
  then have "kept_sockets b (snd (add_raw pg k ?b))" "kept_sockets b (snd (add_cloud wl pg k ?b))" for k
    using kept_trans [OF _ raw] by (auto simp: kept_refl cloud)
  then show ?thesis using ingress_add_cases [of wl pg v b] by (auto simp: AddEndpoint kept_refl)
next
  case (RemoveEndpoint v)
  have "br_sockets (snd (ingress_remove wl pg v b)) = br_sockets b \<or>
      (\<exists>i. br_sockets (snd (ingress_remove wl pg v b)) = br_sockets (detach_handlers i b))"
    by (auto simp: ingress_remove_def Let_def same_sockets detach_handlers_def split: sum.splits option.splits
        browser_connection.splits)
  then show ?thesis using kept_after [OF kept_flags(2)] kept_refl by (auto simp: RemoveEndpoint)
next
  case (TaskDone i fetch)
  have ticket: "kept_sockets b1 (ticket_request_done wl pg fetch e g b1)" for e g b1
    using kept_open [of wl pg e g _ b1] kept_after [OF kept_open [of wl pg e g _ b1]]
    by (auto simp: ticket_request_done_def kept_refl same_sockets split: sum.splits prod.splits)
  have "kept_sockets b (b\<lparr>br_tasks := ts\<rparr>)" for ts by (rule kept_refl) simp
  then show ?thesis
    using kept_trans [OF _ ticket]
    by (auto simp: TaskDone task_done_def Let_def kept_refl retry_timer_done_def same_sockets split: browser_task.splits)
next
  case (SocketEvent i s)
  have "kept_sockets b (raw_event wl show_io e s (mark_closed i s b))" "kept_sockets b (cloud_event wl pg e g t s (mark_closed i s b))"
    for e g t
    using kept_after [OF kept_flags(3)] by (simp_all add: kept_raw_event kept_cloud_event)
  then show ?thesis
    by (auto simp: SocketEvent on_socket_event_def Let_def kept_refl kept_flags split: ws_binding.splits)
qed (use assms in \<open>auto simp: try_next_def kept_refl split: list.splits\<close>)

end
