(* ===== verification/Server_Config.thy ===== *)
theory Server_Config
  imports Rust_Std
begin

text \<open>
  The settings of the cloud services (\<open>skid-monitor-server/src/config.rs\<close>). The URL
  parser is the argument \<open>parse\<close>. \<open>usize\<close> is 64 bits wide.
\<close>

section \<open>Types\<close>

definition DEFAULT_DATABASE_CONNECTIONS :: nat where "DEFAULT_DATABASE_CONNECTIONS = 12"
definition DEFAULT_MAX_SIGNAL_BYTES :: nat where "DEFAULT_MAX_SIGNAL_BYTES = 16 * 1024 * 1024"
definition MAX_SIGNAL_BYTES :: nat where "MAX_SIGNAL_BYTES = 64 * 1024 * 1024"
definition MAX_CLIENT_BODY_BYTES :: nat where "MAX_CLIENT_BODY_BYTES = 16 * 1024 * 1024"
definition DEFAULT_STREAM_BATCH_BYTES :: nat where "DEFAULT_STREAM_BATCH_BYTES = 16 * 1024 * 1024"
definition MAX_STREAM_BATCH_BYTES :: nat where "MAX_STREAM_BATCH_BYTES = 64 * 1024 * 1024"
definition DEFAULT_INGRESS_CONCURRENCY_PER_CONNECTION :: nat where
  "DEFAULT_INGRESS_CONCURRENCY_PER_CONNECTION = 64"
definition DEFAULT_INGRESS_GLOBAL_REQUEST_CONCURRENCY :: nat where
  "DEFAULT_INGRESS_GLOBAL_REQUEST_CONCURRENCY = 16"
definition MAX_INGRESS_GLOBAL_REQUEST_CONCURRENCY :: nat where
  "MAX_INGRESS_GLOBAL_REQUEST_CONCURRENCY = 128"
definition DEFAULT_CLIENT_REQUEST_CONCURRENCY :: nat where "DEFAULT_CLIENT_REQUEST_CONCURRENCY = 256"
definition DEFAULT_CLIENT_STREAM_CONNECTIONS :: nat where "DEFAULT_CLIENT_STREAM_CONNECTIONS = 1024"
definition DEFAULT_CLIENT_REPLAY_CONCURRENCY :: nat where "DEFAULT_CLIENT_REPLAY_CONCURRENCY = 4"
definition MAX_CLIENT_REPLAY_CONCURRENCY :: nat where "MAX_CLIENT_REPLAY_CONCURRENCY = 16"

datatype oidc_role_claims = KeycloakResourceAccess | ClaimPointer string

record oidc_config =
  oc_issuer :: string
  oc_jwks_origin :: string
  oc_audience :: string
  oc_required_role :: string
  oc_tenant_pointer :: string
  oc_role_claims :: oidc_role_claims
  oc_agent_id_pointer :: "string option"

datatype tls_mode = Direct (tls_cert: string) (tls_key: string) | TerminatedUpstream

record database_config =
  dc_url :: string
  dc_max_connections :: nat

record ingress_config =
  ic_listen_addr :: socket_addr
  ic_database :: database_config
  ic_oidc :: oidc_config
  ic_tls :: tls_mode
  ic_max_signal_bytes :: nat
  ic_concurrency_per_connection :: nat
  ic_global_request_concurrency :: nat

record client_server_config =
  cc_listen_addr :: socket_addr
  cc_database :: database_config
  cc_oidc :: oidc_config
  cc_admin_role :: string
  cc_tls :: tls_mode
  cc_request_body_limit :: nat
  cc_stream_batch_size :: nat
  cc_stream_batch_bytes :: nat
  cc_request_concurrency :: nat
  cc_replay_concurrency :: nat
  cc_max_stream_connections :: nat

record migration_config =
  mc_database :: database_config

type_synonym config_error = string

section \<open>Reading settings\<close>

definition env_non_empty :: "environment \<Rightarrow> string \<Rightarrow> string option" where
  "env_non_empty env name = opt_filter (\<lambda>v. v \<noteq> []) (map_option trim (env name))"

definition required :: "environment \<Rightarrow> string \<Rightarrow> config_error + string" where
  "required env name =
     ok_or (''required setting '' @ name @ '' is missing'') (env_non_empty env name)"

definition parse_socket_addr :: "environment \<Rightarrow> string \<Rightarrow> string \<Rightarrow> config_error + socket_addr" where
  "parse_socket_addr env name dflt =
     map_err (\<lambda>error. ''invalid '' @ name @ '': '' @ error)
       (parse_socket (unwrap_or dflt (env_non_empty env name)))"

text \<open>\<open>parse_positive\<close> at an integer type with \<open>bound\<close> values.\<close>

definition parse_positive :: "nat \<Rightarrow> environment \<Rightarrow> string \<Rightarrow> nat \<Rightarrow> config_error + nat" where
  "parse_positive bound env name dflt =
     and_then (case env_non_empty env name of
         Some value \<Rightarrow> map_err (\<lambda>error. ''invalid '' @ name @ '': '' @ error) (parse_uint bound value)
       | None \<Rightarrow> Inr dflt)
       (\<lambda>v. if v = 0 then Inl (name @ '' must be greater than zero'') else Inr v)"

abbreviation positive_usize :: "environment \<Rightarrow> string \<Rightarrow> nat \<Rightarrow> config_error + nat" where
  "positive_usize \<equiv> parse_positive (2 ^ 64)"

abbreviation positive_u32 :: "environment \<Rightarrow> string \<Rightarrow> nat \<Rightarrow> config_error + nat" where
  "positive_u32 \<equiv> parse_positive (2 ^ 32)"

definition parse_bool_value :: "string \<Rightarrow> string \<Rightarrow> config_error + bool" where
  "parse_bool_value name v =
     (let l = to_ascii_lowercase v
      in if l \<in> {''true'', ''1'', ''yes'', ''on''} then Inr True
         else if l \<in> {''false'', ''0'', ''no'', ''off''} then Inr False
         else Inl (name @ '' must be true or false''))"

definition parse_bool :: "environment \<Rightarrow> string \<Rightarrow> bool \<Rightarrow> config_error + bool" where
  "parse_bool env name dflt =
     (case env_non_empty env name of None \<Rightarrow> Inr dflt | Some v \<Rightarrow> parse_bool_value name v)"

definition bounded_replay_concurrency :: "nat \<Rightarrow> nat" where
  "bounded_replay_concurrency v = min v MAX_CLIENT_REPLAY_CONCURRENCY"

definition bounded_ingress_global_request_concurrency :: "nat \<Rightarrow> nat" where
  "bounded_ingress_global_request_concurrency v = min v MAX_INGRESS_GLOBAL_REQUEST_CONCURRENCY"

section \<open>Databases and transport security\<close>

definition validate_database_url :: "url_parser \<Rightarrow> string \<Rightarrow> bool \<Rightarrow> config_error + unit" where
  "validate_database_url parse v tls_terminated =
     (case parse v of
        None \<Rightarrow> Inl ''SKID_MONITOR_DATABASE_URL must be a valid PostgreSQL URL''
      | Some u \<Rightarrow>
          if url_scheme u \<notin> {''postgres'', ''postgresql''} \<or> url_host u = None
          then Inl ''SKID_MONITOR_DATABASE_URL must use postgres:// or postgresql://''
          else
            (let sslmodes = map snd (filter (\<lambda>(k, _). k = ''sslmode'') (url_query_pairs u))
             in if 1 < length sslmodes
                then Inl ''SKID_MONITOR_DATABASE_URL must contain exactly one sslmode setting''
                else case sslmodes of
                  [] \<Rightarrow> Inl ''SKID_MONITOR_DATABASE_URL must set sslmode=verify-full, or sslmode=disable with explicit trusted TLS termination''
                | mode # _ \<Rightarrow>
                    if mode = ''verify-full'' then Inr ()
                    else if mode = ''disable'' then
                      (if tls_terminated then Inr ()
                       else Inl ''PostgreSQL plaintext requires SKID_MONITOR_DATABASE_TLS_TERMINATED=true on a trusted private transport'')
                    else Inl (''PostgreSQL sslmode='' @ mode @ '' is not accepted; use verify-full, or explicit trusted TLS termination with disable'')))"

definition database_config_from ::
  "url_parser \<Rightarrow> environment \<Rightarrow> string \<Rightarrow> string \<Rightarrow> string \<Rightarrow> nat \<Rightarrow> config_error + database_config"
where
  "database_config_from parse env url_env max_connections_env tls_terminated_env default_connections =
     and_then (required env url_env) (\<lambda>u.
     and_then (parse_bool env tls_terminated_env False) (\<lambda>tls_terminated.
     and_then (validate_database_url parse u tls_terminated) (\<lambda>_.
     map_ok (\<lambda>n. \<lparr>dc_url = u, dc_max_connections = n\<rparr>)
       (positive_u32 env max_connections_env default_connections))))"

definition database_config_of :: "url_parser \<Rightarrow> environment \<Rightarrow> config_error + database_config" where
  "database_config_of parse env =
     database_config_from parse env ''SKID_MONITOR_DATABASE_URL'' ''SKID_MONITOR_DATABASE_MAX_CONNECTIONS''
       ''SKID_MONITOR_DATABASE_TLS_TERMINATED'' DEFAULT_DATABASE_CONNECTIONS"

definition tls_mode_of :: "environment \<Rightarrow> string \<Rightarrow> string \<Rightarrow> string \<Rightarrow> config_error + tls_mode" where
  "tls_mode_of env cert_env key_env terminated_env =
     (case (env_non_empty env cert_env, env_non_empty env key_env) of
        (Some cert, Some key) \<Rightarrow> Inr (Direct cert key)
      | (None, None) \<Rightarrow>
          and_then (parse_bool env terminated_env False) (\<lambda>terminated.
            if terminated then Inr TerminatedUpstream
            else Inl (''cloud mode requires '' @ cert_env @ ''+'' @ key_env @ '', or an explicit '' @
              terminated_env @ ''=true behind a trusted TLS proxy/service mesh''))
      | _ \<Rightarrow> Inl (cert_env @ '' and '' @ key_env @ '' must be configured together''))"

section \<open>OpenID Connect\<close>

definition str_replace_char :: "char \<Rightarrow> string \<Rightarrow> string \<Rightarrow> string" where
  "str_replace_char c by_s s = concat (map (\<lambda>d. if d = c then by_s else [d]) s)"

definition validated_claim_pointer :: "string \<Rightarrow> string \<Rightarrow> config_error + string" where
  "validated_claim_pointer name p =
     (let pointer = trim p
      in if pointer = [] \<or> \<not> starts_with pointer ''/'' \<or> 1024 < length pointer \<or> has_control pointer \<or>
            list_ex (\<lambda>suffix. take 1 suffix \<notin> {''0'', ''1''}) (tl (split_on (\<lambda>c. c = CHR ''~'') pointer))
         then Inl (name @ '' must be a non-empty RFC 6901 JSON pointer using only ~0 and ~1 escapes'')
         else Inr pointer)"

definition top_level_claim_pointer :: "string \<Rightarrow> string" where
  "top_level_claim_pointer claim =
     ''/'' @ str_replace_char (CHR ''/'') ''~1'' (str_replace_char (CHR ''~'') ''~0'' claim)"

definition parse_oidc_role_claims :: "string option \<Rightarrow> string option \<Rightarrow> config_error + oidc_role_claims" where
  "parse_oidc_role_claims profile roles_pointer =
     (let p = to_ascii_lowercase (trim (unwrap_or ''keycloak'' profile))
      in if p = ''keycloak'' then
           (if roles_pointer \<noteq> None
            then Inl ''SKID_MONITOR_OIDC_ROLES_POINTER requires SKID_MONITOR_OIDC_CLAIMS_PROFILE=generic''
            else Inr KeycloakResourceAccess)
         else if p = ''generic'' then
           map_ok ClaimPointer (validated_claim_pointer ''SKID_MONITOR_OIDC_ROLES_POINTER''
             (unwrap_or ''/roles'' roles_pointer))
         else Inl ''SKID_MONITOR_OIDC_CLAIMS_PROFILE must be keycloak or generic'')"

definition normalized_https_issuer :: "url_parser \<Rightarrow> string \<Rightarrow> config_error + string" where
  "normalized_https_issuer parse v =
     (let issuer = trim_end_char (CHR ''/'') (trim v)
      in case parse issuer of
           None \<Rightarrow> Inl ''SKID_MONITOR_OIDC_ISSUER must be a valid HTTPS URL''
         | Some u \<Rightarrow>
             if url_scheme u \<noteq> ''https'' \<or> url_host u = None \<or> url_username u \<noteq> [] \<or>
                url_password u \<noteq> None \<or> url_query u \<noteq> None \<or> url_fragment u \<noteq> None
             then Inl ''SKID_MONITOR_OIDC_ISSUER must be an HTTPS URL without credentials, query, or fragment''
             else Inr issuer)"

definition normalized_https_origin :: "url_parser \<Rightarrow> string \<Rightarrow> string \<Rightarrow> config_error + string" where
  "normalized_https_origin parse name v =
     (case parse (trim_end_char (CHR ''/'') (trim v)) of
        None \<Rightarrow> Inl (name @ '' must be a valid HTTPS origin'')
      | Some u \<Rightarrow>
          if url_scheme u \<noteq> ''https'' \<or> url_host u = None \<or> url_username u \<noteq> [] \<or>
             url_password u \<noteq> None \<or> url_path u \<noteq> ''/'' \<or> url_query u \<noteq> None \<or> url_fragment u \<noteq> None
          then Inl (name @ '' must contain only an HTTPS scheme, host, and optional port'')
          else Inr (url_origin u))"

definition https_origin :: "url_parser \<Rightarrow> string \<Rightarrow> string \<Rightarrow> config_error + string" where
  "https_origin parse name v =
     (case parse v of
        None \<Rightarrow> Inl (name @ '' must be a valid HTTPS URL'')
      | Some u \<Rightarrow>
          if url_scheme u \<noteq> ''https'' \<or> url_host u = None then Inl (name @ '' must use HTTPS'')
          else Inr (url_origin u))"

fun transpose_result :: "('e + 'a) option \<Rightarrow> 'e + 'a option" where
  "transpose_result None = Inr None"
| "transpose_result (Some r) = map_ok Some r"

definition oidc_config_of ::
  "url_parser \<Rightarrow> environment \<Rightarrow> string \<Rightarrow> string \<Rightarrow> string \<Rightarrow> config_error + oidc_config"
where
  "oidc_config_of parse env audience_env role_env default_role =
     and_then (ok_or ''required setting SKID_MONITOR_OIDC_ISSUER is missing (legacy SKID_MONITOR_KEYCLOAK_ISSUER is also accepted)''
       (opt_or (env_non_empty env ''SKID_MONITOR_OIDC_ISSUER'') (env_non_empty env ''SKID_MONITOR_KEYCLOAK_ISSUER''))) (\<lambda>issuer.
     and_then (case env_non_empty env ''SKID_MONITOR_OIDC_TENANT_POINTER'' of
         Some pointer \<Rightarrow> validated_claim_pointer ''SKID_MONITOR_OIDC_TENANT_POINTER'' pointer
       | None \<Rightarrow> Inr (case env_non_empty env ''SKID_MONITOR_TENANT_CLAIM'' of
             Some claim \<Rightarrow> top_level_claim_pointer claim
           | None \<Rightarrow> ''/tenant_id'')) (\<lambda>tenant_pointer.
     and_then (parse_oidc_role_claims (env_non_empty env ''SKID_MONITOR_OIDC_CLAIMS_PROFILE'')
         (env_non_empty env ''SKID_MONITOR_OIDC_ROLES_POINTER'')) (\<lambda>role_claims.
     and_then (transpose_result (map_option (validated_claim_pointer ''SKID_MONITOR_OIDC_AGENT_ID_POINTER'')
         (env_non_empty env ''SKID_MONITOR_OIDC_AGENT_ID_POINTER''))) (\<lambda>agent_id_pointer.
     and_then (normalized_https_issuer parse issuer) (\<lambda>issuer.
     and_then (case env_non_empty env ''SKID_MONITOR_OIDC_JWKS_ORIGIN'' of
         Some origin \<Rightarrow> normalized_https_origin parse ''SKID_MONITOR_OIDC_JWKS_ORIGIN'' origin
       | None \<Rightarrow> https_origin parse ''SKID_MONITOR_OIDC_ISSUER'' issuer) (\<lambda>jwks_origin.
     map_ok (\<lambda>audience.
         \<lparr>oc_issuer = issuer, oc_jwks_origin = jwks_origin, oc_audience = audience,
          oc_required_role = unwrap_or default_role (env_non_empty env role_env),
          oc_tenant_pointer = tenant_pointer, oc_role_claims = role_claims,
          oc_agent_id_pointer = agent_id_pointer\<rparr>)
       (required env audience_env)))))))"

section \<open>The configurations of the three processes\<close>

definition ingress_config_from_env :: "url_parser \<Rightarrow> environment \<Rightarrow> config_error + ingress_config" where
  "ingress_config_from_env parse env =
     and_then (parse_socket_addr env ''SKID_MONITOR_INGRESS_ADDR'' ''0.0.0.0:4317'') (\<lambda>listen_addr.
     and_then (database_config_of parse env) (\<lambda>database.
     and_then (oidc_config_of parse env ''SKID_MONITOR_INGRESS_AUDIENCE'' ''SKID_MONITOR_INGRESS_ROLE''
         ''telemetry-ingest'') (\<lambda>oidc.
     and_then (tls_mode_of env ''SKID_MONITOR_INGRESS_TLS_CERT'' ''SKID_MONITOR_INGRESS_TLS_KEY''
         ''SKID_MONITOR_INGRESS_TLS_TERMINATED'') (\<lambda>tls.
     and_then (positive_usize env ''SKID_MONITOR_MAX_SIGNAL_BYTES'' DEFAULT_MAX_SIGNAL_BYTES) (\<lambda>max_signal_bytes.
     and_then (positive_usize env ''SKID_MONITOR_INGRESS_CONCURRENCY_PER_CONNECTION''
         DEFAULT_INGRESS_CONCURRENCY_PER_CONNECTION) (\<lambda>per_connection.
     map_ok (\<lambda>global.
         \<lparr>ic_listen_addr = listen_addr, ic_database = database, ic_oidc = oidc, ic_tls = tls,
          ic_max_signal_bytes = min max_signal_bytes MAX_SIGNAL_BYTES,
          ic_concurrency_per_connection = min per_connection 4096,
          ic_global_request_concurrency = bounded_ingress_global_request_concurrency global\<rparr>)
       (positive_usize env ''SKID_MONITOR_INGRESS_GLOBAL_REQUEST_CONCURRENCY''
         DEFAULT_INGRESS_GLOBAL_REQUEST_CONCURRENCY)))))))"

definition client_server_config_from_env ::
  "url_parser \<Rightarrow> environment \<Rightarrow> config_error + client_server_config"
where
  "client_server_config_from_env parse env =
     and_then (parse_socket_addr env ''SKID_MONITOR_CLIENT_SERVER_ADDR'' ''0.0.0.0:8080'') (\<lambda>listen_addr.
     and_then (database_config_of parse env) (\<lambda>database.
     and_then (oidc_config_of parse env ''SKID_MONITOR_CLIENT_AUDIENCE'' ''SKID_MONITOR_CLIENT_READ_ROLE''
         ''telemetry-read'') (\<lambda>oidc.
     and_then (tls_mode_of env ''SKID_MONITOR_CLIENT_TLS_CERT'' ''SKID_MONITOR_CLIENT_TLS_KEY''
         ''SKID_MONITOR_CLIENT_TLS_TERMINATED'') (\<lambda>tls.
     and_then (positive_usize env ''SKID_MONITOR_CLIENT_BODY_LIMIT'' (1024 * 1024)) (\<lambda>body_limit.
     and_then (positive_usize env ''SKID_MONITOR_STREAM_BATCH_SIZE'' 256) (\<lambda>batch_size.
     and_then (positive_usize env ''SKID_MONITOR_STREAM_BATCH_BYTES'' DEFAULT_STREAM_BATCH_BYTES) (\<lambda>batch_bytes.
     and_then (positive_usize env ''SKID_MONITOR_CLIENT_REQUEST_CONCURRENCY''
         DEFAULT_CLIENT_REQUEST_CONCURRENCY) (\<lambda>concurrency.
     and_then (positive_usize env ''SKID_MONITOR_CLIENT_REPLAY_CONCURRENCY''
         DEFAULT_CLIENT_REPLAY_CONCURRENCY) (\<lambda>replay.
     map_ok (\<lambda>streams.
         \<lparr>cc_listen_addr = listen_addr, cc_database = database, cc_oidc = oidc,
          cc_admin_role = unwrap_or ''telemetry-admin'' (env_non_empty env ''SKID_MONITOR_CLIENT_ADMIN_ROLE''),
          cc_tls = tls, cc_request_body_limit = min body_limit MAX_CLIENT_BODY_BYTES,
          cc_stream_batch_size = min batch_size 4096,
          cc_stream_batch_bytes = min batch_bytes MAX_STREAM_BATCH_BYTES,
          cc_request_concurrency = min concurrency 16384,
          cc_replay_concurrency = bounded_replay_concurrency replay,
          cc_max_stream_connections = min streams 65536\<rparr>)
       (positive_usize env ''SKID_MONITOR_CLIENT_MAX_STREAM_CONNECTIONS''
         DEFAULT_CLIENT_STREAM_CONNECTIONS))))))))))"

definition migration_config_from_env :: "url_parser \<Rightarrow> environment \<Rightarrow> config_error + migration_config" where
  "migration_config_from_env parse env =
     map_ok (\<lambda>d. \<lparr>mc_database = d\<rparr>)
       (database_config_from parse env ''SKID_MONITOR_MIGRATION_DATABASE_URL''
         ''SKID_MONITOR_MIGRATION_DATABASE_MAX_CONNECTIONS''
         ''SKID_MONITOR_MIGRATION_DATABASE_TLS_TERMINATED'' 2)"

section \<open>Lemmas\<close>

lemma parse_positive_range:
  "parse_positive bound env name d = Inr n \<Longrightarrow> 0 < n \<and> (n < bound \<or> n = d)"
  by (auto simp: parse_positive_def result_simps dest: parse_uint_bound split: option.splits if_splits)

text \<open>A database URL is accepted with verified TLS, or in plaintext on explicit request.\<close>

definition sslmodes :: "url \<Rightarrow> string list" where
  "sslmodes u = map snd (filter (\<lambda>(k, _). k = ''sslmode'') (url_query_pairs u))"

definition database_protected :: "url_parser \<Rightarrow> environment \<Rightarrow> database_config \<Rightarrow> bool" where
  "database_protected parse env d \<longleftrightarrow>
     (\<exists>u. parse (dc_url d) = Some u \<and> url_scheme u \<in> {''postgres'', ''postgresql''} \<and> url_host u \<noteq> None \<and>
       (sslmodes u = [''verify-full''] \<or>
        sslmodes u = [''disable''] \<and> parse_bool env ''SKID_MONITOR_DATABASE_TLS_TERMINATED'' False = Inr True))"

definition transport_protected :: "environment \<Rightarrow> string \<Rightarrow> string \<Rightarrow> string \<Rightarrow> tls_mode \<Rightarrow> bool" where
  "transport_protected env cert_env key_env terminated_env m \<longleftrightarrow> (case m of
     Direct cert key \<Rightarrow> env_non_empty env cert_env = Some cert \<and> env_non_empty env key_env = Some key
   | TerminatedUpstream \<Rightarrow> parse_bool env terminated_env False = Inr True)"

lemma validate_database_url_Inr:
  assumes "validate_database_url parse v terminated = Inr r"
  obtains u where "parse v = Some u" "url_scheme u \<in> {''postgres'', ''postgresql''}" "url_host u \<noteq> None"
    "sslmodes u = [''verify-full''] \<or> sslmodes u = [''disable''] \<and> terminated"
proof -
  obtain u where u: "parse v = Some u" "url_scheme u \<in> {''postgres'', ''postgresql''}" "url_host u \<noteq> None"
    and modes: "\<not> 1 < length (sslmodes u)" "sslmodes u \<noteq> []"
      "hd (sslmodes u) = ''verify-full'' \<or> hd (sslmodes u) = ''disable'' \<and> terminated"
    using assms unfolding validate_database_url_def Let_def sslmodes_def [symmetric]
    by (auto split: option.splits if_splits list.splits)
  then have "length (sslmodes u) = 1" by (cases "sslmodes u") auto
  then have "sslmodes u = [hd (sslmodes u)]" by (cases "sslmodes u") auto
  then show ?thesis using that u modes(3) by metis
qed

lemma database_config_protected:
  assumes "database_config_of parse env = Inr d"
  shows "database_protected parse env d \<and> 0 < dc_max_connections d"
proof -
  obtain u terminated n where d: "parse_bool env ''SKID_MONITOR_DATABASE_TLS_TERMINATED'' False = Inr terminated"
    "validate_database_url parse u terminated = Inr ()" "dc_url d = u" "dc_max_connections d = n"
    "positive_u32 env ''SKID_MONITOR_DATABASE_MAX_CONNECTIONS'' DEFAULT_DATABASE_CONNECTIONS = Inr n"
    using assms unfolding database_config_of_def database_config_from_def by (auto simp: result_simps)
  obtain w where w: "parse u = Some w" "url_scheme w \<in> {''postgres'', ''postgresql''}" "url_host w \<noteq> None"
    "sslmodes w = [''verify-full''] \<or> sslmodes w = [''disable''] \<and> terminated"
    by (rule validate_database_url_Inr [OF d(2)])
  then have "database_protected parse env d"
    unfolding database_protected_def d(1,3) by (intro exI [of _ w]) auto
  then show ?thesis using d(4) parse_positive_range [OF d(5)] by simp
qed

lemma tls_mode_protected:
  assumes "tls_mode_of env cert_env key_env terminated_env = Inr m"
  shows "transport_protected env cert_env key_env terminated_env m"
  using assms
  by (auto simp: tls_mode_of_def transport_protected_def result_simps split: option.splits if_splits)

text \<open>RFC 6901: the reference tokens a JSON pointer denotes.\<close>

fun unescape_token :: "string \<Rightarrow> string" where
  "unescape_token [] = []"
| "unescape_token [c] = [c]"
| "unescape_token (c # d # r) =
     (if c = CHR ''~'' \<and> d = CHR ''1'' then CHR ''/'' # unescape_token r
      else if c = CHR ''~'' \<and> d = CHR ''0'' then CHR ''~'' # unescape_token r
      else c # unescape_token (d # r))"

definition pointer_tokens :: "string \<Rightarrow> string list" where
  "pointer_tokens p = map unescape_token (tl (split_on (\<lambda>c. c = CHR ''/'') p))"

definition escape_token :: "string \<Rightarrow> string" where
  "escape_token s = str_replace_char (CHR ''/'') ''~1'' (str_replace_char (CHR ''~'') ''~0'' s)"

lemma escape_token_Cons:
  "escape_token [] = []"
  "escape_token (c # r) = (if c = CHR ''~'' then ''~0'' else if c = CHR ''/'' then ''~1'' else [c]) @ escape_token r"
  by (simp_all add: escape_token_def str_replace_char_def)

lemma unescape_escape: "unescape_token (escape_token s) = s"
proof (induction s)
  case (Cons c r)
  have "unescape_token (c # x) = c # unescape_token x" if "c \<noteq> CHR ''~''" for x
    using that by (cases x) auto
  then show ?case using Cons by (auto simp: escape_token_Cons)
qed (simp add: escape_token_Cons)

lemma split_on_none: "(\<forall>c \<in> set s. \<not> P c) \<Longrightarrow> split_on P s = [s]"
  by (induction s) auto

lemma escape_token_no_slash: "CHR ''/'' \<notin> set (escape_token s)"
  by (induction s) (auto simp: escape_token_Cons)

text \<open>An environment with the minimal settings of the ingress service.\<close>

definition ex_parse :: url_parser where
  "ex_parse v = Some
     \<lparr>url_scheme = (if v = ''d'' then ''postgres'' else ''https''), url_host = Some ''h'', url_username = [],
      url_password = None, url_path = ''/'', url_query = None, url_fragment = None,
      url_query_pairs = (if v = ''d'' then [(''sslmode'', ''verify-full'')] else []),
      url_origin = ''https://h'', url_text = v\<rparr>"

definition ex_settings :: environment where
  "ex_settings = map_of
     [(''SKID_MONITOR_DATABASE_URL'', ''d''), (''SKID_MONITOR_OIDC_ISSUER'', ''i''),
      (''SKID_MONITOR_INGRESS_AUDIENCE'', ''a''), (''SKID_MONITOR_INGRESS_TLS_TERMINATED'', ''1'')]"

lemma read_ipv4_steps: "read_ipv4_addr = read_octets 0 (Suc (Suc (Suc (Suc 0))))"
  by (simp add: read_ipv4_addr_def numeral_eq_Suc)

lemma ex_socket: "parse_socket_addr ex_settings ''SKID_MONITOR_INGRESS_ADDR'' ''0.0.0.0:4317'' =
    Inr (SocketV4 [0, 0, 0, 0] 4317)"
  by (simp add: parse_socket_addr_def env_non_empty_def ex_settings_def parse_socket_def read_socket_addr_v4_def
      then_read_def read_ipv4_steps read_separator_def read_given_char_def read_number_def radix_digit_def
      hex_digit_def is_digit_def code_def read_port_def)

lemma ex_oidc: "is_ok (oidc_config_of ex_parse ex_settings ''SKID_MONITOR_INGRESS_AUDIENCE''
    ''SKID_MONITOR_INGRESS_ROLE'' ''telemetry-ingest'')"
  by code_simp

lemma ex_tls: "tls_mode_of ex_settings ''SKID_MONITOR_INGRESS_TLS_CERT'' ''SKID_MONITOR_INGRESS_TLS_KEY''
    ''SKID_MONITOR_INGRESS_TLS_TERMINATED'' = Inr TerminatedUpstream"
  by code_simp

lemma ex_database: "database_config_of ex_parse ex_settings = Inr \<lparr>dc_url = ''d'', dc_max_connections = 12\<rparr>"
proof -
  have "required ex_settings ''SKID_MONITOR_DATABASE_URL'' = Inr ''d''"
    "parse_bool ex_settings ''SKID_MONITOR_DATABASE_TLS_TERMINATED'' False = Inr False"
    "validate_database_url ex_parse ''d'' False = Inr ()"
    by code_simp+
  then show ?thesis
    by (simp add: database_config_of_def database_config_from_def parse_positive_def env_non_empty_def
        ex_settings_def DEFAULT_DATABASE_CONNECTIONS_def)
qed

lemma ex_ingress: "is_ok (ingress_config_from_env ex_parse ex_settings)"
proof -
  obtain oc where "oidc_config_of ex_parse ex_settings ''SKID_MONITOR_INGRESS_AUDIENCE''
    ''SKID_MONITOR_INGRESS_ROLE'' ''telemetry-ingest'' = Inr oc"
    using ex_oidc by (auto simp: is_ok_iff)
  then show ?thesis
    by (simp add: ingress_config_from_env_def ex_socket ex_database ex_tls)
      (simp add: parse_positive_def env_non_empty_def ex_settings_def DEFAULT_MAX_SIGNAL_BYTES_def
        DEFAULT_INGRESS_CONCURRENCY_PER_CONNECTION_def DEFAULT_INGRESS_GLOBAL_REQUEST_CONCURRENCY_def)
qed

section \<open>Properties\<close>



text \<open>The pointer built from a plain claim name denotes, by the rules of RFC 6901, exactly
  the top-level member of that name, whatever characters the name has.\<close>

lemma claim_pointer_names_claim:
  "pointer_tokens (top_level_claim_pointer claim) = [claim]"
proof -
  have "split_on (\<lambda>c. c = CHR ''/'') (escape_token claim) = [escape_token claim]"
    using escape_token_no_slash [of claim] by (intro split_on_none) auto
  then show ?thesis
    by (simp add: pointer_tokens_def top_level_claim_pointer_def escape_token_def [symmetric] unescape_escape)
qed

end
