(* ===== verification/Pg_Schema.thy ===== *)
theory Pg_Schema
  imports Signal_Core
begin

text \<open>
  The start-up checks of the PostgreSQL store (\<open>skid-monitor-server/src/store.rs\<close>): the
  error type and its text, the pool options, the catalog queries with the required
  relations, columns, constraints, indexes and policies, the comparison with the embedded
  migrations, and the capabilities of the runtime role. The catalog of the server is a
  value of the record \<open>pg_catalog\<close>; \<open>fault n\<close> says that the query number \<open>n\<close> of a check fails.
  The migration \<open>0001_cloud_signal_store.sql\<close> is modelled by the catalog it leaves behind.
\<close>

section \<open>Errors\<close>

datatype sqlx_error = RowNotFound | SqlFault | SqlViolation string

datatype pg_store_error =
    Database sqlx_error
  | Migration string
  | Json string
  | InvalidSignalPayload string
  | SignalPayloadNotRoundTripSafe
  | SignalPayloadTooLarge nat nat
  | SoloScope
  | TenantDisabled tenant_id
  | AgentNotEnrolled agent_id
  | AgentDisabled agent_id
  | AgentLimitReached tenant_id nat
  | SequenceConflict agent_id u64
  | IntegerOutOfRange string
  | InvalidAgentId string
  | InvalidActorId
  | InvalidStreamTicketSubject
  | InvalidStreamTicketTtl
  | InvalidStreamTicketAuthorizationExpiry
  | StreamTicketAuthorizationExpired
  | UnsafeRuntimeRole string "string list"
  | RuntimeSchemaNotReady "string list"
  | InvalidPoolOptions string
  | CorruptRow string

fun pg_store_error_display ::
  "(sqlx_error \<Rightarrow> string) \<Rightarrow> (uuid \<Rightarrow> string) \<Rightarrow> pg_store_error \<Rightarrow> string"
where
  "pg_store_error_display sq us (Database e) = ''PostgreSQL store error: '' @ sq e"
| "pg_store_error_display sq us (Migration e) = ''PostgreSQL migration error: '' @ e"
| "pg_store_error_display sq us (Json e) = ''signal JSON error: '' @ e"
| "pg_store_error_display sq us (InvalidSignalPayload e) =
     ''signal payload is not JSON round-trip safe: '' @ e"
| "pg_store_error_display sq us SignalPayloadNotRoundTripSafe =
     ''signal payload changes during JSON round-trip (for example, a non-finite number)''"
| "pg_store_error_display sq us (SignalPayloadTooLarge actual mx) =
     ''serialized signal payload is '' @ show_nat actual @ '' bytes; maximum is '' @
     show_nat mx @ '' bytes''"
| "pg_store_error_display sq us SoloScope =
     ''the PostgreSQL cloud store accepts tenant-scoped envelopes only''"
| "pg_store_error_display sq us (TenantDisabled t) =
     ''tenant `'' @ us (tenant_uuid t) @ ''` is disabled''"
| "pg_store_error_display sq us (AgentNotEnrolled a) =
     ''agent `'' @ agent_id_str a @ ''` is not enrolled for this tenant''"
| "pg_store_error_display sq us (AgentDisabled a) =
     ''agent `'' @ agent_id_str a @ ''` is disabled for this tenant''"
| "pg_store_error_display sq us (AgentLimitReached t mx) =
     ''tenant `'' @ us (tenant_uuid t) @ ''` has reached its limit of '' @ show_nat mx @
     '' agents''"
| "pg_store_error_display sq us (SequenceConflict a s) =
     ''agent `'' @ agent_id_str a @ ''` reused sequence '' @ show_u64 s @
     '' for a different signal''"
| "pg_store_error_display sq us (IntegerOutOfRange f) =
     ''`'' @ f @ ''` is outside PostgreSQL BIGINT range''"
| "pg_store_error_display sq us (InvalidAgentId e) = ''invalid stored agent id: '' @ e"
| "pg_store_error_display sq us InvalidActorId = ''audit actor id must not be empty''"
| "pg_store_error_display sq us InvalidStreamTicketSubject =
     ''stream ticket subject must be non-empty and no larger than 1024 bytes''"
| "pg_store_error_display sq us InvalidStreamTicketTtl =
     ''stream ticket TTL must be at least one millisecond and no greater than five minutes''"
| "pg_store_error_display sq us InvalidStreamTicketAuthorizationExpiry =
     ''stream ticket authorization expiry is outside the supported Unix timestamp range''"
| "pg_store_error_display sq us StreamTicketAuthorizationExpired =
     ''stream ticket authorization has already expired''"
| "pg_store_error_display sq us (UnsafeRuntimeRole r reasons) =
     ''PostgreSQL runtime role `'' @ r @ ''` is unsafe ('' @ str_join '', '' reasons @ '')''"
| "pg_store_error_display sq us (RuntimeSchemaNotReady problems) =
     ''PostgreSQL runtime schema is not ready: '' @ str_join ''; '' problems"
| "pg_store_error_display sq us (InvalidPoolOptions e) =
     ''invalid PostgreSQL pool options: '' @ e"
| "pg_store_error_display sq us (CorruptRow f) =
     ''PostgreSQL row contains invalid `'' @ f @ ''` data''"

section \<open>Pool options\<close>

text \<open>Durations are in nanoseconds.\<close>

record pg_store_options =
  po_min_connections :: u32
  po_max_connections :: u32
  po_acquire_timeout :: nat
  po_idle_timeout :: nat
  po_max_lifetime :: nat

definition secs :: "nat \<Rightarrow> nat" where
  "secs n = n * 1000000000"

definition pg_store_options_default :: pg_store_options where
  "pg_store_options_default =
     \<lparr>po_min_connections = 1, po_max_connections = 16, po_acquire_timeout = secs 5,
      po_idle_timeout = secs (10 * 60), po_max_lifetime = secs (30 * 60)\<rparr>"

definition validate_pool_options :: "pg_store_options \<Rightarrow> pg_store_error + pg_store_options" where
  "validate_pool_options opts =
     (if po_max_connections opts = 0 then
        Inl (InvalidPoolOptions ''max_connections must be greater than zero'')
      else if po_min_connections opts > po_max_connections opts then
        Inl (InvalidPoolOptions ''min_connections must not exceed max_connections'')
      else if po_acquire_timeout opts = 0 then
        Inl (InvalidPoolOptions ''acquire_timeout must be greater than zero'')
      else Inr opts)"

section \<open>Required schema\<close>

definition TENANT_RELATIONS :: "string list" where
  "TENANT_RELATIONS =
     [''tenants'', ''agents'', ''signal_events'', ''signal_projection'', ''audit_events'',
      ''stream_tickets'']"

definition REQUIRED_RELATIONS :: "string list" where
  "REQUIRED_RELATIONS =
     [''_sqlx_migrations'', ''tenants'', ''agents'', ''signal_events'', ''signal_projection'',
      ''audit_events'', ''stream_tickets'']"

record required_column =
  rc_relation :: string
  rc_name :: string
  rc_data_type :: string
  rc_not_null :: bool
  rc_identity :: string

definition column :: "string \<Rightarrow> string \<Rightarrow> string \<Rightarrow> bool \<Rightarrow> required_column" where
  "column relation name data_type not_null =
     \<lparr>rc_relation = relation, rc_name = name, rc_data_type = data_type, rc_not_null = not_null,
      rc_identity = ''''\<rparr>"

definition column_identity ::
  "string \<Rightarrow> string \<Rightarrow> string \<Rightarrow> bool \<Rightarrow> string \<Rightarrow> required_column"
where
  "column_identity relation name data_type not_null identity =
     \<lparr>rc_relation = relation, rc_name = name, rc_data_type = data_type, rc_not_null = not_null,
      rc_identity = identity\<rparr>"

definition REQUIRED_COLUMNS :: "required_column list" where
  "REQUIRED_COLUMNS = [
    column ''_sqlx_migrations'' ''version'' ''bigint'' True,
    column ''_sqlx_migrations'' ''description'' ''text'' True,
    column ''_sqlx_migrations'' ''installed_on'' ''timestamp with time zone'' True,
    column ''_sqlx_migrations'' ''success'' ''boolean'' True,
    column ''_sqlx_migrations'' ''checksum'' ''bytea'' True,
    column ''_sqlx_migrations'' ''execution_time'' ''bigint'' True,
    column ''tenants'' ''id'' ''uuid'' True,
    column ''tenants'' ''slug'' ''text'' True,
    column ''tenants'' ''display_name'' ''text'' True,
    column ''tenants'' ''enabled'' ''boolean'' True,
    column ''tenants'' ''created_at'' ''timestamp with time zone'' True,
    column ''tenants'' ''updated_at'' ''timestamp with time zone'' True,
    column ''agents'' ''tenant_id'' ''uuid'' True,
    column ''agents'' ''agent_id'' ''text'' True,
    column ''agents'' ''display_name'' ''text'' False,
    column ''agents'' ''enabled'' ''boolean'' True,
    column ''agents'' ''enrolled_at'' ''timestamp with time zone'' True,
    column ''agents'' ''updated_at'' ''timestamp with time zone'' True,
    column ''agents'' ''last_seen_at'' ''timestamp with time zone'' False,
    column_identity ''signal_events'' ''cursor'' ''bigint'' True ''a'',
    column ''signal_events'' ''tenant_id'' ''uuid'' True,
    column ''signal_events'' ''event_id'' ''uuid'' True,
    column ''signal_events'' ''agent_id'' ''text'' True,
    column ''signal_events'' ''sequence'' ''numeric(20,0)'' True,
    column ''signal_events'' ''received_at_unix_nano'' ''numeric(20,0)'' True,
    column ''signal_events'' ''signal_kind'' ''text'' True,
    column ''signal_events'' ''payload'' ''jsonb'' True,
    column ''signal_events'' ''payload_bytes'' ''bigint'' True,
    column ''signal_events'' ''committed_at'' ''timestamp with time zone'' True,
    column ''signal_projection'' ''tenant_id'' ''uuid'' True,
    column ''signal_projection'' ''last_cursor'' ''bigint'' True,
    column ''signal_projection'' ''projection'' ''jsonb'' True,
    column ''signal_projection'' ''updated_at'' ''timestamp with time zone'' True,
    column_identity ''audit_events'' ''id'' ''bigint'' True ''a'',
    column ''audit_events'' ''tenant_id'' ''uuid'' True,
    column ''audit_events'' ''actor_type'' ''text'' True,
    column ''audit_events'' ''actor_id'' ''text'' True,
    column ''audit_events'' ''action'' ''text'' True,
    column ''audit_events'' ''target_type'' ''text'' True,
    column ''audit_events'' ''target_id'' ''text'' True,
    column ''audit_events'' ''details'' ''jsonb'' True,
    column ''audit_events'' ''occurred_at'' ''timestamp with time zone'' True,
    column ''stream_tickets'' ''ticket_id'' ''uuid'' True,
    column ''stream_tickets'' ''tenant_id'' ''uuid'' True,
    column ''stream_tickets'' ''subject'' ''text'' True,
    column ''stream_tickets'' ''created_at'' ''timestamp with time zone'' True,
    column ''stream_tickets'' ''authorized_until'' ''timestamp with time zone'' True,
    column ''stream_tickets'' ''expires_at'' ''timestamp with time zone'' True,
    column ''stream_tickets'' ''consumed_at'' ''timestamp with time zone'' False]"

record required_constraint =
  rk_relation :: string
  rk_name :: string
  rk_constraint_type :: string

definition constraint :: "string \<Rightarrow> string \<Rightarrow> string \<Rightarrow> required_constraint" where
  "constraint relation name constraint_type =
     \<lparr>rk_relation = relation, rk_name = name, rk_constraint_type = constraint_type\<rparr>"

definition REQUIRED_CONSTRAINTS :: "required_constraint list" where
  "REQUIRED_CONSTRAINTS = [
    constraint ''_sqlx_migrations'' ''_sqlx_migrations_pkey'' ''p'',
    constraint ''tenants'' ''tenants_pkey'' ''p'',
    constraint ''tenants'' ''tenants_slug_key'' ''u'',
    constraint ''tenants'' ''tenants_slug_not_blank'' ''c'',
    constraint ''tenants'' ''tenants_display_name_not_blank'' ''c'',
    constraint ''agents'' ''agents_pkey'' ''p'',
    constraint ''agents'' ''agents_tenant_id_fkey'' ''f'',
    constraint ''agents'' ''agents_id_size'' ''c'',
    constraint ''agents'' ''agents_id_no_control_characters'' ''c'',
    constraint ''agents'' ''agents_display_name_not_blank'' ''c'',
    constraint ''signal_events'' ''signal_events_pkey'' ''p'',
    constraint ''signal_events'' ''signal_events_tenant_id_fkey'' ''f'',
    constraint ''signal_events'' ''signal_events_agent_fk'' ''f'',
    constraint ''signal_events'' ''signal_events_tenant_event_unique'' ''u'',
    constraint ''signal_events'' ''signal_events_tenant_agent_sequence_unique'' ''u'',
    constraint ''signal_events'' ''signal_events_cursor_positive'' ''c'',
    constraint ''signal_events'' ''signal_events_sequence_non_negative'' ''c'',
    constraint ''signal_events'' ''signal_events_sequence_u64'' ''c'',
    constraint ''signal_events'' ''signal_events_received_at_non_negative'' ''c'',
    constraint ''signal_events'' ''signal_events_received_at_u64'' ''c'',
    constraint ''signal_events'' ''signal_events_kind'' ''c'',
    constraint ''signal_events'' ''signal_events_payload_object'' ''c'',
    constraint ''signal_events'' ''signal_events_payload_bytes_positive'' ''c'',
    constraint ''signal_events'' ''signal_events_payload_bytes_bounded'' ''c'',
    constraint ''signal_projection'' ''signal_projection_pkey'' ''p'',
    constraint ''signal_projection'' ''signal_projection_tenant_id_fkey'' ''f'',
    constraint ''signal_projection'' ''signal_projection_last_cursor_non_negative'' ''c'',
    constraint ''signal_projection'' ''signal_projection_object'' ''c'',
    constraint ''audit_events'' ''audit_events_pkey'' ''p'',
    constraint ''audit_events'' ''audit_events_tenant_id_fkey'' ''f'',
    constraint ''audit_events'' ''audit_events_actor_type_not_blank'' ''c'',
    constraint ''audit_events'' ''audit_events_actor_id_not_blank'' ''c'',
    constraint ''audit_events'' ''audit_events_action_not_blank'' ''c'',
    constraint ''audit_events'' ''audit_events_target_type_not_blank'' ''c'',
    constraint ''audit_events'' ''audit_events_target_id_not_blank'' ''c'',
    constraint ''audit_events'' ''audit_events_details_object'' ''c'',
    constraint ''stream_tickets'' ''stream_tickets_pkey'' ''p'',
    constraint ''stream_tickets'' ''stream_tickets_tenant_id_fkey'' ''f'',
    constraint ''stream_tickets'' ''stream_tickets_subject_not_blank'' ''c'',
    constraint ''stream_tickets'' ''stream_tickets_subject_size'' ''c'',
    constraint ''stream_tickets'' ''stream_tickets_authorization_after_creation'' ''c'',
    constraint ''stream_tickets'' ''stream_tickets_expiry_after_creation'' ''c'',
    constraint ''stream_tickets'' ''stream_tickets_expiry_within_authorization'' ''c'',
    constraint ''stream_tickets'' ''stream_tickets_consumed_before_expiry'' ''c'']"

definition REQUIRED_INDEXES :: "(string \<times> string) list" where
  "REQUIRED_INDEXES = [
    (''signal_events'', ''signal_events_tenant_cursor_idx''),
    (''signal_events'', ''signal_events_tenant_committed_at_idx''),
    (''audit_events'', ''audit_events_tenant_occurred_at_idx''),
    (''stream_tickets'', ''stream_tickets_cleanup_idx'')]"

section \<open>The catalog and its queries\<close>

record pg_class_row =
  cls_oid :: nat
  cls_relname :: string
  cls_relnamespace :: nat
  cls_relkind :: string
  cls_relowner :: nat
  cls_relrowsecurity :: bool
  cls_relforcerowsecurity :: bool

record pg_attribute_row =
  att_attrelid :: nat
  att_attname :: string
  att_attnum :: int
  att_attisdropped :: bool
  att_format_type :: string
  att_attnotnull :: bool
  att_attidentity :: string

record pg_constraint_row =
  con_conrelid :: nat
  con_conname :: string
  con_contype :: string
  con_convalidated :: bool

record pg_index_row =
  ind_indrelid :: nat
  ind_indexrelid :: nat
  ind_indisvalid :: bool
  ind_indisready :: bool

record pg_policy_row =
  pol_polrelid :: nat
  pol_polname :: string
  pol_polpermissive :: bool
  pol_polcmd :: string
  pol_public_only :: bool
  pol_using :: "string option"
  pol_check :: "string option"

record pg_role_row =
  rol_oid :: nat
  rol_rolname :: string
  rol_rolsuper :: bool
  rol_rolbypassrls :: bool
  rol_rolcreatedb :: bool
  rol_rolcreaterole :: bool
  rol_rolreplication :: bool

record pg_catalog =
  cat_namespaces :: "(nat \<times> string) list"
  cat_class :: "pg_class_row list"
  cat_attribute :: "pg_attribute_row list"
  cat_constraint :: "pg_constraint_row list"
  cat_index :: "pg_index_row list"
  cat_policy :: "pg_policy_row list"
  cat_roles :: "pg_role_row list"
  cat_current_user :: string
  cat_session_user :: string
  cat_has_role :: "nat \<Rightarrow> bool"
  cat_can_create_public :: bool
  cat_can_read_migrations :: bool
  cat_migrations :: "(int \<times> bool \<times> bytes) list"

definition in_public :: "pg_catalog \<Rightarrow> pg_class_row \<Rightarrow> bool" where
  "in_public cat c \<longleftrightarrow> (cls_relnamespace c, ''public'') \<in> set (cat_namespaces cat)"

definition RUNTIME_RELATIONS_SQL ::
  "pg_catalog \<Rightarrow> string list \<Rightarrow> (string \<times> bool \<times> bool) list"
where
  "RUNTIME_RELATIONS_SQL cat names =
     [(cls_relname c, cls_relrowsecurity c, cls_relforcerowsecurity c).
        c \<leftarrow> cat_class cat, in_public cat c, cls_relkind c \<in> {''r'', ''p''},
        cls_relname c \<in> set names]"

definition RUNTIME_COLUMNS_SQL ::
  "pg_catalog \<Rightarrow> string list \<Rightarrow> ((string \<times> string) \<times> (string \<times> bool \<times> string)) list"
where
  "RUNTIME_COLUMNS_SQL cat names =
     [((cls_relname c, att_attname a), (att_format_type a, att_attnotnull a, att_attidentity a)).
        a \<leftarrow> cat_attribute cat, c \<leftarrow> cat_class cat, cls_oid c = att_attrelid a, in_public cat c,
        cls_relkind c \<in> {''r'', ''p''}, att_attnum a > 0, \<not> att_attisdropped a,
        cls_relname c \<in> set names]"

definition RUNTIME_CONSTRAINTS_SQL ::
  "pg_catalog \<Rightarrow> string list \<Rightarrow> ((string \<times> string) \<times> (string \<times> bool)) list"
where
  "RUNTIME_CONSTRAINTS_SQL cat names =
     [((cls_relname c, con_conname k), (con_contype k, con_convalidated k)).
        k \<leftarrow> cat_constraint cat, c \<leftarrow> cat_class cat, cls_oid c = con_conrelid k, in_public cat c,
        cls_relname c \<in> set names]"

definition RUNTIME_INDEXES_SQL ::
  "pg_catalog \<Rightarrow> string list \<Rightarrow> ((string \<times> string) \<times> (bool \<times> bool)) list"
where
  "RUNTIME_INDEXES_SQL cat names =
     [((cls_relname c, cls_relname x), (ind_indisvalid i, ind_indisready i)).
        i \<leftarrow> cat_index cat, c \<leftarrow> cat_class cat, cls_oid c = ind_indrelid i,
        x \<leftarrow> cat_class cat, cls_oid x = ind_indexrelid i, in_public cat c,
        cls_relname c \<in> set names]"

type_synonym policy_info = "bool \<times> string \<times> bool \<times> string option \<times> string option"

definition RUNTIME_POLICIES_SQL ::
  "pg_catalog \<Rightarrow> string list \<Rightarrow> ((string \<times> string) \<times> policy_info) list"
where
  "RUNTIME_POLICIES_SQL cat names =
     [((cls_relname c, pol_polname p),
       (pol_polpermissive p, pol_polcmd p, pol_public_only p, pol_using p, pol_check p)).
        p \<leftarrow> cat_policy cat, c \<leftarrow> cat_class cat, cls_oid c = pol_polrelid p, in_public cat c,
        cls_relname c \<in> set names]"

text \<open>A query of a check either fails or returns its rows; a \<open>HashMap\<close> collected from rows
  keeps the last row of a key.\<close>

definition fetch :: "(nat \<Rightarrow> bool) \<Rightarrow> nat \<Rightarrow> 'a \<Rightarrow> pg_store_error + 'a" where
  "fetch fault n rows = (if fault n then Inl (Database SqlFault) else Inr rows)"

definition hash_map :: "('k \<times> 'v) list \<Rightarrow> 'k \<rightharpoonup> 'v" where
  "hash_map rows = map_of (rev rows)"

section \<open>Structure checks\<close>

definition missing_relation_problems :: "(string \<rightharpoonup> bool \<times> bool) \<Rightarrow> string list" where
  "missing_relation_problems relations =
     [''missing public.'' @ relation @ '' relation''.
        relation \<leftarrow> REQUIRED_RELATIONS, relations relation = None]"

definition row_security_problems :: "(string \<rightharpoonup> bool \<times> bool) \<Rightarrow> string list" where
  "row_security_problems relations =
     [''public.'' @ relation @ '' must enable and force row-level security''.
        relation \<leftarrow> TENANT_RELATIONS,
        (case relations relation of
           Some (row_security, force_row_security) \<Rightarrow> \<not> row_security \<or> \<not> force_row_security
         | None \<Rightarrow> False)]"

definition column_problem ::
  "(string \<times> string \<rightharpoonup> string \<times> bool \<times> string) \<Rightarrow> required_column \<Rightarrow> string list"
where
  "column_problem columns r =
     (case columns (rc_relation r, rc_name r) of
        None \<Rightarrow> [''missing public.'' @ rc_relation r @ ''.'' @ rc_name r @ '' column'']
      | Some (data_type, not_null, identity) \<Rightarrow>
          if data_type \<noteq> rc_data_type r \<or> not_null \<noteq> rc_not_null r \<or> identity \<noteq> rc_identity r
          then [''public.'' @ rc_relation r @ ''.'' @ rc_name r @
                '' has incompatible type, nullability, or identity mode'']
          else [])"

definition constraint_problem ::
  "(string \<times> string \<rightharpoonup> string \<times> bool) \<Rightarrow> required_constraint \<Rightarrow> string list"
where
  "constraint_problem constraints r =
     (if (case constraints (rk_relation r, rk_name r) of
            Some (constraint_type, validated) \<Rightarrow> constraint_type = rk_constraint_type r \<and> validated
          | None \<Rightarrow> False)
      then []
      else [''missing or incompatible '' @ rk_constraint_type r @ '' constraint public.'' @
            rk_relation r @ ''.'' @ rk_name r])"

definition index_problem :: "(string \<times> string \<rightharpoonup> bool \<times> bool) \<Rightarrow> string \<times> string \<Rightarrow> string list"
where
  "index_problem indexes = (\<lambda>(relation, index).
     if (case indexes (relation, index) of Some (valid, ready) \<Rightarrow> valid \<and> ready | None \<Rightarrow> False)
     then []
     else [''missing, invalid, or unready index public.'' @ index @ '' on public.'' @ relation])"

text \<open>\<open>str::replace\<close> with an empty replacement, and the removal of white space and parentheses.\<close>

function str_remove :: "string \<Rightarrow> string \<Rightarrow> string" where
  "str_remove p [] = []"
| "str_remove p (c # r) =
     (if p \<noteq> [] \<and> starts_with (c # r) p then str_remove p (drop (length p) (c # r))
      else c # str_remove p r)"
  by pat_completeness auto
termination
  by (relation "measure (\<lambda>(p, s). length s)") auto

function strip_ws_parens :: "string \<Rightarrow> string" where
  "strip_ws_parens [] = []"
| "strip_ws_parens (c # r) =
     (if ws_head (c # r) \<noteq> 0 then strip_ws_parens (drop (ws_head (c # r)) (c # r))
      else if c = CHR ''('' \<or> c = CHR '')'' then strip_ws_parens r
      else c # strip_ws_parens r)"
  by pat_completeness auto
termination
  by (relation "measure length") auto

definition normalize_policy_expression :: "string \<Rightarrow> string" where
  "normalize_policy_expression expression =
     strip_ws_parens (str_remove ''::text'' (to_ascii_lowercase expression))"

definition expected_tenant_policy_name :: "string \<Rightarrow> string" where
  "expected_tenant_policy_name relation = relation @ ''_tenant_isolation''"

definition is_allowed_runtime_policy_name :: "string \<Rightarrow> string \<Rightarrow> bool" where
  "is_allowed_runtime_policy_name relation policy_name \<longleftrightarrow>
     relation \<notin> set TENANT_RELATIONS \<or> policy_name = expected_tenant_policy_name relation"

definition tenant_column :: "string \<Rightarrow> string" where
  "tenant_column relation = (if relation = ''tenants'' then ''id'' else ''tenant_id'')"

definition quote_char :: char where
  "quote_char = char_of (39 :: nat)"

definition tenant_expression :: "string \<Rightarrow> string" where
  "tenant_expression col =
     col @ '' = NULLIF(current_setting('' @ [quote_char] @ ''app.tenant_id'' @ [quote_char] @
     '', true), '' @ [quote_char, quote_char] @ '')::uuid''"

definition policy_valid :: "string \<Rightarrow> policy_info \<Rightarrow> bool" where
  "policy_valid relation = (\<lambda>(permissive, command, public_only, using_expression, check_expression).
     let expected = normalize_policy_expression (tenant_expression (tenant_column relation)) in
     permissive \<and> command = ''*'' \<and> public_only \<and>
     map_option normalize_policy_expression using_expression = Some expected \<and>
     map_option normalize_policy_expression check_expression = Some expected)"

definition unexpected_policy_problems :: "(string \<times> string) list \<Rightarrow> string list" where
  "unexpected_policy_problems keys =
     [''public.'' @ relation @ '' has unexpected row-level security policy '' @ policy_name.
        (relation, policy_name) \<leftarrow> keys, \<not> is_allowed_runtime_policy_name relation policy_name]"

definition tenant_policy_problems :: "(string \<times> string \<rightharpoonup> policy_info) \<Rightarrow> string list" where
  "tenant_policy_problems policies =
     [''public.'' @ relation @ '' is missing exact tenant isolation policy '' @
      expected_tenant_policy_name relation.
        relation \<leftarrow> TENANT_RELATIONS,
        \<not> (case policies (relation, expected_tenant_policy_name relation) of
             Some info \<Rightarrow> policy_valid relation info | None \<Rightarrow> False)]"

definition required_relation_names :: "string list" where
  "required_relation_names = map (\<lambda>relation. relation) REQUIRED_RELATIONS"

text \<open>The keys of the policy map are reported in the order of the rows; the code iterates
  over a \<open>HashMap\<close>, whose order is unspecified.\<close>

definition runtime_structure_problems ::
  "(nat \<Rightarrow> bool) \<Rightarrow> pg_catalog \<Rightarrow> pg_store_error + string list"
where
  "runtime_structure_problems fault cat =
     (let names = required_relation_names in
      and_then (fetch fault 1 (RUNTIME_RELATIONS_SQL cat names)) (\<lambda>relation_rows.
      let relations = hash_map relation_rows;
          problems = missing_relation_problems relations @ row_security_problems relations in
      if relations ''_sqlx_migrations'' = None then Inr problems
      else
      and_then (fetch fault 2 (cat_can_read_migrations cat)) (\<lambda>can_read_migrations.
      let problems = problems @
        (if can_read_migrations then []
         else [''runtime role needs SELECT on public._sqlx_migrations for checksum verification'']) in
      and_then (fetch fault 3 (RUNTIME_COLUMNS_SQL cat names)) (\<lambda>column_rows.
      let columns = hash_map column_rows;
          problems = problems @ concat (map (column_problem columns) REQUIRED_COLUMNS) in
      and_then (fetch fault 4 (RUNTIME_CONSTRAINTS_SQL cat names)) (\<lambda>constraint_rows.
      let constraints = hash_map constraint_rows;
          problems = problems @ concat (map (constraint_problem constraints) REQUIRED_CONSTRAINTS) in
      and_then (fetch fault 5 (RUNTIME_INDEXES_SQL cat names)) (\<lambda>index_rows.
      let indexes = hash_map index_rows;
          problems = problems @ concat (map (index_problem indexes) REQUIRED_INDEXES) in
      and_then (fetch fault 6 (RUNTIME_POLICIES_SQL cat names)) (\<lambda>policy_rows.
      let policies = hash_map policy_rows;
          problems = problems @ unexpected_policy_problems (remdups (map fst policy_rows)) @
            tenant_policy_problems policies in
      Inr problems)))))))"

section \<open>Migrations\<close>

text \<open>\<open>embedded\<close> is the migration list compiled into the binary: version and checksum.\<close>

definition show_int :: "int \<Rightarrow> string" where
  "show_int i = (if i < 0 then ''-'' @ show_nat (nat (- i)) else show_nat (nat i))"

definition migration_problem ::
  "(int \<times> bool \<times> bytes) list \<Rightarrow> int \<times> bytes \<Rightarrow> string list"
where
  "migration_problem applied = (\<lambda>(version, checksum).
     case find (\<lambda>(v, _, _). v = version) applied of
       Some (_, True, c) \<Rightarrow>
         if c = checksum then []
         else [''migration '' @ show_int version @ '' checksum does not match this binary'']
     | Some (_, False, _) \<Rightarrow>
         [''migration '' @ show_int version @ '' is recorded as unsuccessful'']
     | None \<Rightarrow> [])"

definition validate_applied_migrations ::
  "(int \<times> bytes) list \<Rightarrow> (int \<times> bool \<times> bytes) list \<Rightarrow> string list"
where
  "validate_applied_migrations embedded applied =
     (if set (map fst embedded) \<noteq> set (map fst applied) \<or> length applied \<noteq> length embedded
      then [''applied migration versions do not exactly match this binary''] else []) @
     concat (map (migration_problem applied) embedded)"

definition APPLIED_MIGRATIONS_SQL :: "pg_catalog \<Rightarrow> (int \<times> bool \<times> bytes) list" where
  "APPLIED_MIGRATIONS_SQL cat = sort_key fst (cat_migrations cat)"

definition runtime_migration_problems ::
  "(nat \<Rightarrow> bool) \<Rightarrow> (int \<times> bytes) list \<Rightarrow> pg_catalog \<Rightarrow> pg_store_error + string list"
where
  "runtime_migration_problems fault embedded cat =
     and_then (fetch fault 7 (APPLIED_MIGRATIONS_SQL cat)) (\<lambda>applied.
       Inr (validate_applied_migrations embedded applied))"

definition schema_ready :: "string list \<Rightarrow> pg_store_error + unit" where
  "schema_ready problems =
     (if problems = [] then Inr () else Inl (RuntimeSchemaNotReady problems))"

definition verify_runtime_schema ::
  "(nat \<Rightarrow> bool) \<Rightarrow> (int \<times> bytes) list \<Rightarrow> pg_catalog \<Rightarrow> pg_store_error + unit"
where
  "verify_runtime_schema fault embedded cat =
     and_then (runtime_structure_problems fault cat) (\<lambda>problems.
     and_then (if problems = [] then runtime_migration_problems fault embedded cat else Inr [])
       (\<lambda>more. schema_ready (problems @ more)))"

section \<open>The runtime role\<close>

record runtime_role_capabilities =
  rr_role_name :: string
  rr_session_user_differs :: bool
  rr_superuser :: bool
  rr_bypasses_rls :: bool
  rr_creates_database :: bool
  rr_creates_role :: bool
  rr_replication :: bool
  rr_can_create_public_schema :: bool
  rr_member_of_relation_owner :: bool
  rr_member_of_privileged_role :: bool

definition validate_runtime_role :: "runtime_role_capabilities \<Rightarrow> pg_store_error + unit" where
  "validate_runtime_role c =
     (let reasons = map snd (filter fst [
        (rr_session_user_differs c, ''session_user differs''),
        (rr_superuser c, ''SUPERUSER''),
        (rr_bypasses_rls c, ''BYPASSRLS''),
        (rr_creates_database c, ''CREATEDB''),
        (rr_creates_role c, ''CREATEROLE''),
        (rr_replication c, ''REPLICATION''),
        (rr_can_create_public_schema c, ''CREATE on public schema''),
        (rr_member_of_relation_owner c, ''application relation owner membership''),
        (rr_member_of_privileged_role c, ''privileged role membership'')]) in
      if reasons = [] then Inr () else Inl (UnsafeRuntimeRole (rr_role_name c) reasons))"

definition privileged_role :: "pg_role_row \<Rightarrow> bool" where
  "privileged_role r \<longleftrightarrow> rol_rolsuper r \<or> rol_rolbypassrls r \<or> rol_rolcreatedb r \<or>
     rol_rolcreaterole r \<or> rol_rolreplication r"

definition VERIFY_RUNTIME_ROLE_SQL ::
  "pg_catalog \<Rightarrow> string list \<Rightarrow> runtime_role_capabilities list"
where
  "VERIFY_RUNTIME_ROLE_SQL cat names =
     [\<lparr>rr_role_name = cat_current_user cat,
       rr_session_user_differs = (cat_session_user cat \<noteq> cat_current_user cat),
       rr_superuser = rol_rolsuper r,
       rr_bypasses_rls = rol_rolbypassrls r,
       rr_creates_database = rol_rolcreatedb r,
       rr_creates_role = rol_rolcreaterole r,
       rr_replication = rol_rolreplication r,
       rr_can_create_public_schema = cat_can_create_public cat,
       rr_member_of_relation_owner =
         list_ex (\<lambda>c. in_public cat c \<and> cls_relkind c \<in> {''r'', ''p''} \<and>
           cls_relname c \<in> set names \<and> cat_has_role cat (cls_relowner c)) (cat_class cat),
       rr_member_of_privileged_role =
         list_ex (\<lambda>p. privileged_role p \<and> cat_has_role cat (rol_oid p)) (cat_roles cat)\<rparr>.
        r \<leftarrow> cat_roles cat, rol_rolname r = cat_current_user cat]"

definition fetch_one :: "'a list \<Rightarrow> pg_store_error + 'a" where
  "fetch_one rows = (case rows of [] \<Rightarrow> Inl (Database RowNotFound) | r # _ \<Rightarrow> Inr r)"

definition verify_runtime_role :: "(nat \<Rightarrow> bool) \<Rightarrow> pg_catalog \<Rightarrow> pg_store_error + unit" where
  "verify_runtime_role fault cat =
     and_then (fetch fault 0 (VERIFY_RUNTIME_ROLE_SQL cat required_relation_names)) (\<lambda>rows.
     and_then (fetch_one rows) validate_runtime_role)"

definition verify_ready ::
  "(nat \<Rightarrow> bool) \<Rightarrow> (int \<times> bytes) list \<Rightarrow> pg_catalog \<Rightarrow> pg_store_error + unit"
where
  "verify_ready fault embedded cat =
     and_then (verify_runtime_role fault cat) (\<lambda>_. verify_runtime_schema fault embedded cat)"

section \<open>The migration\<close>

text \<open>
  The statements of \<open>0001_cloud_signal_store.sql\<close>. A column is its name, its type as
  \<open>format_type\<close> prints it, \<open>NOT NULL\<close>, the identity mode and the constraints written on
  the column; table constraints carry their names. The bodies of \<open>CHECK\<close> constraints are
  part of the store model, where rows are inserted.
\<close>

datatype column_constraint = PrimaryKey | Unique | References

record column_def =
  cd_name :: string
  cd_type :: string
  cd_not_null :: bool
  cd_identity :: string
  cd_constraints :: "column_constraint list"

datatype table_constraint =
    TablePrimaryKey
  | NamedCheck string
  | NamedForeignKey string
  | NamedUnique string

datatype ddl =
    CreateTable string "column_def list" "table_constraint list"
  | CreateIndex string string
  | EnableRowSecurity string
  | ForceRowSecurity string
  | CreatePolicy string string string string

definition col :: "string \<Rightarrow> string \<Rightarrow> column_constraint list \<Rightarrow> column_def" where
  "col name ty cs =
     \<lparr>cd_name = name, cd_type = ty, cd_not_null = True, cd_identity = '''', cd_constraints = cs\<rparr>"

definition col_null :: "string \<Rightarrow> string \<Rightarrow> column_def" where
  "col_null name ty =
     \<lparr>cd_name = name, cd_type = ty, cd_not_null = False, cd_identity = '''', cd_constraints = []\<rparr>"

definition col_identity :: "string \<Rightarrow> column_def" where
  "col_identity name =
     \<lparr>cd_name = name, cd_type = ''bigint'', cd_not_null = True, cd_identity = ''a'',
      cd_constraints = [PrimaryKey]\<rparr>"

definition create_tenants :: ddl where
  "create_tenants = CreateTable ''tenants'' [
     col ''id'' ''uuid'' [PrimaryKey],
     col ''slug'' ''text'' [Unique],
     col ''display_name'' ''text'' [],
     col ''enabled'' ''boolean'' [],
     col ''created_at'' ''timestamp with time zone'' [],
     col ''updated_at'' ''timestamp with time zone'' []]
    [NamedCheck ''tenants_slug_not_blank'', NamedCheck ''tenants_display_name_not_blank'']"

definition create_agents :: ddl where
  "create_agents = CreateTable ''agents'' [
     col ''tenant_id'' ''uuid'' [References],
     col ''agent_id'' ''text'' [],
     col_null ''display_name'' ''text'',
     col ''enabled'' ''boolean'' [],
     col ''enrolled_at'' ''timestamp with time zone'' [],
     col ''updated_at'' ''timestamp with time zone'' [],
     col_null ''last_seen_at'' ''timestamp with time zone'']
    [TablePrimaryKey, NamedCheck ''agents_id_size'',
     NamedCheck ''agents_id_no_control_characters'', NamedCheck ''agents_display_name_not_blank'']"

definition create_signal_events :: ddl where
  "create_signal_events = CreateTable ''signal_events'' [
     col_identity ''cursor'',
     col ''tenant_id'' ''uuid'' [References],
     col ''event_id'' ''uuid'' [],
     col ''agent_id'' ''text'' [],
     col ''sequence'' ''numeric(20,0)'' [],
     col ''received_at_unix_nano'' ''numeric(20,0)'' [],
     col ''signal_kind'' ''text'' [],
     col ''payload'' ''jsonb'' [],
     col ''payload_bytes'' ''bigint'' [],
     col ''committed_at'' ''timestamp with time zone'' []]
    [NamedForeignKey ''signal_events_agent_fk'',
     NamedUnique ''signal_events_tenant_event_unique'',
     NamedUnique ''signal_events_tenant_agent_sequence_unique'',
     NamedCheck ''signal_events_cursor_positive'',
     NamedCheck ''signal_events_sequence_non_negative'',
     NamedCheck ''signal_events_sequence_u64'',
     NamedCheck ''signal_events_received_at_non_negative'',
     NamedCheck ''signal_events_received_at_u64'',
     NamedCheck ''signal_events_kind'',
     NamedCheck ''signal_events_payload_object'',
     NamedCheck ''signal_events_payload_bytes_positive'',
     NamedCheck ''signal_events_payload_bytes_bounded'']"

definition create_signal_projection :: ddl where
  "create_signal_projection = CreateTable ''signal_projection'' [
     col ''tenant_id'' ''uuid'' [PrimaryKey, References],
     col ''last_cursor'' ''bigint'' [],
     col ''projection'' ''jsonb'' [],
     col ''updated_at'' ''timestamp with time zone'' []]
    [NamedCheck ''signal_projection_last_cursor_non_negative'',
     NamedCheck ''signal_projection_object'']"

definition create_audit_events :: ddl where
  "create_audit_events = CreateTable ''audit_events'' [
     col_identity ''id'',
     col ''tenant_id'' ''uuid'' [References],
     col ''actor_type'' ''text'' [],
     col ''actor_id'' ''text'' [],
     col ''action'' ''text'' [],
     col ''target_type'' ''text'' [],
     col ''target_id'' ''text'' [],
     col ''details'' ''jsonb'' [],
     col ''occurred_at'' ''timestamp with time zone'' []]
    [NamedCheck ''audit_events_actor_type_not_blank'',
     NamedCheck ''audit_events_actor_id_not_blank'',
     NamedCheck ''audit_events_action_not_blank'',
     NamedCheck ''audit_events_target_type_not_blank'',
     NamedCheck ''audit_events_target_id_not_blank'',
     NamedCheck ''audit_events_details_object'']"

definition create_stream_tickets :: ddl where
  "create_stream_tickets = CreateTable ''stream_tickets'' [
     col ''ticket_id'' ''uuid'' [PrimaryKey],
     col ''tenant_id'' ''uuid'' [References],
     col ''subject'' ''text'' [],
     col ''created_at'' ''timestamp with time zone'' [],
     col ''authorized_until'' ''timestamp with time zone'' [],
     col ''expires_at'' ''timestamp with time zone'' [],
     col_null ''consumed_at'' ''timestamp with time zone'']
    [NamedCheck ''stream_tickets_subject_not_blank'',
     NamedCheck ''stream_tickets_subject_size'',
     NamedCheck ''stream_tickets_authorization_after_creation'',
     NamedCheck ''stream_tickets_expiry_after_creation'',
     NamedCheck ''stream_tickets_expiry_within_authorization'',
     NamedCheck ''stream_tickets_consumed_before_expiry'']"

definition secure_relation :: "string \<Rightarrow> string \<Rightarrow> ddl list" where
  "secure_relation relation c =
     [EnableRowSecurity relation, ForceRowSecurity relation,
      CreatePolicy (relation @ ''_tenant_isolation'') relation
        (tenant_expression c) (tenant_expression c)]"

definition migration_0001 :: "ddl list" where
  "migration_0001 =
     [create_tenants, create_agents, create_signal_events,
      CreateIndex ''signal_events_tenant_cursor_idx'' ''signal_events'',
      CreateIndex ''signal_events_tenant_committed_at_idx'' ''signal_events'',
      create_signal_projection, create_audit_events,
      CreateIndex ''audit_events_tenant_occurred_at_idx'' ''audit_events'',
      create_stream_tickets,
      CreateIndex ''stream_tickets_cleanup_idx'' ''stream_tickets''] @
     secure_relation ''tenants'' ''id'' @ secure_relation ''agents'' ''tenant_id'' @
     secure_relation ''signal_events'' ''tenant_id'' @
     secure_relation ''signal_projection'' ''tenant_id'' @
     secure_relation ''audit_events'' ''tenant_id'' @
     secure_relation ''stream_tickets'' ''tenant_id''"

text \<open>
  What a statement adds to the catalog. PostgreSQL names the constraints written without a
  name after the table and the column. \<open>deparse\<close> is how the server prints a stored policy
  expression; a new relation takes the next identifier.
\<close>

definition oid_of :: "pg_catalog \<Rightarrow> string \<Rightarrow> nat" where
  "oid_of cat name = (case find (\<lambda>c. cls_relname c = name) (cat_class cat) of
     Some c \<Rightarrow> cls_oid c | None \<Rightarrow> 0)"

definition next_oid :: "pg_catalog \<Rightarrow> nat" where
  "next_oid cat = Suc (length (cat_class cat))"

definition column_constraint_name :: "string \<Rightarrow> string \<Rightarrow> column_constraint \<Rightarrow> string \<times> string" where
  "column_constraint_name table c k = (case k of
     PrimaryKey \<Rightarrow> (table @ ''_pkey'', ''p'')
   | Unique \<Rightarrow> (table @ ''_'' @ c @ ''_key'', ''u'')
   | References \<Rightarrow> (table @ ''_'' @ c @ ''_fkey'', ''f''))"

definition table_constraint_name :: "string \<Rightarrow> table_constraint \<Rightarrow> string \<times> string" where
  "table_constraint_name table k = (case k of
     TablePrimaryKey \<Rightarrow> (table @ ''_pkey'', ''p'')
   | NamedCheck n \<Rightarrow> (n, ''c'')
   | NamedForeignKey n \<Rightarrow> (n, ''f'')
   | NamedUnique n \<Rightarrow> (n, ''u''))"

definition new_class :: "nat \<Rightarrow> string \<Rightarrow> string \<Rightarrow> nat \<Rightarrow> nat \<Rightarrow> pg_class_row" where
  "new_class oid name kind namespace owner =
     \<lparr>cls_oid = oid, cls_relname = name, cls_relnamespace = namespace, cls_relkind = kind,
      cls_relowner = owner, cls_relrowsecurity = False, cls_relforcerowsecurity = False\<rparr>"

definition new_attributes :: "nat \<Rightarrow> column_def list \<Rightarrow> pg_attribute_row list" where
  "new_attributes oid cols = map (\<lambda>(i, c).
     \<lparr>att_attrelid = oid, att_attname = cd_name c, att_attnum = int i + 1, att_attisdropped = False,
      att_format_type = cd_type c, att_attnotnull = cd_not_null c,
      att_attidentity = cd_identity c\<rparr>) (enumerate 0 cols)"

definition new_constraints ::
  "nat \<Rightarrow> string \<Rightarrow> column_def list \<Rightarrow> table_constraint list \<Rightarrow> pg_constraint_row list"
where
  "new_constraints oid table cols ks = map (\<lambda>(n, ty).
     \<lparr>con_conrelid = oid, con_conname = n, con_contype = ty, con_convalidated = True\<rparr>)
     (concat (map (\<lambda>c. map (column_constraint_name table (cd_name c)) (cd_constraints c)) cols) @
      map (table_constraint_name table) ks)"

fun apply_ddl :: "(string \<Rightarrow> string) \<Rightarrow> nat \<Rightarrow> nat \<Rightarrow> ddl \<Rightarrow> pg_catalog \<Rightarrow> pg_catalog" where
  "apply_ddl deparse namespace owner (CreateTable name cols ks) cat =
     (let oid = next_oid cat in
      cat\<lparr>cat_class := cat_class cat @ [new_class oid name ''r'' namespace owner],
          cat_attribute := cat_attribute cat @ new_attributes oid cols,
          cat_constraint := cat_constraint cat @ new_constraints oid name cols ks\<rparr>)"
| "apply_ddl deparse namespace owner (CreateIndex name table) cat =
     (let oid = next_oid cat in
      cat\<lparr>cat_class := cat_class cat @ [new_class oid name ''i'' namespace owner],
          cat_index := cat_index cat @
            [\<lparr>ind_indrelid = oid_of cat table, ind_indexrelid = oid, ind_indisvalid = True,
              ind_indisready = True\<rparr>]\<rparr>)"
| "apply_ddl deparse namespace owner (EnableRowSecurity table) cat =
     cat\<lparr>cat_class := map (\<lambda>c. if cls_relname c = table then c\<lparr>cls_relrowsecurity := True\<rparr> else c)
       (cat_class cat)\<rparr>"
| "apply_ddl deparse namespace owner (ForceRowSecurity table) cat =
     cat\<lparr>cat_class := map (\<lambda>c. if cls_relname c = table then c\<lparr>cls_relforcerowsecurity := True\<rparr> else c)
       (cat_class cat)\<rparr>"
| "apply_ddl deparse namespace owner (CreatePolicy name table using_expr check_expr) cat =
     cat\<lparr>cat_policy := cat_policy cat @
       [\<lparr>pol_polrelid = oid_of cat table, pol_polname = name, pol_polpermissive = True,
         pol_polcmd = ''*'', pol_public_only = True, pol_using = Some (deparse using_expr),
         pol_check = Some (deparse check_expr)\<rparr>]\<rparr>"

definition run_ddl :: "(string \<Rightarrow> string) \<Rightarrow> nat \<Rightarrow> nat \<Rightarrow> ddl list \<Rightarrow> pg_catalog \<Rightarrow> pg_catalog" where
  "run_ddl deparse namespace owner stmts cat = fold (apply_ddl deparse namespace owner) stmts cat"

section \<open>Lemmas\<close>

lemma hash_map_mem: "hash_map rows k = Some v \<Longrightarrow> (k, v) \<in> set rows"
  unfolding hash_map_def using map_of_SomeD by fastforce

lemma hash_map_unique:
  assumes "(k, v) \<in> set rows" and "\<And>v'. (k, v') \<in> set rows \<Longrightarrow> v' = v"
  shows "hash_map rows k = Some v"
proof (cases "hash_map rows k")
  case None
  then have "k \<notin> fst ` set rows"
    unfolding hash_map_def by (simp add: map_of_eq_None_iff)
  then show ?thesis using assms(1) by force
next
  case (Some w)
  then show ?thesis using assms(2) hash_map_mem by metis
qed

lemma hash_map_None: "hash_map rows k = None \<longleftrightarrow> k \<notin> fst ` set rows"
  unfolding hash_map_def by (simp add: map_of_eq_None_iff)

lemma tenant_required: "r \<in> set TENANT_RELATIONS \<Longrightarrow> r \<in> set REQUIRED_RELATIONS"
  by (auto simp: TENANT_RELATIONS_def REQUIRED_RELATIONS_def)

text \<open>What a catalog without problems is: the conjunction of the separate checks.\<close>

lemma structure_clean:
  assumes "runtime_structure_problems fault cat = Inr []"
  defines "relations \<equiv> hash_map (RUNTIME_RELATIONS_SQL cat required_relation_names)"
    and "policy_rows \<equiv> RUNTIME_POLICIES_SQL cat required_relation_names"
  shows "missing_relation_problems relations = [] \<and> row_security_problems relations = [] \<and>
    unexpected_policy_problems (remdups (map fst policy_rows)) = [] \<and>
    tenant_policy_problems (hash_map policy_rows) = []"
proof (cases "relations ''_sqlx_migrations''")
  case None
  then have "''missing public._sqlx_migrations relation'' \<in> set (missing_relation_problems relations)"
    by (auto simp: missing_relation_problems_def REQUIRED_RELATIONS_def)
  moreover have "missing_relation_problems relations = []"
    using assms(1) None
    by (auto simp: runtime_structure_problems_def relations_def result_simps Let_def
        fetch_def split: if_splits)
  ultimately show ?thesis by simp
next
  case (Some x)
  then show ?thesis
    using assms(1)
    by (auto simp: runtime_structure_problems_def relations_def policy_rows_def result_simps Let_def
        fetch_def split: if_splits)
qed

lemma schema_clean:
  assumes "verify_runtime_schema fault embedded cat = Inr ()"
  shows "runtime_structure_problems fault cat = Inr [] \<and>
    validate_applied_migrations embedded (APPLIED_MIGRATIONS_SQL cat) = []"
  using assms
  by (auto simp: verify_runtime_schema_def result_simps schema_ready_def runtime_migration_problems_def
      fetch_def split: if_splits)

lemma relation_rows:
  "(r, b, f) \<in> set (RUNTIME_RELATIONS_SQL cat names) \<longleftrightarrow>
     r \<in> set names \<and> (\<exists>c \<in> set (cat_class cat). in_public cat c \<and> cls_relkind c \<in> {''r'', ''p''} \<and>
       cls_relname c = r \<and> cls_relrowsecurity c = b \<and> cls_relforcerowsecurity c = f)"
  by (auto simp: RUNTIME_RELATIONS_SQL_def split: if_splits)

lemma policy_rows:
  "((r, n), info) \<in> set (RUNTIME_POLICIES_SQL cat names) \<longleftrightarrow>
     r \<in> set names \<and> (\<exists>p \<in> set (cat_policy cat). \<exists>c \<in> set (cat_class cat).
       cls_oid c = pol_polrelid p \<and> in_public cat c \<and> cls_relname c = r \<and> pol_polname p = n \<and>
       info = (pol_polpermissive p, pol_polcmd p, pol_public_only p, pol_using p, pol_check p))"
  by (fastforce simp: RUNTIME_POLICIES_SQL_def split: if_splits)

text \<open>The uniqueness PostgreSQL maintains: one relation per name in a schema, one object per
  identifier, one policy per relation and name.\<close>

definition catalog_unique :: "pg_catalog \<Rightarrow> bool" where
  "catalog_unique cat \<longleftrightarrow>
     (\<forall>c \<in> set (cat_class cat). \<forall>d \<in> set (cat_class cat).
        in_public cat c \<and> in_public cat d \<and> cls_relname c = cls_relname d \<or> cls_oid c = cls_oid d
        \<longrightarrow> c = d) \<and>
     (\<forall>p \<in> set (cat_policy cat). \<forall>q \<in> set (cat_policy cat).
        pol_polrelid p = pol_polrelid q \<and> pol_polname p = pol_polname q \<longrightarrow> p = q)"

definition policy_of :: "pg_policy_row \<Rightarrow> policy_info" where
  "policy_of p = (pol_polpermissive p, pol_polcmd p, pol_public_only p, pol_using p, pol_check p)"

lemma required_names [simp]: "set required_relation_names = set REQUIRED_RELATIONS"
  by (simp add: required_relation_names_def)

lemma clean_row_security:
  assumes clean: "runtime_structure_problems fault cat = Inr []" and uniq: "catalog_unique cat"
    and c: "c \<in> set (cat_class cat)" "in_public cat c" "cls_relkind c \<in> {''r'', ''p''}"
      "cls_relname c \<in> set TENANT_RELATIONS"
  shows "cls_relrowsecurity c \<and> cls_relforcerowsecurity c"
proof -
  let ?rows = "RUNTIME_RELATIONS_SQL cat required_relation_names"
  have "hash_map ?rows (cls_relname c) = Some (cls_relrowsecurity c, cls_relforcerowsecurity c)"
  proof (rule hash_map_unique)
    show "(cls_relname c, cls_relrowsecurity c, cls_relforcerowsecurity c) \<in> set ?rows"
      using c tenant_required by (auto simp: relation_rows)
    fix v
    assume "(cls_relname c, v) \<in> set ?rows"
    then obtain d where "d \<in> set (cat_class cat)" "in_public cat d" "cls_relname d = cls_relname c"
      "v = (cls_relrowsecurity d, cls_relforcerowsecurity d)"
      by (cases v) (auto simp: relation_rows)
    then show "v = (cls_relrowsecurity c, cls_relforcerowsecurity c)"
      using uniq c by (auto simp: catalog_unique_def)
  qed
  moreover have "row_security_problems (hash_map ?rows) = []"
    using structure_clean [OF clean] by blast
  ultimately show ?thesis
    using c(4) by (fastforce simp: row_security_problems_def split: if_splits)
qed

lemma clean_policy_names:
  assumes clean: "runtime_structure_problems fault cat = Inr []"
    and c: "c \<in> set (cat_class cat)" "in_public cat c" "cls_relname c \<in> set TENANT_RELATIONS"
    and p: "p \<in> set (cat_policy cat)" "pol_polrelid p = cls_oid c"
  shows "pol_polname p = expected_tenant_policy_name (cls_relname c)"
proof -
  let ?rows = "RUNTIME_POLICIES_SQL cat required_relation_names"
  have "((cls_relname c, pol_polname p), policy_of p) \<in> set ?rows"
    unfolding policy_rows policy_of_def using c p tenant_required by force
  then have "(cls_relname c, pol_polname p) \<in> set (remdups (map fst ?rows))"
    by force
  moreover have "unexpected_policy_problems (remdups (map fst ?rows)) = []"
    using structure_clean [OF clean] by blast
  ultimately have "is_allowed_runtime_policy_name (cls_relname c) (pol_polname p)"
    by (fastforce simp: unexpected_policy_problems_def split: if_splits)
  then show ?thesis
    using c(3) by (simp add: is_allowed_runtime_policy_name_def)
qed

lemma comprehension_Nil:
  "concat (map (\<lambda>x. if P x then [f x] else []) xs) = [] \<longleftrightarrow> (\<forall>x \<in> set xs. \<not> P x)"
  by (induction xs) auto

lemma tenant_policy_clean:
  "tenant_policy_problems policies = [] \<longleftrightarrow>
     (\<forall>r \<in> set TENANT_RELATIONS. \<exists>info. policies (r, expected_tenant_policy_name r) = Some info \<and>
        policy_valid r info)"
  unfolding tenant_policy_problems_def comprehension_Nil by (fastforce split: option.splits)

lemma clean_policy:
  assumes clean: "runtime_structure_problems fault cat = Inr []" and uniq: "catalog_unique cat"
    and c: "c \<in> set (cat_class cat)" "in_public cat c" "cls_relname c \<in> set TENANT_RELATIONS"
  shows "\<exists>p \<in> set (cat_policy cat). pol_polrelid p = cls_oid c \<and>
    pol_polname p = expected_tenant_policy_name (cls_relname c) \<and>
    policy_valid (cls_relname c) (policy_of p)"
proof -
  let ?rows = "RUNTIME_POLICIES_SQL cat required_relation_names"
  let ?key = "(cls_relname c, expected_tenant_policy_name (cls_relname c))"
  have "tenant_policy_problems (hash_map ?rows) = []"
    using structure_clean [OF clean] by blast
  then obtain info where info: "hash_map ?rows ?key = Some info" "policy_valid (cls_relname c) info"
    using c(3) unfolding tenant_policy_clean by blast
  have "(?key, info) \<in> set ?rows"
    using info(1) by (rule hash_map_mem)
  then obtain p d where pd: "p \<in> set (cat_policy cat)" "d \<in> set (cat_class cat)"
    "cls_oid d = pol_polrelid p" "in_public cat d" "cls_relname d = cls_relname c"
    "pol_polname p = expected_tenant_policy_name (cls_relname c)" "info = policy_of p"
    by (auto simp: policy_rows policy_of_def)
  then have "d = c"
    using uniq c by (auto simp: catalog_unique_def)
  then show ?thesis
    using pd info by auto
qed

lemma clean_relations:
  assumes clean: "runtime_structure_problems fault cat = Inr []" and r: "r \<in> set REQUIRED_RELATIONS"
  shows "\<exists>c \<in> set (cat_class cat). in_public cat c \<and> cls_relkind c \<in> {''r'', ''p''} \<and>
    cls_relname c = r"
proof -
  let ?rows = "RUNTIME_RELATIONS_SQL cat required_relation_names"
  have "missing_relation_problems (hash_map ?rows) = []"
    using structure_clean [OF clean] by blast
  then obtain b f where "hash_map ?rows r = Some (b, f)"
    using r unfolding missing_relation_problems_def comprehension_Nil by force
  then show ?thesis
    using hash_map_mem relation_rows by metis
qed

lemma clean_migrations:
  assumes "validate_applied_migrations embedded applied = []" and "distinct (map fst embedded)"
  shows "set applied = (\<lambda>(v, k). (v, True, k)) ` set embedded"
proof -
  have vs: "set (map fst embedded) = set (map fst applied)" "length applied = length embedded"
    and no: "\<And>m. m \<in> set embedded \<Longrightarrow> migration_problem applied m = []"
    using assms(1) by (auto simp: validate_applied_migrations_def split: if_splits)
  have dist: "distinct (map fst applied)"
    using vs assms(2) by (metis card_distinct distinct_card length_map)
  have entry: "(v, True, k) \<in> set applied" if m: "(v, k) \<in> set embedded" for v k
  proof -
    have "v \<in> set (map fst applied)"
      using m vs(1) by force
    then obtain s c where f: "find (\<lambda>(w, _, _). w = v) applied = Some (v, s, c)"
      by (cases "find (\<lambda>(w, _, _). w = v) applied")
        (auto simp: find_None_iff find_Some_iff)
    then have "(v, s, c) \<in> set applied"
      by (metis find_Some_iff nth_mem)
    moreover have "s \<and> c = k"
      using no [OF m] f by (auto simp: migration_problem_def split: bool.splits if_splits)
    ultimately show ?thesis by simp
  qed
  show ?thesis
  proof
    show "(\<lambda>(v, k). (v, True, k)) ` set embedded \<subseteq> set applied"
      using entry by auto
    show "set applied \<subseteq> (\<lambda>(v, k). (v, True, k)) ` set embedded"
    proof
      fix a
      assume a: "a \<in> set applied"
      then have "fst a \<in> fst ` set embedded"
        using vs(1) by auto
      then obtain k where k: "(fst a, k) \<in> set embedded"
        by force
      then have "a = (fst a, True, k)"
        using a entry dist eq_key_imp_eq_value by (metis prod.collapse)
      then show "a \<in> (\<lambda>(v, k). (v, True, k)) ` set embedded"
        using k by (metis (no_types, lifting) case_prod_conv image_eqI)
    qed
  qed
qed

lemma role_clean:
  assumes "verify_runtime_role fault cat = Inr ()"
  shows "\<exists>r \<in> set (cat_roles cat). rol_rolname r = cat_current_user cat \<and> \<not> privileged_role r \<and>
    cat_session_user cat = cat_current_user cat \<and> \<not> cat_can_create_public cat \<and>
    (\<forall>c \<in> set (cat_class cat). in_public cat c \<and> cls_relkind c \<in> {''r'', ''p''} \<and>
       cls_relname c \<in> set REQUIRED_RELATIONS \<longrightarrow> \<not> cat_has_role cat (cls_relowner c)) \<and>
    (\<forall>p \<in> set (cat_roles cat). privileged_role p \<longrightarrow> \<not> cat_has_role cat (rol_oid p))"
proof -
  obtain caps rest where rows: "VERIFY_RUNTIME_ROLE_SQL cat required_relation_names = caps # rest"
    and ok: "validate_runtime_role caps = Inr ()"
    using assms
    by (auto simp: verify_runtime_role_def result_simps fetch_def fetch_one_def
        split: if_splits list.splits)
  have "caps \<in> set (VERIFY_RUNTIME_ROLE_SQL cat required_relation_names)"
    using rows by simp
  then show ?thesis
    using ok
    by (fastforce simp: VERIFY_RUNTIME_ROLE_SQL_def validate_runtime_role_def Let_def list_ex_iff
        privileged_role_def split: if_splits)
qed

section \<open>The migrated catalog\<close>

text \<open>
  A new database: the \<open>public\<close> schema has no relation yet, and the runtime role may read the
  migration table. Roles, users and recorded migrations are arbitrary.
\<close>

definition fresh_catalog ::
  "pg_role_row list \<Rightarrow> string \<Rightarrow> string \<Rightarrow> (nat \<Rightarrow> bool) \<Rightarrow> (int \<times> bool \<times> bytes) list \<Rightarrow> pg_catalog"
where
  "fresh_catalog roles cu su hr ms =
     \<lparr>cat_namespaces = [(1, ''public'')], cat_class = [], cat_attribute = [], cat_constraint = [],
      cat_index = [], cat_policy = [], cat_roles = roles, cat_current_user = cu,
      cat_session_user = su, cat_has_role = hr, cat_can_create_public = False,
      cat_can_read_migrations = True, cat_migrations = ms\<rparr>"

definition sqlx_documented :: ddl where
  "sqlx_documented = CreateTable ''_sqlx_migrations'' [
     col ''version'' ''bigint'' [PrimaryKey],
     col ''description'' ''text'' [],
     col ''installed_on'' ''timestamp with time zone'' [],
     col ''success'' ''boolean'' [],
     col ''checksum'' ''bytea'' [],
     col ''execution_time'' ''bigint'' []] []"

definition migrated ::
  "(string \<Rightarrow> string) \<Rightarrow> pg_role_row list \<Rightarrow> string \<Rightarrow> string \<Rightarrow> (nat \<Rightarrow> bool) \<Rightarrow>
   (int \<times> bool \<times> bytes) list \<Rightarrow> pg_catalog"
where
  "migrated deparse roles cu su hr ms =
     run_ddl deparse 1 1 (sqlx_documented # migration_0001) (fresh_catalog roles cu su hr ms)"

lemma migrated_relations:
  "RUNTIME_RELATIONS_SQL (migrated d roles cu su hr ms) required_relation_names =
     (''_sqlx_migrations'', False, False) # map (\<lambda>r. (r, True, True)) TENANT_RELATIONS"
  by code_simp

lemma migrated_columns:
  "concat (map (column_problem (hash_map
     (RUNTIME_COLUMNS_SQL (migrated d roles cu su hr ms) required_relation_names)))
     REQUIRED_COLUMNS) = []"
  by code_simp

lemma migrated_constraints:
  "concat (map (constraint_problem (hash_map
     (RUNTIME_CONSTRAINTS_SQL (migrated d roles cu su hr ms) required_relation_names)))
     REQUIRED_CONSTRAINTS) = []"
  by code_simp

lemma migrated_indexes:
  "concat (map (index_problem (hash_map
     (RUNTIME_INDEXES_SQL (migrated d roles cu su hr ms) required_relation_names)))
     REQUIRED_INDEXES) = []"
  by code_simp

lemma migrated_policies:
  "RUNTIME_POLICIES_SQL (migrated d roles cu su hr ms) required_relation_names =
     map (\<lambda>r. let e = d (tenant_expression (tenant_column r)) in
       ((r, expected_tenant_policy_name r), (True, ''*'', True, Some e, Some e))) TENANT_RELATIONS"
  by code_simp

lemma migrated_read: "cat_can_read_migrations (migrated d roles cu su hr ms) = True"
  by code_simp

lemma expected_names_allowed:
  "unexpected_policy_problems (remdups (map (\<lambda>r. (r, expected_tenant_policy_name r)) TENANT_RELATIONS)) = []"
  by code_simp

lemma relations_of_migrated:
  "missing_relation_problems (hash_map ((''_sqlx_migrations'', False, False) #
     map (\<lambda>r. (r, True, True)) TENANT_RELATIONS)) = [] \<and>
   row_security_problems (hash_map ((''_sqlx_migrations'', False, False) #
     map (\<lambda>r. (r, True, True)) TENANT_RELATIONS)) = [] \<and>
   hash_map ((''_sqlx_migrations'', False, False) # map (\<lambda>r. (r, True, True)) TENANT_RELATIONS)
     ''_sqlx_migrations'' \<noteq> None"
  by code_simp

lemma migrated_policy_valid:
  assumes "\<forall>c \<in> {''id'', ''tenant_id''}.
    normalize_policy_expression (d (tenant_expression c)) =
    normalize_policy_expression (tenant_expression c)"
  shows "tenant_policy_problems (hash_map
    (RUNTIME_POLICIES_SQL (migrated d roles cu su hr ms) required_relation_names)) = []"
  unfolding tenant_policy_clean
proof
  fix r
  assume r: "r \<in> set TENANT_RELATIONS"
  let ?e = "d (tenant_expression (tenant_column r))"
  let ?rows = "RUNTIME_POLICIES_SQL (migrated d roles cu su hr ms) required_relation_names"
  have "hash_map ?rows (r, expected_tenant_policy_name r) = Some (True, ''*'', True, Some ?e, Some ?e)"
    by (rule hash_map_unique) (use r in \<open>auto simp: migrated_policies Let_def\<close>)
  moreover have "policy_valid r (True, ''*'', True, Some ?e, Some ?e)"
    using assms by (simp add: policy_valid_def Let_def tenant_column_def)
  ultimately show "\<exists>info. hash_map ?rows (r, expected_tenant_policy_name r) = Some info \<and>
      policy_valid r info"
    by blast
qed

lemma migrated_structure:
  assumes "\<forall>c \<in> {''id'', ''tenant_id''}.
    normalize_policy_expression (d (tenant_expression c)) =
    normalize_policy_expression (tenant_expression c)"
  shows "runtime_structure_problems (\<lambda>_. False) (migrated d roles cu su hr ms) = Inr []"
proof -
  have keys: "map fst (RUNTIME_POLICIES_SQL (migrated d roles cu su hr ms) required_relation_names) =
      map (\<lambda>r. (r, expected_tenant_policy_name r)) TENANT_RELATIONS"
    unfolding migrated_policies by (simp add: Let_def)
  show ?thesis
    unfolding runtime_structure_problems_def fetch_def Let_def and_then.simps if_False
    using relations_of_migrated
    by (auto simp: migrated_relations migrated_columns migrated_constraints migrated_indexes
        migrated_read keys expected_names_allowed migrated_policy_valid [OF assms]
        simp del: concat_eq_Nil_conv map_map)
qed

lemma policy_valid_fields:
  assumes "policy_valid relation (policy_of p)"
  shows "pol_polpermissive p \<and> pol_polcmd p = ''*'' \<and> pol_public_only p \<and>
    (\<forall>e \<in> {pol_using p, pol_check p}. map_option normalize_policy_expression e =
       Some (normalize_policy_expression (tenant_expression (tenant_column relation))))"
  using assms by (simp add: policy_valid_def policy_of_def Let_def)

section \<open>Properties\<close>

text \<open>C11: a database that passes the start-up checks confines every query of the runtime role to
  one tenant: every tenant table exists with row security enabled and forced, its only
  policy is the exact tenant-isolation policy for all commands and all roles, the recorded
  migrations are exactly the successful embedded ones, and the role has no attribute,
  membership or privilege that could bypass or change this.\<close>

theorem verify_ready_isolates:
  assumes ready: "verify_ready fault embedded cat = Inr ()"
    and uniq: "catalog_unique cat" and dist: "distinct (map fst embedded)"
  shows "(\<forall>r \<in> set REQUIRED_RELATIONS. \<exists>c \<in> set (cat_class cat).
       in_public cat c \<and> cls_relkind c \<in> {''r'', ''p''} \<and> cls_relname c = r) \<and>
    (\<forall>c \<in> set (cat_class cat).
       in_public cat c \<and> cls_relkind c \<in> {''r'', ''p''} \<and> cls_relname c \<in> set TENANT_RELATIONS \<longrightarrow>
       cls_relrowsecurity c \<and> cls_relforcerowsecurity c \<and>
       (\<exists>p \<in> set (cat_policy cat). pol_polrelid p = cls_oid c \<and>
          pol_polpermissive p \<and> pol_polcmd p = ''*'' \<and> pol_public_only p \<and>
          (\<forall>e \<in> {pol_using p, pol_check p}. map_option normalize_policy_expression e =
             Some (normalize_policy_expression (tenant_expression (tenant_column (cls_relname c))))) \<and>
          (\<forall>q \<in> set (cat_policy cat). pol_polrelid q = cls_oid c \<longrightarrow> q = p))) \<and>
    set (cat_migrations cat) = (\<lambda>(v, k). (v, True, k)) ` set embedded \<and>
    (\<exists>r \<in> set (cat_roles cat). rol_rolname r = cat_current_user cat \<and> \<not> privileged_role r \<and>
       cat_session_user cat = cat_current_user cat \<and> \<not> cat_can_create_public cat \<and>
       (\<forall>c \<in> set (cat_class cat). in_public cat c \<and> cls_relkind c \<in> {''r'', ''p''} \<and>
          cls_relname c \<in> set REQUIRED_RELATIONS \<longrightarrow> \<not> cat_has_role cat (cls_relowner c)) \<and>
       (\<forall>p \<in> set (cat_roles cat). privileged_role p \<longrightarrow> \<not> cat_has_role cat (rol_oid p)))"
proof (intro conjI)
  have role: "verify_runtime_role fault cat = Inr ()"
    and schema: "verify_runtime_schema fault embedded cat = Inr ()"
    using ready by (auto simp: verify_ready_def result_simps)
  note clean = schema_clean [OF schema, THEN conjunct1]
  show "\<forall>r \<in> set REQUIRED_RELATIONS. \<exists>c \<in> set (cat_class cat).
      in_public cat c \<and> cls_relkind c \<in> {''r'', ''p''} \<and> cls_relname c = r"
    using clean_relations [OF clean] by blast
  show "\<forall>c \<in> set (cat_class cat).
      in_public cat c \<and> cls_relkind c \<in> {''r'', ''p''} \<and> cls_relname c \<in> set TENANT_RELATIONS \<longrightarrow>
      cls_relrowsecurity c \<and> cls_relforcerowsecurity c \<and>
      (\<exists>p \<in> set (cat_policy cat). pol_polrelid p = cls_oid c \<and>
         pol_polpermissive p \<and> pol_polcmd p = ''*'' \<and> pol_public_only p \<and>
          (\<forall>e \<in> {pol_using p, pol_check p}. map_option normalize_policy_expression e =
             Some (normalize_policy_expression (tenant_expression (tenant_column (cls_relname c))))) \<and>
         (\<forall>q \<in> set (cat_policy cat). pol_polrelid q = cls_oid c \<longrightarrow> q = p))"
  proof (intro ballI impI)
    fix c
    assume c: "c \<in> set (cat_class cat)" and
      "in_public cat c \<and> cls_relkind c \<in> {''r'', ''p''} \<and> cls_relname c \<in> set TENANT_RELATIONS"
    then have pub: "in_public cat c" and kind: "cls_relkind c \<in> {''r'', ''p''}"
      and ten: "cls_relname c \<in> set TENANT_RELATIONS"
      by blast+
    obtain p where p: "p \<in> set (cat_policy cat)" "pol_polrelid p = cls_oid c"
      "pol_polname p = expected_tenant_policy_name (cls_relname c)"
      "policy_valid (cls_relname c) (policy_of p)"
      using clean_policy [OF clean uniq c pub ten] by blast
    have "q = p" if "q \<in> set (cat_policy cat)" "pol_polrelid q = cls_oid c" for q
      using clean_policy_names [OF clean c pub ten that] p that uniq
      by (auto simp: catalog_unique_def)
    then show "cls_relrowsecurity c \<and> cls_relforcerowsecurity c \<and>
      (\<exists>p \<in> set (cat_policy cat). pol_polrelid p = cls_oid c \<and>
         pol_polpermissive p \<and> pol_polcmd p = ''*'' \<and> pol_public_only p \<and>
          (\<forall>e \<in> {pol_using p, pol_check p}. map_option normalize_policy_expression e =
             Some (normalize_policy_expression (tenant_expression (tenant_column (cls_relname c))))) \<and>
         (\<forall>q \<in> set (cat_policy cat). pol_polrelid q = cls_oid c \<longrightarrow> q = p))"
      using clean_row_security [OF clean uniq c pub kind ten] p policy_valid_fields [OF p(4)] by blast
  qed
  show "set (cat_migrations cat) = (\<lambda>(v, k). (v, True, k)) ` set embedded"
    using clean_migrations [OF schema_clean [OF schema, THEN conjunct2] dist]
    by (simp add: APPLIED_MIGRATIONS_SQL_def)
  show "\<exists>r \<in> set (cat_roles cat). rol_rolname r = cat_current_user cat \<and> \<not> privileged_role r \<and>
       cat_session_user cat = cat_current_user cat \<and> \<not> cat_can_create_public cat \<and>
       (\<forall>c \<in> set (cat_class cat). in_public cat c \<and> cls_relkind c \<in> {''r'', ''p''} \<and>
          cls_relname c \<in> set REQUIRED_RELATIONS \<longrightarrow> \<not> cat_has_role cat (cls_relowner c)) \<and>
       (\<forall>p \<in> set (cat_roles cat). privileged_role p \<longrightarrow> \<not> cat_has_role cat (rol_oid p))"
    by (rule role_clean [OF role])
qed

definition runtime_role :: pg_role_row where
  "runtime_role = \<lparr>rol_oid = 2, rol_rolname = ''skid'', rol_rolsuper = False,
     rol_rolbypassrls = False, rol_rolcreatedb = False, rol_rolcreaterole = False,
     rol_rolreplication = False\<rparr>"

definition example_catalog :: pg_catalog where
  "example_catalog =
     migrated (\<lambda>e. e) [runtime_role] ''skid'' ''skid'' (\<lambda>r. r = 2) [(1, True, [7])]"

lemma example_structure: "runtime_structure_problems (\<lambda>_. False) example_catalog = Inr []"
  unfolding example_catalog_def by (rule migrated_structure) simp

lemma example_ready: "verify_ready (\<lambda>_. False) [(1, [7])] example_catalog = Inr ()"
proof -
  have "verify_runtime_role (\<lambda>_. False) example_catalog = Inr ()"
    by code_simp
  moreover have "runtime_migration_problems (\<lambda>_. False) [(1, [7])] example_catalog = Inr []"
    by code_simp
  ultimately show ?thesis
    by (simp add: verify_ready_def verify_runtime_schema_def example_structure schema_ready_def)
qed

lemma example_unique: "catalog_unique example_catalog"
  by code_simp

theorem verify_ready_isolates_witness:
  "verify_ready (\<lambda>_. False) [(1, [7])] example_catalog = Inr () \<and>
   set (cat_migrations example_catalog) = {(1, True, [7])}"
  using verify_ready_isolates [OF example_ready example_unique] example_ready by simp



end
