(* ===== verification/Pg_Store.thy ===== *)
theory Pg_Store
  imports Pg_Schema
begin

text \<open>
  The PostgreSQL signal store (\<open>skid-monitor-server/src/store.rs\<close>, class \<open>PgSignalStore\<close>) on
  the tables of \<open>migrations/0001_cloud_signal_store.sql\<close>. A table is the list of its rows in
  insertion order; a transaction works on a copy of the tables that \<open>COMMIT\<close> installs.
  Identity sequences are not rolled back. Row-level security filters every statement by the
  tenant set in the transaction. \<open>pg_env\<close> gives, for one transaction, which statement
  fails, the server's clock at every statement, and the fate of \<open>COMMIT\<close>; \<open>ext\<close> holds the
  code of other packages: the JSON codec, \<open>jsonb\<close> storage, the text form of UUIDs, the
  collation and the control-character class of the server.
\<close>

section \<open>Code outside the repository\<close>

record 'v ext =
  x_to_writer :: "signal \<Rightarrow> bytes list \<times> string option"
  x_from_slice_signal :: "bytes \<Rightarrow> string + signal"
  x_from_slice_value :: "bytes \<Rightarrow> string + 'v"
  x_from_value_signal :: "'v \<Rightarrow> string + signal"
  x_projection_to_value :: "signal_projection \<Rightarrow> string + 'v"
  x_projection_from_value :: "'v \<Rightarrow> string + signal_projection"
  x_jsonb :: "'v \<Rightarrow> 'v option"
  x_is_object :: "'v \<Rightarrow> bool"
  x_uuid_show :: "uuid \<Rightarrow> string"
  x_uuid_parse :: "string \<Rightarrow> uuid option"
  x_cntrl :: "string \<Rightarrow> bool"

section \<open>Constants and scalar conversions\<close>

definition MAX_LOAD_LIMIT :: nat where "MAX_LOAD_LIMIT = 1000"
definition MAX_REPLAY_JSON_BYTES :: nat where "MAX_REPLAY_JSON_BYTES = 64 * 1024 * 1024"
definition MAX_STORED_SIGNAL_JSON_BYTES :: nat where
  "MAX_STORED_SIGNAL_JSON_BYTES = 16 * 1024 * 1024"
definition MAX_AGENTS_PER_TENANT :: nat where "MAX_AGENTS_PER_TENANT = 1000"
definition MAX_STREAM_TICKET_TTL :: nat where "MAX_STREAM_TICKET_TTL = secs (5 * 60)"
definition MAX_STREAM_TICKET_SUBJECT_BYTES :: nat where "MAX_STREAM_TICKET_SUBJECT_BYTES = 1024"
definition MAX_STREAM_TICKET_AUTHORIZATION_UNIX :: u64 where
  "MAX_STREAM_TICKET_AUTHORIZATION_UNIX = 253402300799"

definition tenant_scope :: "signal_scope \<Rightarrow> pg_store_error + tenant_id" where
  "tenant_scope scope = (case scope of Tenant t \<Rightarrow> Inr t | Solo \<Rightarrow> Inl SoloScope)"

definition signal_kind_name :: "signal_envelope \<Rightarrow> string" where
  "signal_kind_name e = (case envelope_kind e of
     MetricsKind \<Rightarrow> ''metrics'' | TracesKind \<Rightarrow> ''traces'' | LogsKind \<Rightarrow> ''logs'')"

definition bounded_load_limit :: "nat \<Rightarrow> nat" where
  "bounded_load_limit limit = min limit MAX_LOAD_LIMIT"

definition bounded_replay_json_bytes :: "nat \<Rightarrow> int" where
  "bounded_replay_json_bytes max_json_bytes = int (min max_json_bytes MAX_REPLAY_JSON_BYTES)"

definition validate_agent_capacity :: "tenant_id \<Rightarrow> int \<Rightarrow> bool \<Rightarrow> pg_store_error + unit" where
  "validate_agent_capacity t agent_count already_enrolled =
     (if \<not> already_enrolled \<and> agent_count \<ge> int MAX_AGENTS_PER_TENANT
      then Inl (AgentLimitReached t MAX_AGENTS_PER_TENANT) else Inr ())"

definition normalized_display_name :: "string option \<Rightarrow> string option" where
  "normalized_display_name display_name = opt_filter (\<lambda>v. v \<noteq> []) (map_option trim display_name)"

definition required_actor_id :: "string \<Rightarrow> pg_store_error + string" where
  "required_actor_id actor_id =
     (let actor_id = trim actor_id in if actor_id = [] then Inl InvalidActorId else Inr actor_id)"

definition required_stream_ticket_subject :: "string \<Rightarrow> pg_store_error + string" where
  "required_stream_ticket_subject subject =
     (let subject = trim subject in
      if subject = [] \<or> length subject > MAX_STREAM_TICKET_SUBJECT_BYTES
      then Inl InvalidStreamTicketSubject else Inr subject)"

text \<open>A \<open>Duration\<close> is a number of nanoseconds.\<close>

definition stream_ticket_ttl_millis :: "nat \<Rightarrow> pg_store_error + int" where
  "stream_ticket_ttl_millis ttl =
     (if ttl = 0 \<or> ttl > MAX_STREAM_TICKET_TTL then Inl InvalidStreamTicketTtl
      else let millis = ttl div 1000000 in
        if millis = 0 then Inl InvalidStreamTicketTtl
        else if millis < 2 ^ 63 then Inr (int millis) else Inl InvalidStreamTicketTtl)"

definition stream_ticket_authorization_unix :: "u64 \<Rightarrow> pg_store_error + int" where
  "stream_ticket_authorization_unix authorized_until_unix =
     (if authorized_until_unix > MAX_STREAM_TICKET_AUTHORIZATION_UNIX
      then Inl InvalidStreamTicketAuthorizationExpiry
      else if unat authorized_until_unix < 2 ^ 63 then Inr (uint authorized_until_unix)
      else Inl InvalidStreamTicketAuthorizationExpiry)"

definition uuid_bytes :: "uuid \<Rightarrow> bytes" where
  "uuid_bytes u = u64_to_be (ucast (drop_bit 64 u)) @ u64_to_be (ucast u)"

definition tenant_lock_key :: "tenant_id \<Rightarrow> i64" where
  "tenant_lock_key t =
     (let bytes = uuid_bytes (tenant_uuid t);
          high = u64_from_be (take 8 bytes);
          low = u64_from_be (drop 8 bytes)
      in xor high low)"

definition to_pg_i64 :: "string \<Rightarrow> u64 \<Rightarrow> pg_store_error + int" where
  "to_pg_i64 field v = (if unat v < 2 ^ 63 then Inr (uint v) else Inl (IntegerOutOfRange field))"

definition from_pg_i64 :: "string \<Rightarrow> int \<Rightarrow> pg_store_error + u64" where
  "from_pg_i64 field v = (if 0 \<le> v then Inr (word_of_int v) else Inl (IntegerOutOfRange field))"

definition from_pg_u64_text :: "string \<Rightarrow> string \<Rightarrow> pg_store_error + u64" where
  "from_pg_u64_text field v = ok_or (CorruptRow field) (parse_u64 v)"

section \<open>Canonical payloads\<close>

record bounded_payload_writer =
  bw_bytes :: bytes
  bw_overflowed :: bool

definition bounded_payload_writer_new :: bounded_payload_writer where
  "bounded_payload_writer_new = \<lparr>bw_bytes = [], bw_overflowed = False\<rparr>"

definition bounded_write ::
  "bytes \<Rightarrow> bounded_payload_writer \<Rightarrow> (unit + nat) \<times> bounded_payload_writer"
where
  "bounded_write buffer w =
     (let remaining = MAX_STORED_SIGNAL_JSON_BYTES - length (bw_bytes w);
          retained = min remaining (length buffer);
          w' = w\<lparr>bw_bytes := bw_bytes w @ take retained buffer\<rparr>
      in if retained < length buffer then (Inl (), w'\<lparr>bw_overflowed := True\<rparr>)
         else (Inr retained, w'))"

text \<open>\<open>Write::write_all\<close> for the pieces the serializer emits: an empty piece is not written, and
  the writer takes a piece whole or fails.\<close>

fun write_chunks :: "bytes list \<Rightarrow> bounded_payload_writer \<Rightarrow> bool \<times> bounded_payload_writer" where
  "write_chunks [] w = (True, w)"
| "write_chunks (c # cs) w =
     (if c = [] then write_chunks cs w
      else case bounded_write c w of
        (Inl _, w') \<Rightarrow> (False, w')
      | (Inr _, w') \<Rightarrow> write_chunks cs w')"

definition validate_signal_payload_size :: "nat \<Rightarrow> pg_store_error + unit" where
  "validate_signal_payload_size actual_bytes =
     (if actual_bytes > MAX_STORED_SIGNAL_JSON_BYTES
      then Inl (SignalPayloadTooLarge actual_bytes MAX_STORED_SIGNAL_JSON_BYTES) else Inr ())"

definition serialize_signal_bounded :: "'v ext \<Rightarrow> signal \<Rightarrow> pg_store_error + bytes" where
  "serialize_signal_bounded x payload =
     (let (chunks, failure) = x_to_writer x payload;
          (written, w) = write_chunks chunks bounded_payload_writer_new
      in if \<not> written \<or> failure \<noteq> None then
           (if bw_overflowed w
            then Inl (SignalPayloadTooLarge (MAX_STORED_SIGNAL_JSON_BYTES + 1)
                        MAX_STORED_SIGNAL_JSON_BYTES)
            else Inl (InvalidSignalPayload (unwrap_or [] failure)))
         else and_then (validate_signal_payload_size (length (bw_bytes w))) (\<lambda>_.
                Inr (bw_bytes w)))"

record 'v canonical_payload =
  cp_value :: 'v
  cp_byte_len :: nat

definition canonical_signal_payload ::
  "'v ext \<Rightarrow> signal \<Rightarrow> pg_store_error + 'v canonical_payload"
where
  "canonical_signal_payload x payload =
     and_then (serialize_signal_bounded x payload) (\<lambda>encoded.
     and_then (map_err InvalidSignalPayload (x_from_slice_signal x encoded)) (\<lambda>decoded.
     and_then (serialize_signal_bounded x decoded) (\<lambda>round_trip.
     if round_trip \<noteq> encoded then Inl SignalPayloadNotRoundTripSafe
     else and_then (map_err InvalidSignalPayload (x_from_slice_value x encoded)) (\<lambda>v.
       Inr \<lparr>cp_value = v, cp_byte_len = length encoded\<rparr>))))"

section \<open>Tables\<close>

text \<open>Timestamps are microseconds since the epoch.\<close>

type_synonym timestamp = int

record tenant_row =
  tr_id :: uuid
  tr_slug :: string
  tr_display_name :: string
  tr_enabled :: bool
  tr_created_at :: timestamp
  tr_updated_at :: timestamp

record agent_row =
  ar_tenant_id :: uuid
  ar_agent_id :: string
  ar_display_name :: "string option"
  ar_enabled :: bool
  ar_enrolled_at :: timestamp
  ar_updated_at :: timestamp
  ar_last_seen_at :: "timestamp option"

record 'v event_row =
  er_cursor :: int
  er_tenant_id :: uuid
  er_event_id :: uuid
  er_agent_id :: string
  er_sequence :: nat
  er_received_at_unix_nano :: nat
  er_signal_kind :: string
  er_payload :: 'v
  er_payload_bytes :: int
  er_committed_at :: timestamp

record 'v projection_row =
  pr_tenant_id :: uuid
  pr_last_cursor :: int
  pr_projection :: 'v
  pr_updated_at :: timestamp

datatype detail = DText string | DBool bool | DNull

record audit_row =
  au_id :: int
  au_tenant_id :: uuid
  au_actor_type :: string
  au_actor_id :: string
  au_action :: string
  au_target_type :: string
  au_target_id :: string
  au_details :: "(string \<times> detail) list"
  au_occurred_at :: timestamp

record ticket_row =
  ti_ticket_id :: uuid
  ti_tenant_id :: uuid
  ti_subject :: string
  ti_created_at :: timestamp
  ti_authorized_until :: timestamp
  ti_expires_at :: timestamp
  ti_consumed_at :: "timestamp option"

record 'v pg_tables =
  pt_tenants :: "tenant_row list"
  pt_agents :: "agent_row list"
  pt_events :: "'v event_row list"
  pt_projections :: "'v projection_row list"
  pt_audit :: "audit_row list"
  pt_tickets :: "ticket_row list"

record 'v pg_db =
  db_tables :: "'v pg_tables"
  db_event_seq :: int
  db_audit_seq :: int
  db_notifications :: "(uuid \<times> u64) list"

text \<open>\<open>btrim (s) <> ''\<close> fails exactly for strings of spaces; text columns hold no NUL.\<close>

definition pg_blank :: "string \<Rightarrow> bool" where
  "pg_blank s \<longleftrightarrow> list_all (\<lambda>c. c = CHR '' '') s"

definition pg_text :: "string \<Rightarrow> bool" where
  "pg_text s \<longleftrightarrow> CHR 0x00 \<notin> set s"

definition tenant_checks :: "tenant_row \<Rightarrow> bool" where
  "tenant_checks r \<longleftrightarrow> pg_text (tr_slug r) \<and> pg_text (tr_display_name r) \<and>
     \<not> pg_blank (tr_slug r) \<and> \<not> pg_blank (tr_display_name r)"

definition agent_checks :: "'v ext \<Rightarrow> agent_row \<Rightarrow> bool" where
  "agent_checks x r \<longleftrightarrow> pg_text (ar_agent_id r) \<and>
     1 \<le> length (ar_agent_id r) \<and> length (ar_agent_id r) \<le> 255 \<and> \<not> x_cntrl x (ar_agent_id r) \<and>
     (case ar_display_name r of None \<Rightarrow> True | Some n \<Rightarrow> pg_text n \<and> \<not> pg_blank n)"

definition event_checks :: "'v ext \<Rightarrow> 'v event_row \<Rightarrow> bool" where
  "event_checks x r \<longleftrightarrow>
     er_cursor r > 0 \<and> er_sequence r \<le> 18446744073709551615 \<and>
     er_received_at_unix_nano r \<le> 18446744073709551615 \<and>
     er_signal_kind r \<in> {''metrics'', ''traces'', ''logs''} \<and>
     x_is_object x (er_payload r) \<and> er_payload_bytes r > 0 \<and> er_payload_bytes r \<le> 16777216"

definition projection_checks :: "'v ext \<Rightarrow> 'v projection_row \<Rightarrow> bool" where
  "projection_checks x r \<longleftrightarrow> pr_last_cursor r \<ge> 0 \<and> x_is_object x (pr_projection r)"

definition audit_checks :: "audit_row \<Rightarrow> bool" where
  "audit_checks r \<longleftrightarrow> pg_text (au_actor_id r) \<and> pg_text (au_target_id r) \<and>
     \<not> pg_blank (au_actor_type r) \<and> \<not> pg_blank (au_actor_id r) \<and> \<not> pg_blank (au_action r) \<and>
     \<not> pg_blank (au_target_type r) \<and> \<not> pg_blank (au_target_id r)"

definition ticket_checks :: "ticket_row \<Rightarrow> bool" where
  "ticket_checks r \<longleftrightarrow> pg_text (ti_subject r) \<and> \<not> pg_blank (ti_subject r) \<and>
     length (ti_subject r) \<le> 1024 \<and>
     ti_authorized_until r > ti_created_at r \<and> ti_expires_at r > ti_created_at r \<and>
     ti_expires_at r \<le> ti_authorized_until r \<and>
     (case ti_consumed_at r of None \<Rightarrow> True | Some c \<Rightarrow> c < ti_expires_at r)"

section \<open>Transactions\<close>

datatype commit_fate = Committed | CommitRejected | CommitUnacknowledged

record pg_env =
  pe_fault :: "nat \<Rightarrow> bool"
  pe_time :: "nat \<Rightarrow> timestamp"
  pe_commit :: commit_fate

record 'v pg_tx =
  tx_tables :: "'v pg_tables"
  tx_event_seq :: int
  tx_audit_seq :: int
  tx_notifications :: "(uuid \<times> u64) list"
  tx_stmt :: nat
  tx_tenant :: "string option"
  tx_locks :: "i64 list"

type_synonym ('v, 'a) tx = "'v pg_tx \<Rightarrow> (pg_store_error + 'a) \<times> 'v pg_tx"

definition tx_return :: "'a \<Rightarrow> ('v, 'a) tx" where
  "tx_return a = (\<lambda>s. (Inr a, s))"

definition tx_lift :: "pg_store_error + 'a \<Rightarrow> ('v, 'a) tx" where
  "tx_lift r = (\<lambda>s. (r, s))"

definition tx_bind :: "('v, 'a) tx \<Rightarrow> ('a \<Rightarrow> ('v, 'b) tx) \<Rightarrow> ('v, 'b) tx" where
  "tx_bind m k = (\<lambda>s. case m s of (Inl e, t) \<Rightarrow> (Inl e, t) | (Inr a, t) \<Rightarrow> k a t)"

text \<open>One statement: it may fail; otherwise it runs at the server's clock reading.\<close>

definition sql ::
  "pg_env \<Rightarrow> (timestamp \<Rightarrow> 'v pg_tx \<Rightarrow> (sqlx_error + 'a) \<times> 'v pg_tx) \<Rightarrow> ('v, 'a) tx"
where
  "sql env q = (\<lambda>s.
     let n = tx_stmt s; s' = s\<lparr>tx_stmt := Suc n\<rparr> in
     if pe_fault env n then (Inl (Database SqlFault), s')
     else case q (pe_time env n) s' of
       (Inl e, t) \<Rightarrow> (Inl (Database e), t)
     | (Inr a, t) \<Rightarrow> (Inr a, t))"

definition now_of :: "pg_env \<Rightarrow> timestamp" where
  "now_of env = pe_time env 0"

definition tx_begin :: "'v pg_db \<Rightarrow> 'v pg_tx" where
  "tx_begin db =
     \<lparr>tx_tables = db_tables db, tx_event_seq = db_event_seq db, tx_audit_seq = db_audit_seq db,
      tx_notifications = [], tx_stmt = 1, tx_tenant = None, tx_locks = []\<rparr>"

definition tx_rollback :: "'v pg_tx \<Rightarrow> 'v pg_db \<Rightarrow> 'v pg_db" where
  "tx_rollback s db = db\<lparr>db_event_seq := tx_event_seq s, db_audit_seq := tx_audit_seq s\<rparr>"

definition tx_commit :: "'v pg_tx \<Rightarrow> 'v pg_db \<Rightarrow> 'v pg_db" where
  "tx_commit s db =
     \<lparr>db_tables = tx_tables s, db_event_seq = tx_event_seq s, db_audit_seq = tx_audit_seq s,
      db_notifications = db_notifications db @ tx_notifications s\<rparr>"

text \<open>\<open>pool.begin()\<close>, the body, and \<open>commit()\<close>; an error drops the transaction, which rolls it
  back. A commit can also be carried out without its acknowledgement arriving.\<close>

definition with_tx ::
  "pg_env \<Rightarrow> ('v, 'a) tx \<Rightarrow> 'v pg_db \<Rightarrow> (pg_store_error + 'a) \<times> 'v pg_db"
where
  "with_tx env body db =
     (if pe_fault env 0 then (Inl (Database SqlFault), db)
      else case body (tx_begin db) of
        (Inl e, s) \<Rightarrow> (Inl e, tx_rollback s db)
      | (Inr a, s) \<Rightarrow> (case pe_commit env of
          Committed \<Rightarrow> (Inr a, tx_commit s db)
        | CommitRejected \<Rightarrow> (Inl (Database SqlFault), tx_rollback s db)
        | CommitUnacknowledged \<Rightarrow> (Inl (Database SqlFault), tx_commit s db)))"

definition rls :: "'v ext \<Rightarrow> 'w pg_tx \<Rightarrow> uuid \<Rightarrow> bool" where
  "rls x s t \<longleftrightarrow> (case tx_tenant s of
     None \<Rightarrow> False | Some v \<Rightarrow> v \<noteq> [] \<and> x_uuid_parse x v = Some t)"

definition set_tenant_context :: "'v ext \<Rightarrow> pg_env \<Rightarrow> tenant_id \<Rightarrow> ('v, unit) tx" where
  "set_tenant_context x env t =
     sql env (\<lambda>_ s. (Inr (), s\<lparr>tx_tenant := Some (x_uuid_show x (tenant_uuid t))\<rparr>))"

definition first_row :: "'a list \<Rightarrow> 'a option" where
  "first_row rows = (case rows of [] \<Rightarrow> None | r # _ \<Rightarrow> Some r)"

definition REQUIRE_ENABLED_TENANT_SQL ::
  "'v ext \<Rightarrow> tenant_id \<Rightarrow> timestamp \<Rightarrow> 'v pg_tx \<Rightarrow> (sqlx_error + bool option) \<times> 'v pg_tx"
where
  "REQUIRE_ENABLED_TENANT_SQL x t _ s =
     (Inr (map_option tr_enabled (first_row (filter
        (\<lambda>r. rls x s (tr_id r) \<and> tr_id r = tenant_uuid t) (pt_tenants (tx_tables s))))), s)"

definition require_enabled_tenant :: "'v ext \<Rightarrow> pg_env \<Rightarrow> tenant_id \<Rightarrow> ('v, unit) tx" where
  "require_enabled_tenant x env t =
     tx_bind (sql env (REQUIRE_ENABLED_TENANT_SQL x t)) (\<lambda>enabled. tx_lift (case enabled of
       Some True \<Rightarrow> Inr ()
     | Some False \<Rightarrow> Inl (TenantDisabled t)
     | None \<Rightarrow> Inl (Database RowNotFound)))"

definition lock_tenant :: "pg_env \<Rightarrow> tenant_id \<Rightarrow> ('v, unit) tx" where
  "lock_tenant env t = sql env (\<lambda>_ s. (Inr (), s\<lparr>tx_locks := tenant_lock_key t # tx_locks s\<rparr>))"

section \<open>Appending\<close>

definition cursor_from_row :: "int \<Rightarrow> pg_store_error + signal_cursor" where
  "cursor_from_row cursor = from_pg_i64 ''cursor'' cursor"

definition select_agent_enabled ::
  "'v ext \<Rightarrow> tenant_id \<Rightarrow> agent_id \<Rightarrow> timestamp \<Rightarrow> 'v pg_tx \<Rightarrow> (sqlx_error + bool option) \<times> 'v pg_tx"
where
  "select_agent_enabled x t a _ s =
     (Inr (map_option ar_enabled (first_row (filter
        (\<lambda>r. rls x s (ar_tenant_id r) \<and> ar_tenant_id r = tenant_uuid t \<and>
             ar_agent_id r = agent_id_str a) (pt_agents (tx_tables s))))), s)"

definition require_enabled_agent :: "'v ext \<Rightarrow> pg_env \<Rightarrow> tenant_id \<Rightarrow> agent_id \<Rightarrow> ('v, unit) tx" where
  "require_enabled_agent x env t a =
     tx_bind (sql env (select_agent_enabled x t a)) (\<lambda>enabled. tx_lift (case enabled of
       None \<Rightarrow> Inl (AgentNotEnrolled a)
     | Some False \<Rightarrow> Inl (AgentDisabled a)
     | Some True \<Rightarrow> Inr ()))"

text \<open>\<open>NUMERIC(20,0)\<close> columns: written from decimal text, read back as decimal text.\<close>

definition numeric_of_text :: "string \<Rightarrow> nat" where
  "numeric_of_text s = dec_value s"

definition numeric_to_text :: "nat \<Rightarrow> string" where
  "numeric_to_text n = show_nat n"

definition event_key :: "'v event_row \<Rightarrow> uuid \<times> string \<times> nat" where
  "event_key r = (er_tenant_id r, er_agent_id r, er_sequence r)"

definition event_row_of ::
  "pg_env \<Rightarrow> tenant_id \<Rightarrow> signal_envelope \<Rightarrow> 'v \<Rightarrow> int \<Rightarrow> int \<Rightarrow> 'v event_row"
where
  "event_row_of env t e stored payload_bytes cursor =
     \<lparr>er_cursor = cursor, er_tenant_id = tenant_uuid t, er_event_id = event_uuid (env_event_id e),
      er_agent_id = agent_id_str (env_agent_id e),
      er_sequence = numeric_of_text (show_u64 (env_sequence e)),
      er_received_at_unix_nano = numeric_of_text (show_u64 (env_received_at_unix_nano e)),
      er_signal_kind = signal_kind_name e, er_payload = stored, er_payload_bytes = payload_bytes,
      er_committed_at = now_of env\<rparr>"

text \<open>\<open>INSERT .. ON CONFLICT (tenant_id, agent_id, sequence) DO NOTHING RETURNING cursor\<close>: the
  identity value is drawn before the conflict is looked for, and is not given back.\<close>

definition insert_event ::
  "'v ext \<Rightarrow> pg_env \<Rightarrow> tenant_id \<Rightarrow> signal_envelope \<Rightarrow> 'v \<Rightarrow> int \<Rightarrow>
   timestamp \<Rightarrow> 'v pg_tx \<Rightarrow> (sqlx_error + int option) \<times> 'v pg_tx"
where
  "insert_event x env t e payload payload_bytes _ s =
     (case x_jsonb x payload of
        None \<Rightarrow> (Inl (SqlViolation ''jsonb''), s)
      | Some stored \<Rightarrow>
        if tx_event_seq s \<ge> 2 ^ 63 - 1 then (Inl (SqlViolation ''signal_events_cursor_seq''), s)
        else
        let cursor = tx_event_seq s + 1;
            s' = s\<lparr>tx_event_seq := cursor\<rparr>;
            tables = tx_tables s;
            row = event_row_of env t e stored payload_bytes cursor
        in
        if \<not> rls x s (er_tenant_id row) then (Inl (SqlViolation ''row-level security''), s')
        else if \<not> event_checks x row then (Inl (SqlViolation ''signal_events check''), s')
        else if event_key row \<in> set (map event_key (pt_events tables)) then (Inr None, s')
        else if (er_tenant_id row, er_event_id row) \<in>
            set (map (\<lambda>r. (er_tenant_id r, er_event_id r)) (pt_events tables))
          then (Inl (SqlViolation ''signal_events_tenant_event_unique''), s')
        else if er_tenant_id row \<notin> set (map tr_id (pt_tenants tables))
          then (Inl (SqlViolation ''signal_events_tenant_id_fkey''), s')
        else if (er_tenant_id row, er_agent_id row) \<notin>
            set (map (\<lambda>r. (ar_tenant_id r, ar_agent_id r)) (pt_agents tables))
          then (Inl (SqlViolation ''signal_events_agent_fk''), s')
        else (Inr (Some cursor), s'\<lparr>tx_tables := tables\<lparr>pt_events := pt_events tables @ [row]\<rparr>\<rparr>))"

definition select_event ::
  "'v ext \<Rightarrow> tenant_id \<Rightarrow> agent_id \<Rightarrow> string \<Rightarrow> timestamp \<Rightarrow> 'v pg_tx \<Rightarrow>
   (sqlx_error + 'v event_row) \<times> 'v pg_tx"
where
  "select_event x t a sequence _ s =
     (case first_row (filter (\<lambda>r. rls x s (er_tenant_id r) \<and> er_tenant_id r = tenant_uuid t \<and>
             er_agent_id r = agent_id_str a \<and> er_sequence r = numeric_of_text sequence)
             (pt_events (tx_tables s))) of
        None \<Rightarrow> (Inl RowNotFound, s)
      | Some r \<Rightarrow> (Inr r, s))"

definition existing_outcome ::
  "'v ext \<Rightarrow> pg_env \<Rightarrow> tenant_id \<Rightarrow> signal_envelope \<Rightarrow> 'v \<Rightarrow> ('v, append_outcome) tx"
where
  "existing_outcome x env t e payload =
     tx_bind (sql env (select_event x t (env_agent_id e) (show_u64 (env_sequence e)))) (\<lambda>row.
       if er_signal_kind row \<noteq> signal_kind_name e \<or> er_payload row \<noteq> payload
       then tx_lift (Inl (SequenceConflict (env_agent_id e) (env_sequence e)))
       else tx_bind (tx_lift (cursor_from_row (er_cursor row))) (\<lambda>cursor.
         tx_return \<lparr>ao_cursor = cursor, ao_inserted = False\<rparr>))"

definition insert_projection ::
  "'v ext \<Rightarrow> pg_env \<Rightarrow> tenant_id \<Rightarrow> 'v \<Rightarrow> timestamp \<Rightarrow> 'v pg_tx \<Rightarrow> (sqlx_error + unit) \<times> 'v pg_tx"
where
  "insert_projection x env t initial _ s =
     (case x_jsonb x initial of
        None \<Rightarrow> (Inl (SqlViolation ''jsonb''), s)
      | Some stored \<Rightarrow>
        let tables = tx_tables s;
            row = \<lparr>pr_tenant_id = tenant_uuid t, pr_last_cursor = 0, pr_projection = stored,
                   pr_updated_at = now_of env\<rparr>
        in
        if \<not> rls x s (pr_tenant_id row) then (Inl (SqlViolation ''row-level security''), s)
        else if \<not> projection_checks x row then (Inl (SqlViolation ''signal_projection check''), s)
        else if pr_tenant_id row \<in> set (map pr_tenant_id (pt_projections tables)) then (Inr (), s)
        else if pr_tenant_id row \<notin> set (map tr_id (pt_tenants tables))
          then (Inl (SqlViolation ''signal_projection_tenant_id_fkey''), s)
        else (Inr (), s\<lparr>tx_tables := tables\<lparr>pt_projections := pt_projections tables @ [row]\<rparr>\<rparr>))"

definition select_projection ::
  "'v ext \<Rightarrow> tenant_id \<Rightarrow> timestamp \<Rightarrow> 'v pg_tx \<Rightarrow> (sqlx_error + 'v projection_row option) \<times> 'v pg_tx"
where
  "select_projection x t _ s =
     (Inr (first_row (filter (\<lambda>r. rls x s (pr_tenant_id r) \<and> pr_tenant_id r = tenant_uuid t)
        (pt_projections (tx_tables s)))), s)"

definition update_projection ::
  "'v ext \<Rightarrow> pg_env \<Rightarrow> tenant_id \<Rightarrow> int \<Rightarrow> 'v \<Rightarrow> timestamp \<Rightarrow> 'v pg_tx \<Rightarrow> (sqlx_error + unit) \<times> 'v pg_tx"
where
  "update_projection x env t cursor projection _ s =
     (case x_jsonb x projection of
        None \<Rightarrow> (Inl (SqlViolation ''jsonb''), s)
      | Some stored \<Rightarrow>
        let tables = tx_tables s;
            hit = (\<lambda>r. rls x s (pr_tenant_id r) \<and> pr_tenant_id r = tenant_uuid t);
            new = (\<lambda>r. r\<lparr>pr_last_cursor := max (pr_last_cursor r) cursor, pr_projection := stored,
                         pr_updated_at := now_of env\<rparr>);
            rows = map (\<lambda>r. if hit r then new r else r) (pt_projections tables)
        in if list_ex (\<lambda>r. hit r \<and> \<not> projection_checks x (new r)) (pt_projections tables)
           then (Inl (SqlViolation ''signal_projection check''), s)
           else (Inr (), s\<lparr>tx_tables := tables\<lparr>pt_projections := rows\<rparr>\<rparr>))"

definition touch_agent ::
  "'v ext \<Rightarrow> pg_env \<Rightarrow> tenant_id \<Rightarrow> agent_id \<Rightarrow> timestamp \<Rightarrow> 'v pg_tx \<Rightarrow> (sqlx_error + unit) \<times> 'v pg_tx"
where
  "touch_agent x env t a _ s =
     (let tables = tx_tables s in
      (Inr (), s\<lparr>tx_tables := tables\<lparr>pt_agents := map (\<lambda>r.
         if rls x s (ar_tenant_id r) \<and> ar_tenant_id r = tenant_uuid t \<and>
            ar_agent_id r = agent_id_str a
         then r\<lparr>ar_last_seen_at := Some (now_of env), ar_updated_at := now_of env\<rparr> else r)
         (pt_agents tables)\<rparr>\<rparr>))"

definition pg_notify ::
  "tenant_id \<Rightarrow> signal_cursor \<Rightarrow> timestamp \<Rightarrow> 'v pg_tx \<Rightarrow> (sqlx_error + unit) \<times> 'v pg_tx"
where
  "pg_notify t cursor _ s =
     (Inr (), s\<lparr>tx_notifications := tx_notifications s @ [(tenant_uuid t, cursor)]\<rparr>)"

definition record_inserted ::
  "'v ext \<Rightarrow> pg_env \<Rightarrow> tenant_id \<Rightarrow> signal_envelope \<Rightarrow> int \<Rightarrow> ('v, append_outcome) tx"
where
  "record_inserted x env t e inserted =
     tx_bind (tx_lift (cursor_from_row inserted)) (\<lambda>cursor.
     tx_bind (tx_lift (to_pg_i64 ''cursor'' cursor)) (\<lambda>cursor_i64.
     tx_bind (tx_lift (map_err Json (x_projection_to_value x signal_projection_default))) (\<lambda>initial.
     tx_bind (sql env (insert_projection x env t initial)) (\<lambda>_.
     tx_bind (sql env (select_projection x t)) (\<lambda>row.
     tx_bind (tx_lift (ok_or (Database RowNotFound) row)) (\<lambda>row.
     tx_bind (tx_lift (map_err Json (x_projection_from_value x (pr_projection row)))) (\<lambda>projection.
     tx_bind (tx_lift (map_err Json
       (x_projection_to_value x (projection_observe e projection)))) (\<lambda>updated.
     tx_bind (sql env (update_projection x env t cursor_i64 updated)) (\<lambda>_.
     tx_bind (sql env (touch_agent x env t (env_agent_id e))) (\<lambda>_.
     tx_bind (sql env (pg_notify t cursor)) (\<lambda>_.
     tx_return \<lparr>ao_cursor = cursor, ao_inserted = True\<rparr>)))))))))))"

definition append_body ::
  "'v ext \<Rightarrow> pg_env \<Rightarrow> tenant_id \<Rightarrow> signal_envelope \<Rightarrow> 'v canonical_payload \<Rightarrow>
   ('v, append_outcome) tx"
where
  "append_body x env t e payload =
     tx_bind (set_tenant_context x env t) (\<lambda>_.
     tx_bind (require_enabled_tenant x env t) (\<lambda>_.
     tx_bind (lock_tenant env t) (\<lambda>_.
     tx_bind (require_enabled_agent x env t (env_agent_id e)) (\<lambda>_.
     tx_bind (sql env (insert_event x env t e (cp_value payload) (int (cp_byte_len payload))))
       (\<lambda>inserted. case inserted of
          None \<Rightarrow> existing_outcome x env t e (cp_value payload)
        | Some cursor \<Rightarrow> record_inserted x env t e cursor)))))"

definition append_envelope ::
  "'v ext \<Rightarrow> pg_env \<Rightarrow> signal_envelope \<Rightarrow> 'v pg_db \<Rightarrow> (pg_store_error + append_outcome) \<times> 'v pg_db"
where
  "append_envelope x env e db =
     (case and_then (tenant_scope (env_scope e)) (\<lambda>t.
            map_ok (\<lambda>payload. (t, payload)) (canonical_signal_payload x (env_payload e))) of
        Inl err \<Rightarrow> (Inl err, db)
      | Inr (t, payload) \<Rightarrow> with_tx env (append_body x env t e payload) db)"

section \<open>Replaying\<close>

definition epoch_nanos :: "timestamp \<Rightarrow> sqlx_error + int" where
  "epoch_nanos ts =
     (if - (2 ^ 63) \<le> ts * 1000 \<and> ts * 1000 < 2 ^ 63 then Inr (ts * 1000)
      else Inl (SqlViolation ''bigint out of range''))"

fun ranked_metadata :: "nat \<Rightarrow> int \<Rightarrow> (int \<times> int) list \<Rightarrow> (int \<times> nat \<times> int) list" where
  "ranked_metadata ordinal cumulative [] = []"
| "ranked_metadata ordinal cumulative ((cursor, payload_bytes) # rest) =
     (cursor, ordinal, cumulative + payload_bytes) #
     ranked_metadata (Suc ordinal) (cumulative + payload_bytes) rest"

definition cutoff :: "int \<Rightarrow> (int \<times> nat \<times> int) list \<Rightarrow> int option" where
  "cutoff budget ranked =
     (case map fst (filter (\<lambda>(_, ordinal, cumulative_bytes).
             ordinal = 1 \<or> cumulative_bytes \<le> budget) ranked) of
        [] \<Rightarrow> None | c # cs \<Rightarrow> Some (fold max cs c))"

definition LOAD_ENVELOPES_BOUNDED_SQL ::
  "'v ext \<Rightarrow> tenant_id \<Rightarrow> int \<Rightarrow> nat \<Rightarrow> int \<Rightarrow> timestamp \<Rightarrow> 'v pg_tx \<Rightarrow>
   (sqlx_error + 'v event_row list) \<times> 'v pg_tx"
where
  "LOAD_ENVELOPES_BOUNDED_SQL x t after limit budget _ s =
     (let matching = sort_key er_cursor (filter (\<lambda>r. rls x s (er_tenant_id r) \<and>
            er_tenant_id r = tenant_uuid t \<and> er_cursor r > after) (pt_events (tx_tables s)));
          candidate_metadata = map (\<lambda>r. (er_cursor r, er_payload_bytes r)) (take limit matching)
      in (Inr (case cutoff budget (ranked_metadata 1 0 candidate_metadata) of
                 None \<Rightarrow> []
               | Some c \<Rightarrow> filter (\<lambda>r. er_cursor r \<le> c) matching), s))"

definition signal_record_from_row ::
  "'v ext \<Rightarrow> tenant_id \<Rightarrow> 'v event_row \<Rightarrow> pg_store_error + signal_record"
where
  "signal_record_from_row x t row =
     and_then (cursor_from_row (er_cursor row)) (\<lambda>cursor.
     and_then (ok_or (CorruptRow ''event_id'')
       (x_uuid_parse x (x_uuid_show x (er_event_id row)))) (\<lambda>event_id.
     and_then (map_err (\<lambda>error. InvalidAgentId (id_error_display error))
       (agent_id_new (er_agent_id row))) (\<lambda>agent_id.
     and_then (from_pg_u64_text ''sequence'' (numeric_to_text (er_sequence row))) (\<lambda>sequence.
     and_then (from_pg_u64_text ''received_at_unix_nano''
       (numeric_to_text (er_received_at_unix_nano row))) (\<lambda>received_at_unix_nano.
     and_then (map_err Json (x_from_value_signal x (er_payload row))) (\<lambda>payload.
     Inr \<lparr>sr_cursor = cursor,
          sr_envelope = \<lparr>env_event_id = EventId event_id, env_scope = Tenant t,
            env_agent_id = agent_id, env_sequence = sequence,
            env_received_at_unix_nano = received_at_unix_nano, env_payload = payload\<rparr>\<rparr>))))))"

definition load_envelopes_after_bounded ::
  "'v ext \<Rightarrow> pg_env \<Rightarrow> signal_scope \<Rightarrow> signal_cursor \<Rightarrow> nat \<Rightarrow> nat \<Rightarrow> 'v pg_db \<Rightarrow>
   (pg_store_error + signal_record list) \<times> 'v pg_db"
where
  "load_envelopes_after_bounded x env scope after row_limit max_json_bytes db =
     (case and_then (tenant_scope scope) (\<lambda>t.
            map_ok (\<lambda>after. (t, after)) (to_pg_i64 ''cursor'' after)) of
        Inl err \<Rightarrow> (Inl err, db)
      | Inr (t, after) \<Rightarrow> with_tx env
          (tx_bind (set_tenant_context x env t) (\<lambda>_.
           tx_bind (require_enabled_tenant x env t) (\<lambda>_.
           tx_bind (sql env (LOAD_ENVELOPES_BOUNDED_SQL x t after (bounded_load_limit row_limit)
             (bounded_replay_json_bytes max_json_bytes))) (\<lambda>rows.
           tx_lift (try_map (signal_record_from_row x t) rows))))) db)"

definition load_envelopes_after ::
  "'v ext \<Rightarrow> pg_env \<Rightarrow> signal_scope \<Rightarrow> signal_cursor \<Rightarrow> nat \<Rightarrow> 'v pg_db \<Rightarrow>
   (pg_store_error + signal_record list) \<times> 'v pg_db"
where
  "load_envelopes_after x env scope after limit db =
     load_envelopes_after_bounded x env scope after limit MAX_REPLAY_JSON_BYTES db"

record projection_record =
  pj_tenant_id :: tenant_id
  pj_last_cursor :: signal_cursor
  pj_projection :: signal_projection

definition projection_record_from_row ::
  "'v ext \<Rightarrow> tenant_id \<Rightarrow> 'v projection_row \<Rightarrow> pg_store_error + projection_record"
where
  "projection_record_from_row x t row =
     and_then (from_pg_i64 ''last_cursor'' (pr_last_cursor row)) (\<lambda>last_cursor.
     and_then (map_err Json (x_projection_from_value x (pr_projection row))) (\<lambda>projection.
     Inr \<lparr>pj_tenant_id = t, pj_last_cursor = last_cursor, pj_projection = projection\<rparr>))"

definition transpose_option :: "('a \<Rightarrow> 'e + 'b) \<Rightarrow> 'a option \<Rightarrow> 'e + 'b option" where
  "transpose_option f v = (case v of None \<Rightarrow> Inr None | Some a \<Rightarrow> map_ok Some (f a))"

definition load_projection ::
  "'v ext \<Rightarrow> pg_env \<Rightarrow> tenant_id \<Rightarrow> 'v pg_db \<Rightarrow> (pg_store_error + projection_record option) \<times> 'v pg_db"
where
  "load_projection x env t db = with_tx env
     (tx_bind (set_tenant_context x env t) (\<lambda>_.
      tx_bind (require_enabled_tenant x env t) (\<lambda>_.
      tx_bind (sql env (select_projection x t)) (\<lambda>row.
      tx_lift (transpose_option (projection_record_from_row x t) row))))) db"

section \<open>Tenants and agents\<close>

record tenant_record =
  tn_tenant_id :: tenant_id
  tn_slug :: string
  tn_display_name :: string
  tn_enabled :: bool
  tn_created_at_unix_nano :: u64

record agent_record =
  ag_tenant_id :: tenant_id
  ag_agent_id :: agent_id
  ag_display_name :: "string option"
  ag_enabled :: bool
  ag_enrolled_at_unix_nano :: u64
  ag_last_seen_at_unix_nano :: "u64 option"

definition tenant_record_from_row :: "tenant_id \<Rightarrow> tenant_row \<times> int \<Rightarrow> pg_store_error + tenant_record"
where
  "tenant_record_from_row t = (\<lambda>(row, created_at).
     and_then (from_pg_i64 ''created_at_unix_nano'' created_at) (\<lambda>created_at_unix_nano.
     Inr \<lparr>tn_tenant_id = t, tn_slug = tr_slug row, tn_display_name = tr_display_name row,
          tn_enabled = tr_enabled row, tn_created_at_unix_nano = created_at_unix_nano\<rparr>))"

definition agent_record_from_row ::
  "tenant_id \<Rightarrow> agent_row \<times> int \<times> int option \<Rightarrow> pg_store_error + agent_record"
where
  "agent_record_from_row t = (\<lambda>(row, enrolled_at, last_seen_at).
     and_then (map_err (\<lambda>error. InvalidAgentId (id_error_display error))
       (agent_id_new (ar_agent_id row))) (\<lambda>agent_id.
     and_then (from_pg_i64 ''enrolled_at_unix_nano'' enrolled_at) (\<lambda>enrolled_at_unix_nano.
     and_then (transpose_option (from_pg_i64 ''last_seen_at_unix_nano'') last_seen_at)
       (\<lambda>last_seen_at_unix_nano.
     Inr \<lparr>ag_tenant_id = t, ag_agent_id = agent_id, ag_display_name = ar_display_name row,
          ag_enabled = ar_enabled row, ag_enrolled_at_unix_nano = enrolled_at_unix_nano,
          ag_last_seen_at_unix_nano = last_seen_at_unix_nano\<rparr>))))"

text \<open>The \<open>RETURNING\<close> and \<open>SELECT\<close> lists that convert timestamps.\<close>

definition agent_times :: "agent_row \<Rightarrow> sqlx_error + agent_row \<times> int \<times> int option" where
  "agent_times r =
     and_then (epoch_nanos (ar_enrolled_at r)) (\<lambda>enrolled_at.
     and_then (transpose_option epoch_nanos (ar_last_seen_at r)) (\<lambda>last_seen_at.
     Inr (r, enrolled_at, last_seen_at)))"

definition upsert_tenant_row ::
  "'v ext \<Rightarrow> pg_env \<Rightarrow> tenant_id \<Rightarrow> string \<Rightarrow> string \<Rightarrow> timestamp \<Rightarrow> 'v pg_tx \<Rightarrow>
   (sqlx_error + tenant_row \<times> int) \<times> 'v pg_tx"
where
  "upsert_tenant_row x env t slug display_name _ s =
     (let tables = tx_tables s;
          id = tenant_uuid t;
          fresh = \<lparr>tr_id = id, tr_slug = slug, tr_display_name = display_name, tr_enabled = True,
                   tr_created_at = now_of env, tr_updated_at = now_of env\<rparr>;
          row = (case first_row (filter (\<lambda>r. tr_id r = id) (pt_tenants tables)) of
                   None \<Rightarrow> fresh
                 | Some r \<Rightarrow> r\<lparr>tr_slug := slug, tr_display_name := display_name,
                                tr_updated_at := now_of env\<rparr>)
      in
      if \<not> rls x s id then (Inl (SqlViolation ''row-level security''), s)
      else if \<not> tenant_checks fresh then (Inl (SqlViolation ''tenants check''), s)
      else if list_ex (\<lambda>r. tr_slug r = slug \<and> tr_id r \<noteq> id) (pt_tenants tables)
        then (Inl (SqlViolation ''tenants_slug_key''), s)
      else case epoch_nanos (tr_created_at row) of
        Inl e \<Rightarrow> (Inl e, s)
      | Inr created_at \<Rightarrow> (Inr (row, created_at), s\<lparr>tx_tables := tables\<lparr>pt_tenants :=
          (if id \<in> set (map tr_id (pt_tenants tables))
           then map (\<lambda>r. if tr_id r = id then row else r) (pt_tenants tables)
           else pt_tenants tables @ [row])\<rparr>\<rparr>))"

definition insert_audit ::
  "'v ext \<Rightarrow> pg_env \<Rightarrow> tenant_id \<Rightarrow> string \<Rightarrow> string \<Rightarrow> string \<Rightarrow> string \<Rightarrow> (string \<times> detail) list \<Rightarrow>
   timestamp \<Rightarrow> 'v pg_tx \<Rightarrow> (sqlx_error + unit) \<times> 'v pg_tx"
where
  "insert_audit x env t actor_id action target_type target_id details _ s =
     (if tx_audit_seq s \<ge> 2 ^ 63 - 1 then (Inl (SqlViolation ''audit_events_id_seq''), s)
      else
      let tables = tx_tables s;
          s' = s\<lparr>tx_audit_seq := tx_audit_seq s + 1\<rparr>;
          row = \<lparr>au_id = tx_audit_seq s + 1, au_tenant_id = tenant_uuid t, au_actor_type = ''user'',
                 au_actor_id = actor_id, au_action = action, au_target_type = target_type,
                 au_target_id = target_id, au_details = details, au_occurred_at = now_of env\<rparr>
      in
      if \<not> rls x s (au_tenant_id row) then (Inl (SqlViolation ''row-level security''), s')
      else if \<not> audit_checks row then (Inl (SqlViolation ''audit_events check''), s')
      else if au_tenant_id row \<notin> set (map tr_id (pt_tenants tables))
        then (Inl (SqlViolation ''audit_events_tenant_id_fkey''), s')
      else (Inr (), s'\<lparr>tx_tables := tables\<lparr>pt_audit := pt_audit tables @ [row]\<rparr>\<rparr>))"

definition upsert_tenant_as ::
  "'v ext \<Rightarrow> pg_env \<Rightarrow> tenant_id \<Rightarrow> string \<Rightarrow> string \<Rightarrow> string \<Rightarrow> 'v pg_db \<Rightarrow>
   (pg_store_error + tenant_record) \<times> 'v pg_db"
where
  "upsert_tenant_as x env t slug display_name actor_id db =
     (case required_actor_id actor_id of
        Inl err \<Rightarrow> (Inl err, db)
      | Inr actor_id \<Rightarrow>
        let slug = trim slug; display_name = trim display_name in
        with_tx env
          (tx_bind (set_tenant_context x env t) (\<lambda>_.
           tx_bind (sql env (upsert_tenant_row x env t slug display_name)) (\<lambda>row.
           tx_bind (tx_lift (tenant_record_from_row t row)) (\<lambda>tenant.
           if \<not> tn_enabled tenant then tx_lift (Inl (TenantDisabled t))
           else tx_bind (sql env (insert_audit x env t actor_id ''tenant.upsert'' ''tenant''
               (x_uuid_show x (tenant_uuid t))
               [(''slug'', DText slug), (''display_name'', DText display_name)])) (\<lambda>_.
             tx_return tenant))))) db)"

definition upsert_tenant ::
  "'v ext \<Rightarrow> pg_env \<Rightarrow> tenant_id \<Rightarrow> string \<Rightarrow> string \<Rightarrow> 'v pg_db \<Rightarrow>
   (pg_store_error + tenant_record) \<times> 'v pg_db"
where
  "upsert_tenant x env t slug display_name db =
     upsert_tenant_as x env t slug display_name ''client-api'' db"

text \<open>\<open>ORDER BY agent_id\<close> uses the collation of the database: \<open>collate\<close> orders the rows.\<close>

definition list_agents ::
  "'v ext \<Rightarrow> (agent_row list \<Rightarrow> agent_row list) \<Rightarrow> pg_env \<Rightarrow> tenant_id \<Rightarrow> 'v pg_db \<Rightarrow>
   (pg_store_error + agent_record list) \<times> 'v pg_db"
where
  "list_agents x collate env t db = with_tx env
     (tx_bind (set_tenant_context x env t) (\<lambda>_.
      tx_bind (require_enabled_tenant x env t) (\<lambda>_.
      tx_bind (sql env (\<lambda>_ s. (try_map agent_times (collate (filter
          (\<lambda>r. rls x s (ar_tenant_id r) \<and> ar_tenant_id r = tenant_uuid t)
          (pt_agents (tx_tables s)))), s))) (\<lambda>rows.
      tx_lift (try_map (agent_record_from_row t) rows))))) db"

definition AGENT_CARDINALITY_SQL ::
  "'v ext \<Rightarrow> tenant_id \<Rightarrow> agent_id \<Rightarrow> timestamp \<Rightarrow> 'v pg_tx \<Rightarrow> (sqlx_error + int \<times> bool) \<times> 'v pg_tx"
where
  "AGENT_CARDINALITY_SQL x t a _ s =
     (let rows = filter (\<lambda>r. rls x s (ar_tenant_id r) \<and> ar_tenant_id r = tenant_uuid t)
            (pt_agents (tx_tables s))
      in (Inr (int (length rows),
               length (filter (\<lambda>r. ar_agent_id r = agent_id_str a) rows) > 0), s))"

definition upsert_agent_row ::
  "'v ext \<Rightarrow> pg_env \<Rightarrow> tenant_id \<Rightarrow> agent_id \<Rightarrow> string option \<Rightarrow> timestamp \<Rightarrow> 'v pg_tx \<Rightarrow>
   (sqlx_error + agent_row \<times> int \<times> int option) \<times> 'v pg_tx"
where
  "upsert_agent_row x env t a display_name _ s =
     (let tables = tx_tables s;
          hit = (\<lambda>r. ar_tenant_id r = tenant_uuid t \<and> ar_agent_id r = agent_id_str a);
          fresh = \<lparr>ar_tenant_id = tenant_uuid t, ar_agent_id = agent_id_str a,
                   ar_display_name = display_name, ar_enabled = True, ar_enrolled_at = now_of env,
                   ar_updated_at = now_of env, ar_last_seen_at = None\<rparr>;
          row = (case first_row (filter hit (pt_agents tables)) of
                   None \<Rightarrow> fresh
                 | Some r \<Rightarrow> r\<lparr>ar_display_name := display_name, ar_enabled := True,
                                ar_updated_at := now_of env\<rparr>)
      in
      if \<not> rls x s (tenant_uuid t) then (Inl (SqlViolation ''row-level security''), s)
      else if \<not> agent_checks x fresh then (Inl (SqlViolation ''agents check''), s)
      else if tenant_uuid t \<notin> set (map tr_id (pt_tenants tables))
        then (Inl (SqlViolation ''agents_tenant_id_fkey''), s)
      else case agent_times row of
        Inl e \<Rightarrow> (Inl e, s)
      | Inr returned \<Rightarrow> (Inr returned, s\<lparr>tx_tables := tables\<lparr>pt_agents :=
          (if list_ex hit (pt_agents tables)
           then map (\<lambda>r. if hit r then row else r) (pt_agents tables)
           else pt_agents tables @ [row])\<rparr>\<rparr>))"

definition detail_of_option :: "string option \<Rightarrow> detail" where
  "detail_of_option v = (case v of None \<Rightarrow> DNull | Some s \<Rightarrow> DText s)"

definition enroll_agent_as ::
  "'v ext \<Rightarrow> pg_env \<Rightarrow> tenant_id \<Rightarrow> agent_id \<Rightarrow> string option \<Rightarrow> string \<Rightarrow> 'v pg_db \<Rightarrow>
   (pg_store_error + agent_record) \<times> 'v pg_db"
where
  "enroll_agent_as x env t a display_name actor_id db =
     (case required_actor_id actor_id of
        Inl err \<Rightarrow> (Inl err, db)
      | Inr actor_id \<Rightarrow>
        let display_name = normalized_display_name display_name in
        with_tx env
          (tx_bind (set_tenant_context x env t) (\<lambda>_.
           tx_bind (require_enabled_tenant x env t) (\<lambda>_.
           tx_bind (lock_tenant env t) (\<lambda>_.
           tx_bind (sql env (AGENT_CARDINALITY_SQL x t a)) (\<lambda>(agent_count, already_enrolled).
           tx_bind (tx_lift (validate_agent_capacity t agent_count already_enrolled)) (\<lambda>_.
           tx_bind (sql env (upsert_agent_row x env t a display_name)) (\<lambda>row.
           tx_bind (tx_lift (agent_record_from_row t row)) (\<lambda>agent.
           tx_bind (sql env (insert_audit x env t actor_id ''agent.enroll'' ''agent''
             (agent_id_str a) [(''display_name'', detail_of_option display_name)])) (\<lambda>_.
           tx_return agent)))))))) ) db)"

definition enroll_agent ::
  "'v ext \<Rightarrow> pg_env \<Rightarrow> tenant_id \<Rightarrow> agent_id \<Rightarrow> string option \<Rightarrow> 'v pg_db \<Rightarrow>
   (pg_store_error + agent_record) \<times> 'v pg_db"
where
  "enroll_agent x env t a display_name db =
     enroll_agent_as x env t a display_name ''client-api'' db"

definition update_agent_enabled ::
  "'v ext \<Rightarrow> pg_env \<Rightarrow> tenant_id \<Rightarrow> agent_id \<Rightarrow> bool \<Rightarrow> timestamp \<Rightarrow> 'v pg_tx \<Rightarrow>
   (sqlx_error + (agent_row \<times> int \<times> int option) option) \<times> 'v pg_tx"
where
  "update_agent_enabled x env t a enabled _ s =
     (let tables = tx_tables s;
          hit = (\<lambda>r. rls x s (ar_tenant_id r) \<and> ar_tenant_id r = tenant_uuid t \<and>
                     ar_agent_id r = agent_id_str a);
          new = (\<lambda>r. r\<lparr>ar_enabled := enabled, ar_updated_at := now_of env\<rparr>)
      in case transpose_option agent_times
           (map_option new (first_row (filter hit (pt_agents tables)))) of
           Inl e \<Rightarrow> (Inl e, s)
         | Inr returned \<Rightarrow> (Inr returned, s\<lparr>tx_tables := tables\<lparr>pt_agents :=
             map (\<lambda>r. if hit r then new r else r) (pt_agents tables)\<rparr>\<rparr>))"

definition set_agent_enabled_as ::
  "'v ext \<Rightarrow> pg_env \<Rightarrow> tenant_id \<Rightarrow> agent_id \<Rightarrow> bool \<Rightarrow> string \<Rightarrow> 'v pg_db \<Rightarrow>
   (pg_store_error + agent_record option) \<times> 'v pg_db"
where
  "set_agent_enabled_as x env t a enabled actor_id db =
     (case required_actor_id actor_id of
        Inl err \<Rightarrow> (Inl err, db)
      | Inr actor_id \<Rightarrow> with_tx env
          (tx_bind (set_tenant_context x env t) (\<lambda>_.
           tx_bind (require_enabled_tenant x env t) (\<lambda>_.
           tx_bind (sql env (update_agent_enabled x env t a enabled)) (\<lambda>row.
           tx_bind (tx_lift (transpose_option (agent_record_from_row t) row)) (\<lambda>agent.
           tx_bind (if agent \<noteq> None
             then sql env (insert_audit x env t actor_id ''agent.set_enabled'' ''agent''
               (agent_id_str a) [(''enabled'', DBool enabled)])
             else tx_return ()) (\<lambda>_.
           tx_return agent)))))) db)"

definition set_agent_enabled ::
  "'v ext \<Rightarrow> pg_env \<Rightarrow> tenant_id \<Rightarrow> agent_id \<Rightarrow> bool \<Rightarrow> 'v pg_db \<Rightarrow>
   (pg_store_error + agent_record option) \<times> 'v pg_db"
where
  "set_agent_enabled x env t a enabled db = set_agent_enabled_as x env t a enabled ''client-api'' db"

section \<open>Stream tickets\<close>

record stream_ticket_grant =
  sg_subject :: string
  sg_authorized_until_unix :: u64

definition cleanup_stream_tickets_in ::
  "'v ext \<Rightarrow> tenant_id \<Rightarrow> timestamp \<Rightarrow> 'v pg_tx \<Rightarrow> (sqlx_error + nat) \<times> 'v pg_tx"
where
  "cleanup_stream_tickets_in x t ts s =
     (let tables = tx_tables s;
          dead = (\<lambda>r. rls x s (ti_tenant_id r) \<and> ti_tenant_id r = tenant_uuid t \<and>
                      (ti_consumed_at r \<noteq> None \<or> ti_expires_at r \<le> ts))
      in (Inr (length (filter dead (pt_tickets tables))),
          s\<lparr>tx_tables := tables\<lparr>pt_tickets := filter (\<lambda>r. \<not> dead r) (pt_tickets tables)\<rparr>\<rparr>))"

definition CREATE_STREAM_TICKET_SQL ::
  "'v ext \<Rightarrow> pg_env \<Rightarrow> uuid \<Rightarrow> tenant_id \<Rightarrow> string \<Rightarrow> int \<Rightarrow> int \<Rightarrow> timestamp \<Rightarrow> 'v pg_tx \<Rightarrow>
   (sqlx_error + nat) \<times> 'v pg_tx"
where
  "CREATE_STREAM_TICKET_SQL x env ticket_id t subject ttl_millis authorized_until_unix ts s =
     (let tables = tx_tables s;
          authorized_until = authorized_until_unix * 1000000;
          row = \<lparr>ti_ticket_id = ticket_id, ti_tenant_id = tenant_uuid t, ti_subject = subject,
                 ti_created_at = now_of env, ti_authorized_until = authorized_until,
                 ti_expires_at = min (ts + ttl_millis * 1000) authorized_until,
                 ti_consumed_at = None\<rparr>
      in
      if \<not> authorized_until > ts then (Inr 0, s)
      else if \<not> rls x s (ti_tenant_id row) then (Inl (SqlViolation ''row-level security''), s)
      else if \<not> ticket_checks row then (Inl (SqlViolation ''stream_tickets check''), s)
      else if ticket_id \<in> set (map ti_ticket_id (pt_tickets tables))
        then (Inl (SqlViolation ''stream_tickets_pkey''), s)
      else if ti_tenant_id row \<notin> set (map tr_id (pt_tenants tables))
        then (Inl (SqlViolation ''stream_tickets_tenant_id_fkey''), s)
      else (Inr 1, s\<lparr>tx_tables := tables\<lparr>pt_tickets := pt_tickets tables @ [row]\<rparr>\<rparr>))"

definition create_stream_ticket ::
  "'v ext \<Rightarrow> pg_env \<Rightarrow> uuid \<Rightarrow> tenant_id \<Rightarrow> string \<Rightarrow> u64 \<Rightarrow> nat \<Rightarrow> 'v pg_db \<Rightarrow>
   (pg_store_error + uuid) \<times> 'v pg_db"
where
  "create_stream_ticket x env random t subject authorized_until_unix ttl db =
     (case and_then (required_stream_ticket_subject subject) (\<lambda>subject.
           and_then (stream_ticket_authorization_unix authorized_until_unix) (\<lambda>authorized.
           map_ok (\<lambda>ttl_millis. (subject, authorized, ttl_millis)) (stream_ticket_ttl_millis ttl))) of
        Inl err \<Rightarrow> (Inl err, db)
      | Inr (subject, authorized, ttl_millis) \<Rightarrow>
        let ticket_id = random in
        with_tx env
          (tx_bind (set_tenant_context x env t) (\<lambda>_.
           tx_bind (require_enabled_tenant x env t) (\<lambda>_.
           tx_bind (sql env (cleanup_stream_tickets_in x t)) (\<lambda>_.
           tx_bind (sql env (CREATE_STREAM_TICKET_SQL x env ticket_id t subject ttl_millis authorized))
             (\<lambda>inserted. if inserted = 0 then tx_lift (Inl StreamTicketAuthorizationExpired)
                         else tx_return ticket_id))))) db)"

definition epoch_seconds :: "timestamp \<Rightarrow> int" where
  "epoch_seconds ts =
     (if 0 \<le> ts then (ts + 500000) div 1000000 else - ((500000 - ts) div 1000000))"

definition CONSUME_STREAM_TICKET_SQL ::
  "'v ext \<Rightarrow> tenant_id \<Rightarrow> uuid \<Rightarrow> timestamp \<Rightarrow> 'v pg_tx \<Rightarrow> (sqlx_error + (string \<times> int) option) \<times> 'v pg_tx"
where
  "CONSUME_STREAM_TICKET_SQL x t ticket_id ts s =
     (let tables = tx_tables s;
          hit = (\<lambda>r. rls x s (ti_tenant_id r) \<and> ti_tenant_id r = tenant_uuid t \<and>
                     ti_ticket_id r = ticket_id \<and> ti_consumed_at r = None \<and> ti_expires_at r > ts)
      in (Inr (map_option (\<lambda>r. (ti_subject r, epoch_seconds (ti_authorized_until r)))
             (first_row (filter hit (pt_tickets tables)))),
          s\<lparr>tx_tables := tables\<lparr>pt_tickets :=
             map (\<lambda>r. if hit r then r\<lparr>ti_consumed_at := Some ts\<rparr> else r) (pt_tickets tables)\<rparr>\<rparr>))"

definition consume_stream_ticket ::
  "'v ext \<Rightarrow> pg_env \<Rightarrow> tenant_id \<Rightarrow> uuid \<Rightarrow> 'v pg_db \<Rightarrow>
   (pg_store_error + stream_ticket_grant option) \<times> 'v pg_db"
where
  "consume_stream_ticket x env t ticket_id db = with_tx env
     (tx_bind (set_tenant_context x env t) (\<lambda>_.
      tx_bind (require_enabled_tenant x env t) (\<lambda>_.
      tx_bind (sql env (CONSUME_STREAM_TICKET_SQL x t ticket_id)) (\<lambda>row.
      tx_lift (transpose_option (\<lambda>(subject, authorized_until_unix).
        map_ok (\<lambda>u. \<lparr>sg_subject = subject, sg_authorized_until_unix = u\<rparr>)
          (from_pg_i64 ''authorized_until_unix'' authorized_until_unix)) row))))) db"

definition cleanup_stream_tickets ::
  "'v ext \<Rightarrow> pg_env \<Rightarrow> tenant_id \<Rightarrow> 'v pg_db \<Rightarrow> (pg_store_error + nat) \<times> 'v pg_db"
where
  "cleanup_stream_tickets x env t db = with_tx env
     (tx_bind (set_tenant_context x env t) (\<lambda>_.
      tx_bind (require_enabled_tenant x env t) (\<lambda>_.
      sql env (cleanup_stream_tickets_in x t)))) db"

section \<open>Lemmas on transactions\<close>

named_theorems tx_simps \<open>successful outcomes of transaction steps\<close>

lemma tx_bind_Inr [tx_simps]:
  "tx_bind m k s = (Inr b, s') \<longleftrightarrow> (\<exists>a t. m s = (Inr a, t) \<and> k a t = (Inr b, s'))"
  by (auto simp: tx_bind_def split: prod.splits sum.splits)

lemma sql_Inr [tx_simps]:
  "sql env q s = (Inr a, t) \<longleftrightarrow> \<not> pe_fault env (tx_stmt s) \<and>
     q (pe_time env (tx_stmt s)) (s\<lparr>tx_stmt := Suc (tx_stmt s)\<rparr>) = (Inr a, t)"
  by (auto simp: sql_def Let_def split: prod.splits sum.splits)

lemma tx_lift_Inr [tx_simps]: "tx_lift r s = (Inr a, t) \<longleftrightarrow> r = Inr a \<and> t = s"
  by (auto simp: tx_lift_def)

lemma tx_return_Inr [tx_simps]: "tx_return b s = (Inr a, t) \<longleftrightarrow> a = b \<and> t = s"
  by (auto simp: tx_return_def)

lemma set_tenant_context_Inr [tx_simps]:
  "set_tenant_context x env t s = (Inr a, s') \<longleftrightarrow> \<not> pe_fault env (tx_stmt s) \<and>
     s' = s\<lparr>tx_stmt := Suc (tx_stmt s), tx_tenant := Some (x_uuid_show x (tenant_uuid t))\<rparr>"
  by (auto simp: set_tenant_context_def sql_Inr)

lemma lock_tenant_Inr [tx_simps]:
  "lock_tenant env t s = (Inr a, s') \<longleftrightarrow> \<not> pe_fault env (tx_stmt s) \<and>
     s' = s\<lparr>tx_stmt := Suc (tx_stmt s), tx_locks := tenant_lock_key t # tx_locks s\<rparr>"
  by (auto simp: lock_tenant_def sql_Inr)

lemma with_tx_Inr:
  "with_tx env m db = (Inr a, db') \<longleftrightarrow> \<not> pe_fault env 0 \<and> pe_commit env = Committed \<and>
     (\<exists>s. m (tx_begin db) = (Inr a, s) \<and> db' = tx_commit s db)"
  by (auto simp: with_tx_def split: sum.splits prod.splits commit_fate.splits)

text \<open>The two ways a transaction can end: nothing but the identity sequences changes, or its
  body succeeded and its tables were installed.\<close>

lemma with_tx_cases:
  assumes "with_tx env m db = (r, db')"
  obtains (unchanged) e where "r = Inl e" "db_tables db' = db_tables db"
      "db_notifications db' = db_notifications db"
      "db' = db \<or> (\<exists>q s. m (tx_begin db) = (q, s) \<and> db' = tx_rollback s db)"
  | (installed) a s where "m (tx_begin db) = (Inr a, s)" "db' = tx_commit s db"
      "r = Inr a \<or> r = Inl (Database SqlFault) \<and> pe_commit env = CommitUnacknowledged"
proof (cases "pe_fault env 0")
  case True
  then show ?thesis using assms by (intro unchanged) (auto simp: with_tx_def)
next
  case False
  obtain q s where q: "m (tx_begin db) = (q, s)" by fastforce
  show ?thesis
  proof (cases q)
    case (Inl e)
    then show ?thesis
      using assms False q by (intro unchanged) (auto simp: with_tx_def tx_rollback_def)
  next
    case (Inr a)
    show ?thesis
    proof (cases "pe_commit env")
      case Committed
      then show ?thesis
        using assms False q Inr by (intro installed) (auto simp: with_tx_def)
    next
      case CommitRejected
      then show ?thesis
        using assms False q Inr by (intro unchanged) (auto simp: with_tx_def tx_rollback_def)
    next
      case CommitUnacknowledged
      then show ?thesis
        using assms False q Inr by (intro installed) (auto simp: with_tx_def)
    qed
  qed
qed

text \<open>Statements that keep a property of the transaction state whatever their outcome.\<close>

definition tx_keeps :: "('v pg_tx \<Rightarrow> bool) \<Rightarrow> ('v, 'a) tx \<Rightarrow> bool" where
  "tx_keeps P m \<longleftrightarrow> (\<forall>s. P s \<longrightarrow> P (snd (m s)))"

named_theorems keeps_intros \<open>composition rules for kept properties\<close>

lemma keeps_bind [keeps_intros]:
  "tx_keeps P m \<Longrightarrow> (\<And>a. tx_keeps P (k a)) \<Longrightarrow> tx_keeps P (tx_bind m k)"
  by (fastforce simp: tx_keeps_def tx_bind_def split: prod.splits sum.splits)

lemma tx_keeps_lift [keeps_intros]: "tx_keeps P (tx_lift r)"
  by (simp add: tx_keeps_def tx_lift_def)

lemma keeps_return [keeps_intros]: "tx_keeps P (tx_return a)"
  by (simp add: tx_keeps_def tx_return_def)

lemma keeps_sql:
  "(\<And>ts s. P s \<Longrightarrow> P (snd (q ts (s\<lparr>tx_stmt := Suc (tx_stmt s)\<rparr>)))) \<Longrightarrow>
   (\<And>s. P s \<Longrightarrow> P (s\<lparr>tx_stmt := Suc (tx_stmt s)\<rparr>)) \<Longrightarrow> tx_keeps P (sql env q)"
  unfolding tx_keeps_def sql_def Let_def
  by (auto split: prod.splits sum.splits) (metis snd_conv)+

lemma keeps_if [keeps_intros]:
  "tx_keeps P m \<Longrightarrow> tx_keeps P n \<Longrightarrow> tx_keeps P (if b then m else n)"
  by simp

lemma keeps_option [keeps_intros]:
  "tx_keeps P m \<Longrightarrow> (\<And>a. tx_keeps P (n a)) \<Longrightarrow> tx_keeps P (case v of None \<Rightarrow> m | Some a \<Rightarrow> n a)"
  by (cases v) auto

lemma keeps_prod [keeps_intros]:
  "(\<And>a b. tx_keeps P (n a b)) \<Longrightarrow> tx_keeps P (case v of (a, b) \<Rightarrow> n a b)"
  by (cases v) auto

lemma keepsD: "tx_keeps P m \<Longrightarrow> P s \<Longrightarrow> m s = (r, s') \<Longrightarrow> P s'"
  unfolding tx_keeps_def by (metis snd_conv)

lemmas statement_defs = REQUIRE_ENABLED_TENANT_SQL_def select_agent_enabled_def select_event_def
  select_projection_def LOAD_ENVELOPES_BOUNDED_SQL_def AGENT_CARDINALITY_SQL_def
  insert_projection_def update_projection_def touch_agent_def pg_notify_def upsert_tenant_row_def
  insert_audit_def upsert_agent_row_def update_agent_enabled_def cleanup_stream_tickets_in_def
  CREATE_STREAM_TICKET_SQL_def CONSUME_STREAM_TICKET_SQL_def

lemmas operation_defs = require_enabled_tenant_def require_enabled_agent_def set_tenant_context_def
  lock_tenant_def existing_outcome_def record_inserted_def append_body_def

text \<open>The UUID crate and the server read the text form of a UUID back.\<close>

definition uuid_ok :: "'v ext \<Rightarrow> bool" where
  "uuid_ok x \<longleftrightarrow> (\<forall>u. x_uuid_show x u \<noteq> [] \<and> x_uuid_parse x (x_uuid_show x u) = Some u)"

lemma rls_tenant:
  "uuid_ok x \<Longrightarrow> tx_tenant s = Some (x_uuid_show x u) \<Longrightarrow> rls x s v \<longleftrightarrow> v = u"
  by (auto simp: uuid_ok_def rls_def)

lemma first_row_Some: "first_row xs = Some r \<Longrightarrow> r \<in> set xs"
  by (auto simp: first_row_def split: list.splits)

lemma first_row_None [simp]: "first_row xs = None \<longleftrightarrow> xs = []"
  by (auto simp: first_row_def split: list.splits)

end
