(* ===== verification/Oidc_Auth.thy ===== *)
theory Oidc_Auth
  imports Server_Config Pg_Store
begin

text \<open>
  Verification of access tokens (\<open>skid-monitor-server/src/auth.rs\<close>). Libraries are the
  argument \<open>ox\<close>: the JWT header decoder, the signature and claim validation of a token, the
  look-up of a signing key, the JSON accessors, and the parser and printer of UUIDs. Time is
  an argument: the wall clock in seconds and the monotonic clock in nanoseconds. An HTTP
  exchange is the response it yields. The verifier's state is its key set and the time of the
  last refresh; a refresh holds the mutex until the response has arrived, so it is one step.
\<close>

section \<open>Types\<close>

definition JWKS_REFRESH_COOLDOWN :: nat where "JWKS_REFRESH_COOLDOWN = secs 5"
definition MAX_AUTHORIZATION_UNIX :: u64 where "MAX_AUTHORIZATION_UNIX = 253402300799"
definition MAX_ACCESS_TOKEN_LIFETIME :: u64 where "MAX_ACCESS_TOKEN_LIFETIME = 24 * 60 * 60"
definition TOKEN_CLOCK_SKEW :: u64 where "TOKEN_CLOCK_SKEW = 30"
definition MAX_DISCOVERY_BYTES :: nat where "MAX_DISCOVERY_BYTES = 64 * 1024"
definition MAX_JWKS_BYTES :: nat where "MAX_JWKS_BYTES = 1024 * 1024"

record authenticated_principal =
  ap_subject :: string
  ap_agent_identity :: "string option"
  ap_tenant_id :: tenant_id
  ap_roles :: "string set"
  ap_preferred_username :: "string option"
  ap_authorized_until_unix :: u64

datatype auth_error =
    MissingBearer
  | InvalidBearer
  | Discovery string
  | KeySet string
  | InvalidToken string
  | InvalidClaims string
  | MissingRole string

text \<open>A JSON value as the code inspects it.\<close>

datatype 'j json_view =
    JNull
  | JBool bool
  | JNumber "u64 option"
  | JString string
  | JArray "'j list"
  | JObject "string \<Rightarrow> 'j option"

record jwt_header =
  jh_alg :: string
  jh_typ :: "string option"
  jh_kid :: "string option"

record validation =
  va_algorithm :: string
  va_leeway :: u64
  va_validate_nbf :: bool
  va_audience :: string
  va_issuer :: string
  va_required :: "string list"

datatype http_response =
    RequestFailed string
  | HttpResponse (hr_content_length: "u64 option") (hr_chunks: "(string + bytes) list")

record discovery_document =
  dd_issuer :: string
  dd_jwks_uri :: string

record ('j, 'k, 's) oidc_ext =
  ox_printable :: "nat \<Rightarrow> bool"
  ox_decode_header :: "string \<Rightarrow> string + jwt_header"
  ox_decode :: "u64 \<Rightarrow> string \<Rightarrow> 'k \<Rightarrow> validation \<Rightarrow> string + 'j"
  ox_find :: "'s \<Rightarrow> string \<Rightarrow> (string + 'k) option"
  ox_pointer :: "'j \<Rightarrow> string \<Rightarrow> 'j option"
  ox_view :: "'j \<Rightarrow> 'j json_view"
  ox_uuid_parse :: "string \<Rightarrow> string + uuid"
  ox_url_parse :: url_parser
  ox_discovery :: "bytes \<Rightarrow> string + discovery_document"
  ox_jwks :: "bytes \<Rightarrow> string + 's"

definition principal_agent_id :: "authenticated_principal \<Rightarrow> auth_error + agent_id" where
  "principal_agent_id p =
     and_then (ok_or (InvalidClaims ''agent identity claim is missing; configure SKID_MONITOR_OIDC_AGENT_ID_POINTER for this provider'')
         (ap_agent_identity p))
       (\<lambda>identity. map_err (\<lambda>e. InvalidClaims (id_error_display e)) (agent_id_new identity))"

definition has_role :: "authenticated_principal \<Rightarrow> string \<Rightarrow> bool" where
  "has_role p role \<longleftrightarrow> role \<in> ap_roles p"

fun auth_error_display :: "(nat \<Rightarrow> bool) \<Rightarrow> auth_error \<Rightarrow> string" where
  "auth_error_display pr MissingBearer = ''bearer token is required''"
| "auth_error_display pr InvalidBearer = ''authorization header is invalid''"
| "auth_error_display pr (Discovery e) = ''OIDC discovery failed: '' @ e"
| "auth_error_display pr (KeySet e) = ''OIDC key refresh failed: '' @ e"
| "auth_error_display pr (InvalidToken e) = ''access token is invalid: '' @ e"
| "auth_error_display pr (InvalidClaims e) = ''access token claims are invalid: '' @ e"
| "auth_error_display pr (MissingRole role) = ''required role '' @ str_debug pr role @ '' is missing''"

section \<open>Claims\<close>

definition as_str :: "('j, 'k, 's) oidc_ext \<Rightarrow> 'j \<Rightarrow> string option" where
  "as_str ox j = (case ox_view ox j of JString s \<Rightarrow> Some s | _ \<Rightarrow> None)"

definition as_u64 :: "('j, 'k, 's) oidc_ext \<Rightarrow> 'j \<Rightarrow> u64 option" where
  "as_u64 ox j = (case ox_view ox j of JNumber n \<Rightarrow> n | _ \<Rightarrow> None)"

definition json_get :: "('j, 'k, 's) oidc_ext \<Rightarrow> string \<Rightarrow> 'j \<Rightarrow> 'j option" where
  "json_get ox key j = (case ox_view ox j of JObject m \<Rightarrow> m key | _ \<Rightarrow> None)"

definition required_string_claim ::
  "('j, 'k, 's) oidc_ext \<Rightarrow> 'j \<Rightarrow> string \<Rightarrow> string \<Rightarrow> nat \<Rightarrow> auth_error + string"
where
  "required_string_claim ox claims pointer label max_bytes =
     ok_or (InvalidClaims (label @ '' claim at '' @ str_debug (ox_printable ox) pointer @
         '' must be a non-empty string of at most '' @ show_nat max_bytes @ '' bytes''))
       (opt_filter (\<lambda>v. v \<noteq> [] \<and> length v \<le> max_bytes \<and> \<not> has_control v)
         (map_option trim (Option.bind (ox_pointer ox claims pointer) (as_str ox))))"

definition optional_string_claim ::
  "('j, 'k, 's) oidc_ext \<Rightarrow> 'j \<Rightarrow> string \<Rightarrow> string \<Rightarrow> nat \<Rightarrow> auth_error + string option"
where
  "optional_string_claim ox claims pointer label max_bytes =
     (case map_option (ox_view ox) (ox_pointer ox claims pointer) of
        None \<Rightarrow> Inr None
      | Some JNull \<Rightarrow> Inr None
      | Some _ \<Rightarrow> map_ok Some (required_string_claim ox claims pointer label max_bytes))"

definition required_u64_claim :: "('j, 'k, 's) oidc_ext \<Rightarrow> 'j \<Rightarrow> string \<Rightarrow> string \<Rightarrow> auth_error + u64" where
  "required_u64_claim ox claims pointer label =
     ok_or (InvalidClaims (label @ '' claim at '' @ str_debug (ox_printable ox) pointer @
         '' must be a non-negative integer''))
       (Option.bind (ox_pointer ox claims pointer) (as_u64 ox))"

definition validate_token_times :: "u64 \<Rightarrow> u64 \<Rightarrow> u64 \<Rightarrow> auth_error + unit" where
  "validate_token_times iat exp now =
     (if exp > MAX_AUTHORIZATION_UNIX \<or> exp \<le> iat \<or> sat_sub exp iat > MAX_ACCESS_TOKEN_LIFETIME \<or>
         iat > sat_add now TOKEN_CLOCK_SKEW \<or>
         exp > sat_add now (MAX_ACCESS_TOKEN_LIFETIME + TOKEN_CLOCK_SKEW)
      then Inl (InvalidClaims ''access token issue/expiry timestamps are outside the accepted range'')
      else Inr ())"

definition valid_role :: "string \<Rightarrow> auth_error + string" where
  "valid_role r =
     (let role = trim r
      in if role = [] \<or> 256 < length role \<or> has_control role
         then Inl (InvalidClaims ''roles must be non-empty strings of at most 256 bytes'')
         else Inr role)"

definition roles_from_claims :: "('j, 'k, 's) oidc_ext \<Rightarrow> oidc_config \<Rightarrow> 'j \<Rightarrow> auth_error + string set" where
  "roles_from_claims ox config claims =
     (let v = (case oc_role_claims config of
            KeycloakResourceAccess \<Rightarrow>
              Option.bind (json_get ox ''resource_access'' claims) (\<lambda>resources.
                Option.bind (json_get ox (oc_audience config) resources) (json_get ox ''roles''))
          | ClaimPointer pointer \<Rightarrow> ox_pointer ox claims pointer)
      in case v of
           None \<Rightarrow> Inr {}
         | Some j \<Rightarrow>
             and_then (case ox_view ox j of
                 JArray js \<Rightarrow> try_map (\<lambda>j. ok_or (InvalidClaims ''role arrays must contain only strings'') (as_str ox j)) js
               | JString s \<Rightarrow> Inr (split_ascii_whitespace s)
               | _ \<Rightarrow> Inl (InvalidClaims ''role claim must be a string or an array of strings''))
               (\<lambda>roles.
                 if 256 < length roles then Inl (InvalidClaims ''role claim contains more than 256 roles'')
                 else map_ok set (try_map valid_role roles)))"

definition agent_identity_claim ::
  "('j, 'k, 's) oidc_ext \<Rightarrow> oidc_config \<Rightarrow> 'j \<Rightarrow> auth_error + string option"
where
  "agent_identity_claim ox config claims =
     (case oc_agent_id_pointer config of
        Some pointer \<Rightarrow> optional_string_claim ox claims pointer ''agent identity'' 255
      | None \<Rightarrow>
          (case opt_or (ox_pointer ox claims ''/azp'') (ox_pointer ox claims ''/client_id'') of
             Some _ \<Rightarrow> optional_string_claim ox claims
                 (if ox_pointer ox claims ''/azp'' \<noteq> None then ''/azp'' else ''/client_id'') ''agent identity'' 255
           | None \<Rightarrow> Inr None))"

definition principal_from_claims ::
  "('j, 'k, 's) oidc_ext \<Rightarrow> oidc_config \<Rightarrow> u64 \<Rightarrow> 'j \<Rightarrow> string \<Rightarrow> auth_error + authenticated_principal"
where
  "principal_from_claims ox config now claims required_role =
     and_then (required_string_claim ox claims ''/sub'' ''sub'' 1024) (\<lambda>subject.
     and_then (required_u64_claim ox claims ''/iat'' ''iat'') (\<lambda>iat.
     and_then (required_u64_claim ox claims ''/exp'' ''exp'') (\<lambda>exp.
     and_then (validate_token_times iat exp now) (\<lambda>_.
     and_then (required_string_claim ox claims (oc_tenant_pointer config) ''tenant identity'' 128) (\<lambda>tenant.
     and_then (map_err (\<lambda>e. InvalidClaims (''invalid tenant id: '' @ e)) (map_ok TenantId (ox_uuid_parse ox tenant))) (\<lambda>tenant_id.
     and_then (agent_identity_claim ox config claims) (\<lambda>agent_identity.
     and_then (roles_from_claims ox config claims) (\<lambda>roles.
     if required_role \<notin> roles then Inl (MissingRole required_role)
     else
       map_ok (\<lambda>preferred_username.
           \<lparr>ap_subject = subject, ap_agent_identity = agent_identity, ap_tenant_id = tenant_id, ap_roles = roles,
            ap_preferred_username = preferred_username, ap_authorized_until_unix = exp\<rparr>)
         (optional_string_claim ox claims ''/preferred_username'' ''preferred_username'' 1024)))))))))"

section \<open>Fetching documents and keys\<close>

fun read_body :: "nat \<Rightarrow> bytes \<Rightarrow> (string + bytes) list \<Rightarrow> string + bytes" where
  "read_body max_bytes body [] = Inr body"
| "read_body max_bytes body (Inl e # r) = Inl e"
| "read_body max_bytes body (Inr chunk # r) =
     (if max_bytes < min (length body + length chunk) (2 ^ 64 - 1)
      then Inl (''JSON response exceeds '' @ show_nat max_bytes @ '' bytes'')
      else read_body max_bytes (body @ chunk) r)"

definition fetch_bounded_json :: "(bytes \<Rightarrow> string + 'a) \<Rightarrow> nat \<Rightarrow> http_response \<Rightarrow> string + 'a" where
  "fetch_bounded_json from_slice max_bytes response =
     (case response of
        RequestFailed e \<Rightarrow> Inl e
      | HttpResponse content_length chunks \<Rightarrow>
          if (case content_length of None \<Rightarrow> False | Some n \<Rightarrow> max_bytes < unat n)
          then Inl (''JSON response exceeds '' @ show_nat max_bytes @ '' bytes'')
          else and_then (read_body max_bytes [] chunks) from_slice)"

definition fetch_keys :: "('j, 'k, 's) oidc_ext \<Rightarrow> http_response \<Rightarrow> auth_error + 's" where
  "fetch_keys ox response = map_err KeySet (fetch_bounded_json (ox_jwks ox) MAX_JWKS_BYTES response)"

definition validated_jwks_uri :: "('j, 'k, 's) oidc_ext \<Rightarrow> oidc_config \<Rightarrow> string \<Rightarrow> auth_error + string" where
  "validated_jwks_uri ox config v =
     (case ox_url_parse ox v of
        None \<Rightarrow> Inl (Discovery ''jwks_uri is not a valid URL'')
      | Some u \<Rightarrow>
          if url_scheme u \<noteq> ''https'' \<or> url_host u = None \<or> url_username u \<noteq> [] \<or> url_password u \<noteq> None \<or>
             url_fragment u \<noteq> None \<or> url_origin u \<noteq> oc_jwks_origin config
          then Inl (Discovery ''jwks_uri must use the configured HTTPS JWKS origin without credentials or a fragment'')
          else Inr (url_text u))"

section \<open>The verifier\<close>

record 's oidc_verifier =
  ov_config :: oidc_config
  ov_jwks_uri :: string
  ov_keys :: 's
  ov_poisoned :: bool
  ov_last_jwks_refresh :: nat

text \<open>\<open>get\<close> is the network: the response to a request for a URL. The client is built with an
  HTTPS-only policy and without redirects.\<close>

definition discover ::
  "('j, 'k, 's) oidc_ext \<Rightarrow> (string \<Rightarrow> http_response) \<Rightarrow> nat \<Rightarrow> oidc_config \<Rightarrow> auth_error + 's oidc_verifier"
where
  "discover ox get now config =
     and_then (map_err Discovery (fetch_bounded_json (ox_discovery ox) MAX_DISCOVERY_BYTES
         (get (oc_issuer config @ ''/.well-known/openid-configuration'')))) (\<lambda>document.
     if trim_end_char (CHR ''/'') (dd_issuer document) \<noteq> oc_issuer config
     then Inl (Discovery (''provider issuer '' @ str_debug (ox_printable ox) (dd_issuer document) @
         '' did not match configured issuer '' @ str_debug (ox_printable ox) (oc_issuer config)))
     else
       and_then (validated_jwks_uri ox config (dd_jwks_uri document)) (\<lambda>jwks_uri.
       map_ok (\<lambda>keys.
           \<lparr>ov_config = config, ov_jwks_uri = jwks_uri, ov_keys = keys, ov_poisoned = False,
            ov_last_jwks_refresh = now\<rparr>)
         (fetch_keys ox (get jwks_uri))))"

definition find_key :: "('j, 'k, 's) oidc_ext \<Rightarrow> string \<Rightarrow> 's oidc_verifier \<Rightarrow> auth_error + 'k option" where
  "find_key ox kid v =
     (if ov_poisoned v then Inl (KeySet ''JWKS lock poisoned'')
      else map_err InvalidToken (transpose_result (ox_find ox (ov_keys v) kid)))"

definition no_key :: "('j, 'k, 's) oidc_ext \<Rightarrow> string \<Rightarrow> auth_error" where
  "no_key ox kid = InvalidToken (''no signing key matches token kid '' @ str_debug (ox_printable ox) kid)"

text \<open>One look-up: \<open>t_check\<close> is the clock when the cooldown is compared, \<open>t_refresh\<close> when the
  refresh is stamped, \<open>response\<close> what a refresh would fetch. A first look at the keys happens
  before the mutex is taken, a second one after.\<close>

record refresh_env =
  re_check :: nat
  re_refresh :: nat
  re_response :: http_response

definition decoding_key ::
  "('j, 'k, 's) oidc_ext \<Rightarrow> refresh_env \<Rightarrow> string \<Rightarrow> 's oidc_verifier \<Rightarrow> (auth_error + 'k) \<times> 's oidc_verifier"
where
  "decoding_key ox env kid v =
     (case find_key ox kid v of
        Inl e \<Rightarrow> (Inl e, v)
      | Inr (Some key) \<Rightarrow> (Inr key, v)
      | Inr None \<Rightarrow>
          if re_check env - ov_last_jwks_refresh v < JWKS_REFRESH_COOLDOWN then (Inl (no_key ox kid), v)
          else
            (let v1 = v\<lparr>ov_last_jwks_refresh := re_refresh env\<rparr>
             in case fetch_keys ox (re_response env) of
                  Inl e \<Rightarrow> (Inl e, v1)
                | Inr keys \<Rightarrow>
                    (let v2 = v1\<lparr>ov_keys := keys\<rparr>
                     in (and_then (find_key ox kid v2) (ok_or (no_key ox kid)), v2))))"

definition bearer_token :: "string \<Rightarrow> auth_error + string" where
  "bearer_token authorization =
     (case split_whitespace authorization of
        [] \<Rightarrow> Inl MissingBearer
      | [_] \<Rightarrow> Inl MissingBearer
      | scheme # token # r \<Rightarrow>
          if \<not> eq_ignore_ascii_case scheme ''Bearer'' \<or> token = [] \<or> r \<noteq> [] then Inl InvalidBearer
          else Inr token)"

definition token_validation :: "oidc_config \<Rightarrow> validation" where
  "token_validation config =
     \<lparr>va_algorithm = ''RS256'', va_leeway = TOKEN_CLOCK_SKEW, va_validate_nbf = True,
      va_audience = oc_audience config, va_issuer = oc_issuer config,
      va_required = [''exp'', ''iat'', ''iss'', ''aud'', ''sub'']\<rparr>"

definition token_kid :: "('j, 'k, 's) oidc_ext \<Rightarrow> string \<Rightarrow> auth_error + string" where
  "token_kid ox token =
     and_then (map_err InvalidToken (ox_decode_header ox token)) (\<lambda>header.
       if jh_alg header \<noteq> ''RS256'' then Inl (InvalidToken ''only RS256 access tokens are accepted'')
       else case jh_typ header of
         Some typ \<Rightarrow>
           if typ \<noteq> ''JWT'' \<and> typ \<noteq> ''at+jwt''
           then Inl (InvalidToken (''unsupported token type '' @ str_debug (ox_printable ox) typ))
           else ok_or (InvalidToken ''token header has no kid'') (jh_kid header)
       | None \<Rightarrow> ok_or (InvalidToken ''token header has no kid'') (jh_kid header))"

definition verify_bearer_for_role ::
  "('j, 'k, 's) oidc_ext \<Rightarrow> refresh_env \<Rightarrow> u64 \<Rightarrow> string \<Rightarrow> string \<Rightarrow> 's oidc_verifier \<Rightarrow>
   (auth_error + authenticated_principal) \<times> 's oidc_verifier"
where
  "verify_bearer_for_role ox env now authorization required_role v =
     (case and_then (bearer_token authorization) (\<lambda>token. map_ok (\<lambda>kid. (token, kid)) (token_kid ox token)) of
        Inl e \<Rightarrow> (Inl e, v)
      | Inr (token, kid) \<Rightarrow>
          (case decoding_key ox env kid v of
             (Inl e, v') \<Rightarrow> (Inl e, v')
           | (Inr key, v') \<Rightarrow>
               (and_then (map_err InvalidToken (ox_decode ox now token key (token_validation (ov_config v))))
                  (\<lambda>claims. principal_from_claims ox (ov_config v) now claims required_role), v')))"

definition verify_bearer ::
  "('j, 'k, 's) oidc_ext \<Rightarrow> refresh_env \<Rightarrow> u64 \<Rightarrow> string \<Rightarrow> 's oidc_verifier \<Rightarrow>
   (auth_error + authenticated_principal) \<times> 's oidc_verifier"
where
  "verify_bearer ox env now authorization v =
     verify_bearer_for_role ox env now authorization (oc_required_role (ov_config v)) v"

section \<open>Lemmas\<close>

definition clean_text :: "nat \<Rightarrow> string \<Rightarrow> bool" where
  "clean_text n s \<longleftrightarrow> s \<noteq> [] \<and> trim s = s \<and> length s \<le> n \<and> \<not> has_control s"

lemma required_string_claim_Inr:
  "required_string_claim ox claims pointer label n = Inr s \<Longrightarrow> clean_text n s"
  by (auto simp: required_string_claim_def clean_text_def result_simps trim_idem)

lemma optional_string_claim_Inr:
  "optional_string_claim ox claims pointer label n = Inr (Some s) \<Longrightarrow> clean_text n s"
  by (auto simp: optional_string_claim_def result_simps dest: required_string_claim_Inr
      split: option.splits json_view.splits)

lemma valid_role_Inr: "valid_role r = Inr s \<Longrightarrow> clean_text 256 s"
  by (auto simp: valid_role_def Let_def clean_text_def trim_idem split: if_splits)

lemma roles_from_claims_Inr:
  assumes "roles_from_claims ox config claims = Inr roles" and "r \<in> roles"
  shows "clean_text 256 r"
  using assms
  by (auto simp: roles_from_claims_def Let_def result_simps in_set_conv_nth try_map_Inr_iff list_all2_conv_all_nth
      dest!: valid_role_Inr split: option.splits if_splits)

lemma validate_token_times_Inr:
  assumes "validate_token_times iat exp now = Inr r"
  shows "unat iat < unat exp \<and> unat exp \<le> unat iat + 24 * 60 * 60 \<and>
    unat iat \<le> unat now + 30 \<and> unat exp \<le> unat now + 24 * 60 * 60 + 30 \<and> unat exp \<le> 253402300799"
proof -
  have le: "unat a \<le> unat n + unat b" if "a \<le> sat_add n b" for a n b :: u64
  proof -
    have "unat a \<le> unat (sat_add n b)" using that by (simp add: word_le_nat_alt)
    then show ?thesis by (simp add: unat_sat_add)
  qed
  have parts: "exp \<le> MAX_AUTHORIZATION_UNIX" "iat < exp" "sat_sub exp iat \<le> MAX_ACCESS_TOKEN_LIFETIME"
    "iat \<le> sat_add now TOKEN_CLOCK_SKEW" "exp \<le> sat_add now (MAX_ACCESS_TOKEN_LIFETIME + TOKEN_CLOCK_SKEW)"
    using assms by (auto simp: validate_token_times_def not_less not_le split: if_splits)
  have "unat (sat_sub exp iat) \<le> 86400"
    using parts(3) by (simp add: MAX_ACCESS_TOKEN_LIFETIME_def word_le_nat_alt)
  then show ?thesis
    using le [OF parts(4)] le [OF parts(5)] parts(1,2)
    by (simp add: unat_sat_sub TOKEN_CLOCK_SKEW_def MAX_ACCESS_TOKEN_LIFETIME_def MAX_AUTHORIZATION_UNIX_def
        word_le_nat_alt word_less_nat_alt)
qed

lemma decoding_key_Inr:
  assumes "decoding_key ox env kid v = (Inr key, v')"
  shows "find_key ox kid v' = Inr (Some key) \<and> ov_config v' = ov_config v"
  using assms
  by (auto simp: decoding_key_def Let_def result_simps split: sum.splits option.splits if_splits)

lemma decoding_key_stamp:
  assumes "ov_last_jwks_refresh v \<le> re_check env" and "re_check env \<le> re_refresh env"
    and "ov_last_jwks_refresh (snd (decoding_key ox env kid v)) \<noteq> ov_last_jwks_refresh v"
  shows "ov_last_jwks_refresh (snd (decoding_key ox env kid v)) = re_refresh env \<and>
    ov_last_jwks_refresh v + JWKS_REFRESH_COOLDOWN \<le> re_refresh env"
  using assms
  by (auto simp: decoding_key_def Let_def not_less le_diff_conv2 split: sum.splits option.splits if_splits)

lemma decoding_key_offline:
  assumes "re_check env \<le> re_refresh env"
    and "ov_last_jwks_refresh (snd (decoding_key ox env kid v)) = ov_last_jwks_refresh v"
  shows "decoding_key ox (env\<lparr>re_response := r\<rparr>) kid v = decoding_key ox env kid v"
proof -
  have "re_refresh env \<noteq> ov_last_jwks_refresh v" if "\<not> re_check env - ov_last_jwks_refresh v < JWKS_REFRESH_COOLDOWN"
    using that assms(1) by (auto simp: JWKS_REFRESH_COOLDOWN_def secs_def)
  then show ?thesis
    using assms(2) by (auto simp: decoding_key_def Let_def split: sum.splits option.splits if_splits)
qed

text \<open>A run of look-ups: how many of them stamped a refresh, and the verifier they leave.\<close>

fun key_lookups ::
  "('j, 'k, 's) oidc_ext \<Rightarrow> (refresh_env \<times> string) list \<Rightarrow> 's oidc_verifier \<Rightarrow> nat \<times> 's oidc_verifier"
where
  "key_lookups ox [] v = (0, v)"
| "key_lookups ox ((env, kid) # calls) v =
     (let v' = snd (decoding_key ox env kid v); (n, w) = key_lookups ox calls v'
      in ((if ov_last_jwks_refresh v' = ov_last_jwks_refresh v then n else Suc n), w))"

fun clock_ok :: "nat \<Rightarrow> (refresh_env \<times> string) list \<Rightarrow> bool" where
  "clock_ok t [] \<longleftrightarrow> True"
| "clock_ok t ((env, kid) # calls) \<longleftrightarrow> t \<le> re_check env \<and> re_check env \<le> re_refresh env \<and> clock_ok (re_refresh env) calls"

lemma key_lookups_rate:
  assumes "clock_ok t calls" and "ov_last_jwks_refresh v \<le> t" and "key_lookups ox calls v = (n, w)"
  shows "ov_last_jwks_refresh v + n * JWKS_REFRESH_COOLDOWN \<le> ov_last_jwks_refresh w"
  using assms
proof (induction calls arbitrary: t v n)
  case (Cons call calls)
  obtain env kid where call: "call = (env, kid)" by fastforce
  let ?v = "snd (decoding_key ox env kid v)"
  obtain k where k: "key_lookups ox calls ?v = (k, w)"
    "n = (if ov_last_jwks_refresh ?v = ov_last_jwks_refresh v then k else Suc k)"
    using Cons.prems(3) by (auto simp: call Let_def split: prod.splits)
  have clock: "ov_last_jwks_refresh v \<le> re_check env" "re_check env \<le> re_refresh env"
    "clock_ok (re_refresh env) calls"
    using Cons.prems(1,2) by (auto simp: call)
  show ?case
  proof (cases "ov_last_jwks_refresh ?v = ov_last_jwks_refresh v")
    case True
    then show ?thesis
      using Cons.IH [OF clock(3) _ k(1)] clock k(2) by simp
  next
    case False
    then have "ov_last_jwks_refresh ?v = re_refresh env"
      "ov_last_jwks_refresh v + JWKS_REFRESH_COOLDOWN \<le> re_refresh env"
      using decoding_key_stamp [OF clock(1,2)] by auto
    then show ?thesis
      using Cons.IH [OF clock(3) _ k(1)] k(2) False by simp
  qed
qed simp

lemma principal_from_claims_Inr:
  assumes "principal_from_claims ox config now claims role = Inr p"
  shows "role \<in> ap_roles p \<and> clean_text 1024 (ap_subject p) \<and> (\<forall>r \<in> ap_roles p. clean_text 256 r) \<and>
    (\<exists>iat :: u64. unat iat < unat (ap_authorized_until_unix p) \<and>
      unat (ap_authorized_until_unix p) \<le> unat iat + 24 * 60 * 60 \<and> unat iat \<le> unat now + 30) \<and>
    unat (ap_authorized_until_unix p) \<le> unat now + 24 * 60 * 60 + 30 \<and>
    unat (ap_authorized_until_unix p) \<le> 253402300799"
proof -
  obtain subject iat exp roles where p:
    "required_string_claim ox claims ''/sub'' ''sub'' 1024 = Inr subject" "ap_subject p = subject"
    "validate_token_times iat exp now = Inr ()" "ap_authorized_until_unix p = exp"
    "roles_from_claims ox config claims = Inr roles" "ap_roles p = roles" "role \<in> roles"
    using assms unfolding principal_from_claims_def by (auto simp: result_simps split: if_splits)
  show ?thesis
    using required_string_claim_Inr [OF p(1)] roles_from_claims_Inr [OF p(5)]
      validate_token_times_Inr [OF p(3)] p(7) unfolding p(2,4,6) by blast
qed

section \<open>An example instance\<close>

definition ex_json :: "nat \<Rightarrow> nat json_view" where
  "ex_json j = (if j = 1 then JString ''u'' else if j = 2 then JNumber (Some 100)
     else if j = 3 then JNumber (Some 200) else if j = 4 then JString ''t'' else if j = 5 then JString ''reader''
     else if j = 6 then JString ''a'' else JNull)"

definition ex_ox :: "(nat, unit, unit) oidc_ext" where
  "ex_ox =
     \<lparr>ox_printable = (\<lambda>_. True),
      ox_decode_header = (\<lambda>_. Inr \<lparr>jh_alg = ''RS256'', jh_typ = None, jh_kid = Some ''k''\<rparr>),
      ox_decode = (\<lambda>now token key va. Inr 0), ox_find = (\<lambda>_ kid. if kid = ''k'' then Some (Inr ()) else None),
      ox_pointer = (\<lambda>_ p. map_of [(''/sub'', 1), (''/iat'', 2), (''/exp'', 3), (''/tenant_id'', 4), (''/roles'', 5), (''/azp'', 6)] p),
      ox_view = ex_json, ox_uuid_parse = (\<lambda>_. Inr 7), ox_url_parse = (\<lambda>_. None),
      ox_discovery = (\<lambda>_. Inl []), ox_jwks = (\<lambda>_. Inr ())\<rparr>"

definition ex_oidc_config :: oidc_config where
  "ex_oidc_config =
     \<lparr>oc_issuer = ''i'', oc_jwks_origin = ''o'', oc_audience = ''a'', oc_required_role = ''reader'',
      oc_tenant_pointer = ''/tenant_id'', oc_role_claims = ClaimPointer ''/roles'', oc_agent_id_pointer = None\<rparr>"

definition ex_verifier :: "unit oidc_verifier" where
  "ex_verifier =
     \<lparr>ov_config = ex_oidc_config, ov_jwks_uri = ''j'', ov_keys = (), ov_poisoned = False, ov_last_jwks_refresh = 0\<rparr>"

definition ex_refresh :: refresh_env where
  "ex_refresh = \<lparr>re_check = secs 6, re_refresh = secs 6, re_response = HttpResponse None []\<rparr>"

definition ex_principal :: authenticated_principal where
  "ex_principal =
     \<lparr>ap_subject = ''u'', ap_agent_identity = Some ''a'', ap_tenant_id = TenantId 7, ap_roles = {''reader''},
      ap_preferred_username = None, ap_authorized_until_unix = 200\<rparr>"

lemma ex_ox_fields:
  "ox_pointer ex_ox 0 ''/azp'' = Some 6" "ox_uuid_parse ex_ox s = Inr 7" "ox_decode ex_ox n s k va = Inr 0"
  "ox_decode_header ex_ox s = Inr \<lparr>jh_alg = ''RS256'', jh_typ = None, jh_kid = Some ''k''\<rparr>"
  "ox_find ex_ox () ''k'' = Some (Inr ())"
  by (simp_all add: ex_ox_def)

lemma ex_trim: "trim ''u'' = ''u''" "trim ''a'' = ''a''" "trim ''t'' = ''t''" "trim ''reader'' = ''reader''"
  "split_ascii_whitespace ''reader'' = [''reader'']" "split_whitespace ''Bearer x'' = [''Bearer'', ''x'']"
  "eq_ignore_ascii_case ''Bearer'' ''Bearer''"
  by code_simp+

lemma ex_times: "validate_token_times 100 200 150 = Inr ()"
  by (simp add: validate_token_times_def sat_sub_def sat_add_def MAX_AUTHORIZATION_UNIX_def
      MAX_ACCESS_TOKEN_LIFETIME_def TOKEN_CLOCK_SKEW_def)

lemma ex_verified:
  "verify_bearer_for_role ex_ox ex_refresh 150 ''Bearer x'' ''reader'' ex_verifier = (Inr ex_principal, ex_verifier)"
proof -
  have "required_string_claim ex_ox 0 ''/sub'' ''sub'' 1024 = Inr ''u''"
    "required_string_claim ex_ox 0 ''/tenant_id'' ''tenant identity'' 128 = Inr ''t''"
    "optional_string_claim ex_ox 0 ''/azp'' ''agent identity'' 255 = Inr (Some ''a'')"
    "optional_string_claim ex_ox 0 ''/preferred_username'' ''preferred_username'' 1024 = Inr None"
    "required_u64_claim ex_ox 0 ''/iat'' ''iat'' = Inr 100" "required_u64_claim ex_ox 0 ''/exp'' ''exp'' = Inr 200"
    "roles_from_claims ex_ox ex_oidc_config 0 = Inr {''reader''}"
    by (simp_all add: required_string_claim_def optional_string_claim_def required_u64_claim_def
        roles_from_claims_def ex_oidc_config_def ex_ox_def ex_json_def as_str_def as_u64_def ex_trim
        valid_role_def code_def)
  then have "principal_from_claims ex_ox ex_oidc_config 150 0 ''reader'' = Inr ex_principal"
    by (simp add: principal_from_claims_def agent_identity_claim_def ex_times ex_ox_fields
        ex_principal_def ex_oidc_config_def)
  then show ?thesis
    by (simp add: verify_bearer_for_role_def bearer_token_def token_kid_def decoding_key_def find_key_def ex_trim
        ex_verifier_def ex_ox_fields)
qed

section \<open>Properties\<close>



text \<open>C35: unknown key ids cannot make the service flood the identity provider: over any run of
  key look-ups with a monotonic clock at most one request per five seconds is sent, counted
  from the refresh before the run, and a look-up that stamps no refresh does not depend on the
  network at all.\<close>

theorem jwks_refresh_is_rate_limited:
  assumes "clock_ok (ov_last_jwks_refresh v) calls" and "key_lookups ox calls v = (n, w)"
  shows "n * secs 5 \<le> ov_last_jwks_refresh w - ov_last_jwks_refresh v \<and>
    (\<forall>env kid u r. re_check env \<le> re_refresh env \<and>
       ov_last_jwks_refresh (snd (decoding_key ox env kid u)) = ov_last_jwks_refresh u \<longrightarrow>
       decoding_key ox (env\<lparr>re_response := r\<rparr>) kid u = decoding_key ox env kid u)"
  using key_lookups_rate [OF assms(1) order_refl assms(2)] decoding_key_offline
  by (auto simp: JWKS_REFRESH_COOLDOWN_def)

theorem jwks_refresh_is_rate_limited_witness:
  "\<exists>w. key_lookups ex_ox [(ex_refresh, ''x''), (ex_refresh, ''y'')] ex_verifier = (1, w) \<and>
     1 * secs 5 \<le> ov_last_jwks_refresh w"
proof -
  let ?calls = "[(ex_refresh, ''x''), (ex_refresh, ''y'')]"
  have run: "key_lookups ex_ox ?calls ex_verifier = (1, ex_verifier\<lparr>ov_last_jwks_refresh := secs 6\<rparr>)"
    by (simp add: decoding_key_def find_key_def ex_ox_def ex_verifier_def ex_refresh_def secs_def
        JWKS_REFRESH_COOLDOWN_def fetch_keys_def fetch_bounded_json_def)
  have "clock_ok (ov_last_jwks_refresh ex_verifier) ?calls"
    by (simp add: ex_verifier_def ex_refresh_def)
  from jwks_refresh_is_rate_limited [OF this run] show ?thesis
    using run by (intro exI [of _ "ex_verifier\<lparr>ov_last_jwks_refresh := secs 6\<rparr>"])
      (simp add: ex_verifier_def)
qed

end
