(* ===== verification/Store_Facts.thy ===== *)
theory Store_Facts
  imports Pg_Store
begin

text \<open>
  Correctness of the PostgreSQL store: what a successful append and a replay are in terms of
  the tables, the invariant of the tables under every operation, the refinement of the
  event table by an abstract append-only log per tenant, one-time tickets and the agent limit.
\<close>

section \<open>Sequences only grow\<close>

definition seq_ge :: "int \<Rightarrow> 'v pg_tx \<Rightarrow> bool" where
  "seq_ge k s \<longleftrightarrow> k \<le> tx_event_seq s \<and> tx_event_seq s \<le> 2 ^ 63 - 1"

lemma seq_sql:
  assumes "\<And>ts s. seq_ge k s \<Longrightarrow> seq_ge k (snd (q ts s))"
  shows "tx_keeps (seq_ge k) (sql env q)"
proof (rule keeps_sql)
  show step: "seq_ge k (s\<lparr>tx_stmt := Suc (tx_stmt s)\<rparr>)" if "seq_ge k s" for s
    using that by (simp add: seq_ge_def)
  show "seq_ge k (snd (q ts (s\<lparr>tx_stmt := Suc (tx_stmt s)\<rparr>)))" if "seq_ge k s" for ts s
    using assms step [OF that] by blast
qed

lemma seq_statement [keeps_intros]:
  "tx_keeps (seq_ge k) (sql env (REQUIRE_ENABLED_TENANT_SQL x t))"
  "tx_keeps (seq_ge k) (sql env (select_agent_enabled x t a))"
  "tx_keeps (seq_ge k) (sql env (select_event x t a sq))"
  "tx_keeps (seq_ge k) (sql env (select_projection x t))"
  "tx_keeps (seq_ge k) (sql env (insert_projection x env t v))"
  "tx_keeps (seq_ge k) (sql env (update_projection x env t c v))"
  "tx_keeps (seq_ge k) (sql env (touch_agent x env t a))"
  "tx_keeps (seq_ge k) (sql env (pg_notify t cur))"
  "tx_keeps (seq_ge k) (sql env (LOAD_ENVELOPES_BOUNDED_SQL x t af l b))"
  "tx_keeps (seq_ge k) (sql env (AGENT_CARDINALITY_SQL x t a))"
  "tx_keeps (seq_ge k) (sql env (upsert_tenant_row x env t sl dn))"
  "tx_keeps (seq_ge k) (sql env (insert_audit x env t ac an tt ti de))"
  "tx_keeps (seq_ge k) (sql env (upsert_agent_row x env t a od))"
  "tx_keeps (seq_ge k) (sql env (update_agent_enabled x env t a en))"
  "tx_keeps (seq_ge k) (sql env (cleanup_stream_tickets_in x t))"
  "tx_keeps (seq_ge k) (sql env (CREATE_STREAM_TICKET_SQL x env tk t sl ttl au))"
  "tx_keeps (seq_ge k) (sql env (CONSUME_STREAM_TICKET_SQL x t tk))"
  "tx_keeps (seq_ge k) (set_tenant_context x env t)"
  "tx_keeps (seq_ge k) (lock_tenant env t)"
  unfolding set_tenant_context_def lock_tenant_def
  by (rule seq_sql, simp add: statement_defs Let_def seq_ge_def split: option.splits sum.splits)+

lemma seq_pure [keeps_intros]: "tx_keeps (seq_ge k) (sql env (\<lambda>ts s. (f ts s, s)))"
  by (rule seq_sql) simp

lemma seq_insert_event [keeps_intros]:
  "tx_keeps (seq_ge k) (sql env (insert_event x env t e v n))"
  by (rule seq_sql) (simp add: insert_event_def Let_def seq_ge_def split: option.splits)

lemma seq_append: "tx_keeps (seq_ge k) (append_body x env t e p)"
  unfolding append_body_def require_enabled_tenant_def require_enabled_agent_def
    existing_outcome_def record_inserted_def
  by (intro keeps_intros)

section \<open>A successful append\<close>

lemma require_enabled_tenant_Inr:
  assumes "require_enabled_tenant x env t s = (Inr a, s')"
  shows "s' = s\<lparr>tx_stmt := Suc (tx_stmt s)\<rparr> \<and>
    (\<exists>r \<in> set (pt_tenants (tx_tables s)). tr_id r = tenant_uuid t \<and> tr_enabled r)"
  using assms first_row_Some
  by (fastforce simp: require_enabled_tenant_def tx_simps REQUIRE_ENABLED_TENANT_SQL_def
      split: option.splits bool.splits)

lemma require_enabled_agent_Inr:
  assumes "require_enabled_agent x env t ag s = (Inr a, s')"
  shows "s' = s\<lparr>tx_stmt := Suc (tx_stmt s)\<rparr> \<and>
    (\<exists>r \<in> set (pt_agents (tx_tables s)). ar_tenant_id r = tenant_uuid t \<and>
       ar_agent_id r = agent_id_str ag \<and> ar_enabled r)"
  using assms first_row_Some
  by (fastforce simp: require_enabled_agent_def tx_simps select_agent_enabled_def
      split: option.splits bool.splits)

lemma insert_event_None:
  assumes "insert_event x env t e v n ts s = (Inr None, s')"
  shows "s' = s\<lparr>tx_event_seq := tx_event_seq s + 1\<rparr> \<and> tx_event_seq s < 2 ^ 63 - 1 \<and>
    (tenant_uuid t, agent_id_str (env_agent_id e), unat (env_sequence e)) \<in>
      set (map event_key (pt_events (tx_tables s)))"
  using assms
  by (auto simp: insert_event_def Let_def event_row_of_def event_key_def numeric_of_text_def show_u64_def
      split: option.splits if_splits)

lemma insert_event_Some:
  assumes "insert_event x env t e v n ts s = (Inr (Some c), s')"
  shows "c = tx_event_seq s + 1 \<and> c \<le> 2 ^ 63 - 1 \<and> (\<exists>stored. x_jsonb x v = Some stored \<and>
      event_checks x (event_row_of env t e stored n c) \<and>
      s' = s\<lparr>tx_event_seq := c, tx_tables := (tx_tables s)\<lparr>pt_events :=
        pt_events (tx_tables s) @ [event_row_of env t e stored n c]\<rparr>\<rparr>) \<and>
    (tenant_uuid t, agent_id_str (env_agent_id e), unat (env_sequence e)) \<notin>
      set (map event_key (pt_events (tx_tables s))) \<and>
    (tenant_uuid t, event_uuid (env_event_id e)) \<notin>
      set (map (\<lambda>r. (er_tenant_id r, er_event_id r)) (pt_events (tx_tables s))) \<and>
    tenant_uuid t \<in> set (map tr_id (pt_tenants (tx_tables s))) \<and>
    (tenant_uuid t, agent_id_str (env_agent_id e)) \<in>
      set (map (\<lambda>r. (ar_tenant_id r, ar_agent_id r)) (pt_agents (tx_tables s)))"
  using assms
  by (auto simp: insert_event_def Let_def event_row_of_def event_key_def numeric_of_text_def show_u64_def
      split: option.splits if_splits)

lemma select_event_Inr:
  assumes "select_event x t a sq ts s = (Inr row, s')"
  shows "s' = s \<and> row \<in> set (pt_events (tx_tables s)) \<and>
    event_key row = (tenant_uuid t, agent_id_str a, numeric_of_text sq)"
  using assms first_row_Some
  by (fastforce simp: select_event_def event_key_def split: option.splits)

lemma existing_outcome_Inr:
  assumes "existing_outcome x env t e v s = (Inr out, s')"
  shows "s' = s\<lparr>tx_stmt := Suc (tx_stmt s)\<rparr> \<and> \<not> ao_inserted out \<and>
    (\<exists>row \<in> set (pt_events (tx_tables s)).
       event_key row = (tenant_uuid t, agent_id_str (env_agent_id e), unat (env_sequence e)) \<and>
       er_signal_kind row = signal_kind_name e \<and> er_payload row = v \<and>
       cursor_from_row (er_cursor row) = Inr (ao_cursor out))"
  using assms
  by (auto simp: existing_outcome_def tx_simps numeric_of_text_def show_u64_def split: if_splits
      dest!: select_event_Inr)

lemma cursor_from_row_Inr: "cursor_from_row c = Inr w \<longleftrightarrow> 0 \<le> c \<and> w = word_of_int c"
  by (auto simp: cursor_from_row_def from_pg_i64_def split: if_splits)

definition touched :: "pg_env \<Rightarrow> tenant_id \<Rightarrow> agent_id \<Rightarrow> agent_row list \<Rightarrow> agent_row list" where
  "touched env t a rows = map (\<lambda>r.
     if ar_tenant_id r = tenant_uuid t \<and> ar_agent_id r = agent_id_str a
     then r\<lparr>ar_last_seen_at := Some (now_of env), ar_updated_at := now_of env\<rparr> else r) rows"

definition initial_projection ::
  "pg_env \<Rightarrow> tenant_id \<Rightarrow> 'v \<Rightarrow> 'v projection_row list \<Rightarrow> 'v projection_row list"
where
  "initial_projection env t v rows =
     (if tenant_uuid t \<in> set (map pr_tenant_id rows) then rows
      else rows @ [\<lparr>pr_tenant_id = tenant_uuid t, pr_last_cursor = 0, pr_projection = v,
                    pr_updated_at = now_of env\<rparr>])"

definition advanced ::
  "pg_env \<Rightarrow> tenant_id \<Rightarrow> int \<Rightarrow> 'v \<Rightarrow> 'v projection_row list \<Rightarrow> 'v projection_row list"
where
  "advanced env t c v rows = map (\<lambda>r.
     if pr_tenant_id r = tenant_uuid t
     then r\<lparr>pr_last_cursor := max (pr_last_cursor r) c, pr_projection := v,
            pr_updated_at := now_of env\<rparr> else r) rows"

lemma insert_projection_Inr:
  assumes "insert_projection x env t v ts s = (Inr a, s')"
  obtains stored where "x_jsonb x v = Some stored"
    "s' = s\<lparr>tx_tables := (tx_tables s)\<lparr>pt_projections :=
       initial_projection env t stored (pt_projections (tx_tables s))\<rparr>\<rparr>"
  using assms
  by (auto simp: insert_projection_def Let_def initial_projection_def split: option.splits if_splits)

lemma update_projection_Inr:
  assumes "update_projection x env t c v ts s = (Inr a, s')" and "uuid_ok x"
    and "tx_tenant s = Some (x_uuid_show x (tenant_uuid t))"
  obtains stored where "x_jsonb x v = Some stored"
    "s' = s\<lparr>tx_tables := (tx_tables s)\<lparr>pt_projections :=
       advanced env t c stored (pt_projections (tx_tables s))\<rparr>\<rparr>"
  using assms
  by (auto simp: update_projection_def Let_def advanced_def rls_tenant split: option.splits if_splits
      cong: if_cong)

lemma touch_agent_Inr:
  assumes "touch_agent x env t ag ts s = (Inr a, s')" and "uuid_ok x"
    and "tx_tenant s = Some (x_uuid_show x (tenant_uuid t))"
  shows "s' = s\<lparr>tx_tables := (tx_tables s)\<lparr>pt_agents :=
       touched env t ag (pt_agents (tx_tables s))\<rparr>\<rparr>"
  using assms by (auto simp: touch_agent_def Let_def touched_def rls_tenant cong: if_cong)

lemma select_projection_Inr:
  assumes "select_projection x t ts s = (Inr (Some row), s')"
  shows "s' = s \<and> row \<in> set (pt_projections (tx_tables s)) \<and> pr_tenant_id row = tenant_uuid t"
  using assms first_row_Some by (fastforce simp: select_projection_def)

text \<open>What the second half of an append leaves behind, as a predicate on the projection rows.\<close>

definition projection_step ::
  "'v ext \<Rightarrow> pg_env \<Rightarrow> tenant_id \<Rightarrow> signal_envelope \<Rightarrow> int \<Rightarrow> 'v projection_row list \<Rightarrow>
   'v projection_row list \<Rightarrow> bool"
where
  "projection_step x env t e c rows rows' \<longleftrightarrow>
     (\<exists>init0 init row p upd0 upd.
        x_projection_to_value x signal_projection_default = Inr init0 \<and> x_jsonb x init0 = Some init \<and>
        row \<in> set (initial_projection env t init rows) \<and> pr_tenant_id row = tenant_uuid t \<and>
        x_projection_from_value x (pr_projection row) = Inr p \<and>
        x_projection_to_value x (projection_observe e p) = Inr upd0 \<and> x_jsonb x upd0 = Some upd \<and>
        rows' = advanced env t c upd (initial_projection env t init rows))"

lemma to_pg_cursor:
  "0 \<le> c \<Longrightarrow> c \<le> 2 ^ 63 - 1 \<Longrightarrow> to_pg_i64 f (word_of_int c) = Inr ci \<Longrightarrow> ci = c"
  by (auto simp: to_pg_i64_def uint_word_of_int_eq take_bit_int_eq_self split: if_splits)

lemma record_inserted_Inr:
  assumes run: "record_inserted x env t e c s = (Inr out, s')" and ok: "uuid_ok x"
    and ctx: "tx_tenant s = Some (x_uuid_show x (tenant_uuid t))" and c: "c \<le> 2 ^ 63 - 1"
  shows "out = \<lparr>ao_cursor = word_of_int c, ao_inserted = True\<rparr> \<and>
    (\<exists>rows'. projection_step x env t e c (pt_projections (tx_tables s)) rows' \<and>
       tx_tables s' = (tx_tables s)\<lparr>pt_projections := rows',
         pt_agents := touched env t (env_agent_id e) (pt_agents (tx_tables s))\<rparr>) \<and>
    tx_event_seq s' = tx_event_seq s \<and> tx_audit_seq s' = tx_audit_seq s \<and>
    tx_notifications s' = tx_notifications s @ [(tenant_uuid t, word_of_int c)]"
proof -
  let ?next = "\<lambda>s. s\<lparr>tx_stmt := Suc (tx_stmt s)\<rparr>"
  obtain w ci init0 u1 s1 u2 row s2 p upd0 u3 s3 u4 s4 u5 where
    w: "cursor_from_row c = Inr w" and ci: "to_pg_i64 ''cursor'' w = Inr ci" and
    init0: "x_projection_to_value x signal_projection_default = Inr init0" and
    s1: "insert_projection x env t init0 u1 (?next s) = (Inr (), s1)" and
    row: "select_projection x t u2 (?next s1) = (Inr (Some row), s2)" and
    p: "x_projection_from_value x (pr_projection row) = Inr p" and
    upd0: "x_projection_to_value x (projection_observe e p) = Inr upd0" and
    s3: "update_projection x env t ci upd0 u3 (?next s2) = (Inr (), s3)" and
    s4: "touch_agent x env t (env_agent_id e) u4 (?next s3) = (Inr (), s4)" and
    s5: "pg_notify t w u5 (?next s4) = (Inr (), s')" and
    out: "out = \<lparr>ao_cursor = w, ao_inserted = True\<rparr>"
    using run by (auto simp: record_inserted_def tx_simps result_simps)
  have cw: "0 \<le> c" "w = word_of_int c"
    using w by (auto simp: cursor_from_row_Inr)
  have ci': "ci = c"
    using to_pg_cursor [OF cw(1) c] ci cw(2) by blast
  obtain init where init: "x_jsonb x init0 = Some init" and
    s1': "s1 = (?next s)\<lparr>tx_tables := (tx_tables s)\<lparr>pt_projections :=
       initial_projection env t init (pt_projections (tx_tables s))\<rparr>\<rparr>"
    using s1 by (elim insert_projection_Inr) simp
  have s2': "s2 = ?next s1" and mem: "row \<in> set (pt_projections (tx_tables s1))"
    "pr_tenant_id row = tenant_uuid t"
    using select_projection_Inr [OF row] by simp_all
  have ctx2: "tx_tenant (?next s2) = Some (x_uuid_show x (tenant_uuid t))"
    using ctx s2' s1' by simp
  obtain upd where upd: "x_jsonb x upd0 = Some upd" and
    s3': "s3 = (?next s2)\<lparr>tx_tables := (tx_tables s2)\<lparr>pt_projections :=
       advanced env t c upd (pt_projections (tx_tables s2))\<rparr>\<rparr>"
    using update_projection_Inr [OF s3 [unfolded ci'] ok ctx2] by auto
  have ctx3: "tx_tenant (?next s3) = Some (x_uuid_show x (tenant_uuid t))"
    using ctx2 s3' by simp
  have s4': "s4 = (?next s3)\<lparr>tx_tables := (tx_tables s3)\<lparr>pt_agents :=
       touched env t (env_agent_id e) (pt_agents (tx_tables s3))\<rparr>\<rparr>"
    using touch_agent_Inr [OF s4 ok ctx3] by simp
  have "projection_step x env t e c (pt_projections (tx_tables s))
      (advanced env t c upd (initial_projection env t init (pt_projections (tx_tables s))))"
    unfolding projection_step_def using init0 init mem p upd0 upd s1' by auto
  then show ?thesis
    using s5 out cw by (auto simp: pg_notify_def s4' s3' s2' s1')
qed

text \<open>A successful body of \<open>append_envelope\<close>: the sequence was known with the same payload, or
  one row was added at the end of the event table.\<close>

lemma append_body_Inr:
  assumes run: "append_body x env t e p s = (Inr out, s')" and ok: "uuid_ok x"
  obtains (existing) row where "row \<in> set (pt_events (tx_tables s))"
      "event_key row = (tenant_uuid t, agent_id_str (env_agent_id e), unat (env_sequence e))"
      "er_signal_kind row = signal_kind_name e" "er_payload row = cp_value p"
      "0 \<le> er_cursor row" "out = \<lparr>ao_cursor = word_of_int (er_cursor row), ao_inserted = False\<rparr>"
      "tx_tables s' = tx_tables s" "tx_notifications s' = tx_notifications s"
      "tx_event_seq s' = tx_event_seq s + 1" "tx_event_seq s < 2 ^ 63 - 1"
  | (inserted) c stored rows' where "c = tx_event_seq s + 1" "c \<le> 2 ^ 63 - 1"
      "x_jsonb x (cp_value p) = Some stored"
      "event_checks x (event_row_of env t e stored (int (cp_byte_len p)) c)"
      "out = \<lparr>ao_cursor = word_of_int c, ao_inserted = True\<rparr>"
      "projection_step x env t e c (pt_projections (tx_tables s)) rows'"
      "tx_tables s' = (tx_tables s)\<lparr>
         pt_events := pt_events (tx_tables s) @ [event_row_of env t e stored (int (cp_byte_len p)) c],
         pt_projections := rows',
         pt_agents := touched env t (env_agent_id e) (pt_agents (tx_tables s))\<rparr>"
      "tx_event_seq s' = c"
      "tx_notifications s' = tx_notifications s @ [(tenant_uuid t, word_of_int c)]"
      "(tenant_uuid t, agent_id_str (env_agent_id e), unat (env_sequence e)) \<notin>
         set (map event_key (pt_events (tx_tables s)))"
      "(tenant_uuid t, event_uuid (env_event_id e)) \<notin>
         set (map (\<lambda>r. (er_tenant_id r, er_event_id r)) (pt_events (tx_tables s)))"
      "\<exists>r \<in> set (pt_tenants (tx_tables s)). tr_id r = tenant_uuid t \<and> tr_enabled r"
      "\<exists>r \<in> set (pt_agents (tx_tables s)). ar_tenant_id r = tenant_uuid t \<and>
         ar_agent_id r = agent_id_str (env_agent_id e) \<and> ar_enabled r"
proof -
  obtain s1 s2 s3 s4 u io s5 where
    s1: "set_tenant_context x env t s = (Inr (), s1)" and
    s2: "require_enabled_tenant x env t s1 = (Inr (), s2)" and
    s3: "lock_tenant env t s2 = (Inr (), s3)" and
    s4: "require_enabled_agent x env t (env_agent_id e) s3 = (Inr (), s4)" and
    s5: "insert_event x env t e (cp_value p) (int (cp_byte_len p)) u
           (s4\<lparr>tx_stmt := Suc (tx_stmt s4)\<rparr>) = (Inr io, s5)" and
    rest: "(case io of None \<Rightarrow> existing_outcome x env t e (cp_value p)
        | Some cursor \<Rightarrow> record_inserted x env t e cursor) s5 = (Inr out, s')"
    using run unfolding append_body_def tx_bind_Inr sql_Inr by auto
  have s4': "tx_tables s4 = tx_tables s" "tx_event_seq s4 = tx_event_seq s"
    "tx_notifications s4 = tx_notifications s"
    "tx_tenant s4 = Some (x_uuid_show x (tenant_uuid t))"
    using s1 s3 require_enabled_tenant_Inr [OF s2] require_enabled_agent_Inr [OF s4]
    by (auto simp: tx_simps)
  have ten: "\<exists>r \<in> set (pt_tenants (tx_tables s)). tr_id r = tenant_uuid t \<and> tr_enabled r"
    using require_enabled_tenant_Inr [OF s2] s1 by (auto simp: tx_simps)
  have age: "\<exists>r \<in> set (pt_agents (tx_tables s)). ar_tenant_id r = tenant_uuid t \<and>
         ar_agent_id r = agent_id_str (env_agent_id e) \<and> ar_enabled r"
    using require_enabled_agent_Inr [OF s4] s3 require_enabled_tenant_Inr [OF s2] s1
    by (auto simp: tx_simps)
  show thesis
  proof (cases io)
    case None
    have i: "s5 = s4\<lparr>tx_stmt := Suc (tx_stmt s4), tx_event_seq := tx_event_seq s4 + 1\<rparr>"
      "tx_event_seq s4 < 2 ^ 63 - 1"
      using insert_event_None s5 None by fastforce+
    obtain row where "row \<in> set (pt_events (tx_tables s5))"
      "event_key row = (tenant_uuid t, agent_id_str (env_agent_id e), unat (env_sequence e))"
      "er_signal_kind row = signal_kind_name e" "er_payload row = cp_value p"
      "cursor_from_row (er_cursor row) = Inr (ao_cursor out)" "\<not> ao_inserted out"
      "s' = s5\<lparr>tx_stmt := Suc (tx_stmt s5)\<rparr>"
      using existing_outcome_Inr rest None by fastforce
    then show thesis
      using i(2) s4'(2) by (intro existing [of row]) (auto simp: i(1) s4' cursor_from_row_Inr)
  next
    case (Some c)
    obtain stored where st: "x_jsonb x (cp_value p) = Some stored"
      "event_checks x (event_row_of env t e stored (int (cp_byte_len p)) c)"
      "s5 = s4\<lparr>tx_stmt := Suc (tx_stmt s4), tx_event_seq := c, tx_tables := (tx_tables s4)\<lparr>pt_events :=
        pt_events (tx_tables s4) @ [event_row_of env t e stored (int (cp_byte_len p)) c]\<rparr>\<rparr>"
      using insert_event_Some [OF s5 [unfolded Some]] by auto
    have c: "c = tx_event_seq s + 1" "c \<le> 2 ^ 63 - 1"
      using insert_event_Some [OF s5 [unfolded Some]] s4' by auto
    have "tx_tenant s5 = Some (x_uuid_show x (tenant_uuid t))"
      using st s4' by simp
    note r = record_inserted_Inr [OF rest [unfolded Some option.case] ok this c(2)]
    then obtain rows' where rows': "projection_step x env t e c (pt_projections (tx_tables s5)) rows'"
      "tx_tables s' = (tx_tables s5)\<lparr>pt_projections := rows',
         pt_agents := touched env t (env_agent_id e) (pt_agents (tx_tables s5))\<rparr>"
      by blast
    have tables: "tx_tables s' = (tx_tables s)\<lparr>
         pt_events := pt_events (tx_tables s) @ [event_row_of env t e stored (int (cp_byte_len p)) c],
         pt_projections := rows',
         pt_agents := touched env t (env_agent_id e) (pt_agents (tx_tables s))\<rparr>"
      using rows'(2) by (simp add: st(3) s4')
    have step: "projection_step x env t e c (pt_projections (tx_tables s)) rows'"
      using rows'(1) by (simp add: st(3) s4')
    have seq: "tx_event_seq s' = c" and
      notif: "tx_notifications s' = tx_notifications s @ [(tenant_uuid t, word_of_int c)]" and
      out: "out = \<lparr>ao_cursor = word_of_int c, ao_inserted = True\<rparr>"
      using r by (simp_all add: st(3) s4')
    have new: "(tenant_uuid t, agent_id_str (env_agent_id e), unat (env_sequence e)) \<notin>
         set (map event_key (pt_events (tx_tables s)))"
      "(tenant_uuid t, event_uuid (env_event_id e)) \<notin>
         set (map (\<lambda>r. (er_tenant_id r, er_event_id r)) (pt_events (tx_tables s)))"
      using insert_event_Some [OF s5 [unfolded Some]] by (simp_all add: s4')
    show thesis
      by (rule inserted [OF c st(1,2) out step tables seq notif new ten age])
  qed
qed

section \<open>The invariant of the tables\<close>

definition valid_agent_id :: "agent_id \<Rightarrow> bool" where
  "valid_agent_id a \<longleftrightarrow> agent_id_new (agent_id_str a) = Inr a"

text \<open>What the store relies on in the JSON codec: a payload that passed the canonical check is
  what its JSON value, stored or not, decodes to, and projections read back.\<close>

definition codec_ok :: "'v ext \<Rightarrow> bool" where
  "codec_ok x \<longleftrightarrow> uuid_ok x \<and>
     (\<forall>p v. canonical_signal_payload x p = Inr v \<longrightarrow> x_from_value_signal x (cp_value v) = Inr p) \<and>
     (\<forall>p v w. canonical_signal_payload x p = Inr v \<and> x_jsonb x (cp_value v) = Some w \<longrightarrow>
        x_from_value_signal x w = Inr p) \<and>
     (\<forall>q v w. x_projection_to_value x q = Inr v \<and> x_jsonb x v = Some w \<longrightarrow>
        x_projection_from_value x w = Inr q)"

definition tenant_rows :: "uuid \<Rightarrow> 'v pg_tables \<Rightarrow> 'v event_row list" where
  "tenant_rows u tb = filter (\<lambda>r. er_tenant_id r = u) (pt_events tb)"

definition row_record :: "'v ext \<Rightarrow> 'v event_row \<Rightarrow> pg_store_error + signal_record" where
  "row_record x r = signal_record_from_row x (TenantId (er_tenant_id r)) r"

text \<open>A row holds the stored form of the canonical JSON of the payload it decodes to.\<close>

definition row_canonical :: "'v ext \<Rightarrow> 'v event_row \<Rightarrow> bool" where
  "row_canonical x r \<longleftrightarrow> (\<exists>rec v. row_record x r = Inr rec \<and>
     canonical_signal_payload x (env_payload (sr_envelope rec)) = Inr v \<and>
     x_jsonb x (cp_value v) = Some (er_payload r) \<and> er_payload_bytes r = int (cp_byte_len v) \<and>
     er_signal_kind r = signal_kind_name (sr_envelope rec))"

definition events_ok :: "'v ext \<Rightarrow> int \<Rightarrow> 'v pg_tables \<Rightarrow> bool" where
  "events_ok x k tb \<longleftrightarrow> 0 \<le> k \<and> k \<le> 2 ^ 63 - 1 \<and>
     sorted_wrt (<) (map er_cursor (pt_events tb)) \<and>
     (\<forall>r \<in> set (pt_events tb). er_cursor r \<le> k \<and> event_checks x r \<and> is_ok (row_record x r) \<and>
        valid_agent_id (AgentId (er_agent_id r)) \<and> row_canonical x r) \<and>
     distinct (map event_key (pt_events tb)) \<and>
     distinct (map (\<lambda>r. (er_tenant_id r, er_event_id r)) (pt_events tb))"

definition agents_ok :: "'v pg_tables \<Rightarrow> bool" where
  "agents_ok tb \<longleftrightarrow>
     distinct (map (\<lambda>r. (ar_tenant_id r, ar_agent_id r)) (pt_agents tb)) \<and>
     (\<forall>u. length (filter (\<lambda>r. ar_tenant_id r = u) (pt_agents tb)) \<le> MAX_AGENTS_PER_TENANT)"

definition tenants_ok :: "'v pg_tables \<Rightarrow> bool" where
  "tenants_ok tb \<longleftrightarrow> distinct (map tr_id (pt_tenants tb)) \<and> distinct (map tr_slug (pt_tenants tb)) \<and>
     (\<forall>r \<in> set (pt_tenants tb). tenant_checks r)"

definition refs_ok :: "'v pg_tables \<Rightarrow> bool" where
  "refs_ok tb \<longleftrightarrow>
     (\<forall>r \<in> set (pt_events tb). (er_tenant_id r, er_agent_id r) \<in>
        set (map (\<lambda>a. (ar_tenant_id a, ar_agent_id a)) (pt_agents tb))) \<and>
     (\<forall>a \<in> set (pt_agents tb). ar_tenant_id a \<in> set (map tr_id (pt_tenants tb)))"

definition tickets_ok :: "'v pg_tables \<Rightarrow> bool" where
  "tickets_ok tb \<longleftrightarrow> distinct (map ti_ticket_id (pt_tickets tb)) \<and>
     (\<forall>r \<in> set (pt_tickets tb). ticket_checks r)"

text \<open>The projection row of a tenant summarises exactly the events stored for it.\<close>

definition row_envelopes :: "'v ext \<Rightarrow> 'v event_row list \<Rightarrow> signal_envelope list" where
  "row_envelopes x rows = map sr_envelope (concat (map (\<lambda>r.
     case row_record x r of Inr rec \<Rightarrow> [rec] | Inl _ \<Rightarrow> []) rows))"

definition projections_ok :: "'v ext \<Rightarrow> 'v pg_tables \<Rightarrow> bool" where
  "projections_ok x tb \<longleftrightarrow> distinct (map pr_tenant_id (pt_projections tb)) \<and>
     (\<forall>u. (tenant_rows u tb = [] \<longrightarrow> u \<notin> set (map pr_tenant_id (pt_projections tb))) \<and>
          (tenant_rows u tb \<noteq> [] \<longrightarrow> (\<exists>r \<in> set (pt_projections tb). pr_tenant_id r = u \<and>
             pr_last_cursor r = er_cursor (last (tenant_rows u tb)) \<and>
             x_projection_from_value x (pr_projection r) =
               Inr (fold projection_observe (row_envelopes x (tenant_rows u tb))
                      signal_projection_default))))"

definition store_inv :: "'v ext \<Rightarrow> 'v pg_db \<Rightarrow> bool" where
  "store_inv x db \<longleftrightarrow> events_ok x (db_event_seq db) (db_tables db) \<and> agents_ok (db_tables db) \<and>
     tenants_ok (db_tables db) \<and> refs_ok (db_tables db) \<and> tickets_ok (db_tables db) \<and>
     projections_ok x (db_tables db)"

lemma event_row_record:
  assumes ok: "codec_ok x" and scope: "env_scope e = Tenant t" and agent: "valid_agent_id (env_agent_id e)"
    and canon: "canonical_signal_payload x (env_payload e) = Inr p"
    and stored: "x_jsonb x (cp_value p) = Some stored" and c: "0 \<le> c"
  shows "row_record x (event_row_of env t e stored n c) =
    Inr \<lparr>sr_cursor = word_of_int c, sr_envelope = e\<rparr>"
proof -
  have "x_from_value_signal x stored = Inr (env_payload e)"
    using ok canon stored unfolding codec_ok_def by blast
  moreover have "x_uuid_parse x (x_uuid_show x u) = Some u" for u
    using ok by (simp add: codec_ok_def uuid_ok_def)
  moreover have "from_pg_u64_text f (numeric_to_text (numeric_of_text (show_u64 w))) = Inr w" for f w
    by (simp add: from_pg_u64_text_def numeric_to_text_def numeric_of_text_def show_u64_def
        parse_show_u64 [unfolded show_u64_def])
  ultimately show ?thesis
    using scope agent c
    by (cases e) (simp add: row_record_def signal_record_from_row_def event_row_of_def cursor_from_row_def
        from_pg_i64_def valid_agent_id_def)
qed

lemma event_row_fields [simp]:
  "er_cursor (event_row_of env t e v n c) = c"
  "er_tenant_id (event_row_of env t e v n c) = tenant_uuid t"
  "er_event_id (event_row_of env t e v n c) = event_uuid (env_event_id e)"
  "event_key (event_row_of env t e v n c) =
     (tenant_uuid t, agent_id_str (env_agent_id e), unat (env_sequence e))"
  "er_agent_id (event_row_of env t e v n c) = agent_id_str (env_agent_id e)"
  "er_payload (event_row_of env t e v n c) = v"
  "er_signal_kind (event_row_of env t e v n c) = signal_kind_name e"
  by (simp_all add: event_row_of_def event_key_def numeric_of_text_def show_u64_def)

lemma events_ok_mono: "events_ok x k tb \<Longrightarrow> k \<le> k' \<Longrightarrow> k' \<le> 2 ^ 63 - 1 \<Longrightarrow> events_ok x k' tb"
  by (auto simp: events_ok_def)

lemma events_ok_append:
  assumes "events_ok x k tb" and "k < c" and "c \<le> 2 ^ 63 - 1" and "er_cursor r = c"
    and "event_checks x r" and "is_ok (row_record x r)" and "valid_agent_id (AgentId (er_agent_id r))"
    and "row_canonical x r" and "event_key r \<notin> set (map event_key (pt_events tb))"
    and "(er_tenant_id r, er_event_id r) \<notin>
      set (map (\<lambda>r. (er_tenant_id r, er_event_id r)) (pt_events tb))"
    and "pt_events tb' = pt_events tb @ [r]"
  shows "events_ok x c tb'"
  using assms by (fastforce simp: events_ok_def sorted_wrt_append)

lemma touched_keys [simp]:
  "map (\<lambda>r. (ar_tenant_id r, ar_agent_id r)) (touched env t a rows) =
     map (\<lambda>r. (ar_tenant_id r, ar_agent_id r)) rows"
  "map ar_tenant_id (touched env t a rows) = map ar_tenant_id rows"
  by (simp_all add: touched_def)

lemma length_filter_tenant:
  "length (filter (\<lambda>r. ar_tenant_id r = u) rows) = length (filter (\<lambda>v. v = u) (map ar_tenant_id rows))"
  by (simp add: filter_map comp_def)

lemma advanced_tenants [simp]: "map pr_tenant_id (advanced env t c v rows) = map pr_tenant_id rows"
  by (simp add: advanced_def)

lemma initial_tenants:
  "set (map pr_tenant_id (initial_projection env t v rows)) =
     insert (tenant_uuid t) (set (map pr_tenant_id rows))"
  by (auto simp: initial_projection_def)

lemma initial_distinct:
  "distinct (map pr_tenant_id rows) \<Longrightarrow> distinct (map pr_tenant_id (initial_projection env t v rows))"
  by (auto simp: initial_projection_def)

lemma advanced_other:
  "pr_tenant_id r \<noteq> tenant_uuid t \<Longrightarrow>
   r \<in> set (advanced env t c v (initial_projection env t w rows)) \<longleftrightarrow> r \<in> set rows"
  by (auto simp: advanced_def initial_projection_def image_iff split: if_splits)

lemma distinct_map_eq:
  "distinct (map f xs) \<Longrightarrow> a \<in> set xs \<Longrightarrow> b \<in> set xs \<Longrightarrow> f a = f b \<Longrightarrow> a = b"
  by (auto simp: distinct_map inj_on_def)

lemma tenant_rows_snoc:
  "pt_events tb' = pt_events tb @ [r] \<Longrightarrow>
   tenant_rows u tb' = tenant_rows u tb @ (if er_tenant_id r = u then [r] else [])"
  by (simp add: tenant_rows_def)

lemma row_envelopes_snoc:
  "row_record x r = Inr rec \<Longrightarrow> row_envelopes x (rows @ [r]) = row_envelopes x rows @ [sr_envelope rec]"
  by (simp add: row_envelopes_def)

text \<open>The row a projection step starts from summarises the events stored so far.\<close>

lemma projection_row_before:
  assumes ok: "codec_ok x" and pok: "projections_ok x tb"
    and init0: "x_projection_to_value x signal_projection_default = Inr init0"
      "x_jsonb x init0 = Some init"
    and row: "row \<in> set (initial_projection env t init (pt_projections tb))"
      "pr_tenant_id row = tenant_uuid t"
    and low: "\<forall>r \<in> set (pt_events tb). er_cursor r < c" and c: "0 \<le> c"
  shows "pr_last_cursor row \<le> c \<and> x_projection_from_value x (pr_projection row) =
    Inr (fold projection_observe (row_envelopes x (tenant_rows (tenant_uuid t) tb))
           signal_projection_default)"
proof (cases "tenant_rows (tenant_uuid t) tb = []")
  case True
  then have "tenant_uuid t \<notin> set (map pr_tenant_id (pt_projections tb))"
    using pok by (simp add: projections_ok_def)
  then have "row = \<lparr>pr_tenant_id = tenant_uuid t, pr_last_cursor = 0, pr_projection = init,
      pr_updated_at = now_of env\<rparr>"
    using row by (auto simp: initial_projection_def) (metis imageI)
  then show ?thesis
    using True ok init0 c by (auto simp: codec_ok_def row_envelopes_def)
next
  case False
  then obtain r where r: "r \<in> set (pt_projections tb)" "pr_tenant_id r = tenant_uuid t"
    "pr_last_cursor r = er_cursor (last (tenant_rows (tenant_uuid t) tb))"
    "x_projection_from_value x (pr_projection r) =
      Inr (fold projection_observe (row_envelopes x (tenant_rows (tenant_uuid t) tb))
             signal_projection_default)"
    using pok unfolding projections_ok_def by blast
  have "r \<in> set (initial_projection env t init (pt_projections tb))"
    using r(1) by (auto simp: initial_projection_def)
  moreover have "distinct (map pr_tenant_id (initial_projection env t init (pt_projections tb)))"
    by (rule initial_distinct) (use pok in \<open>simp add: projections_ok_def\<close>)
  ultimately have "row = r"
    using row r(2) by (intro distinct_map_eq [of pr_tenant_id]) simp_all
  moreover have "last (tenant_rows (tenant_uuid t) tb) \<in> set (pt_events tb)"
    using last_in_set [OF False] by (auto simp: tenant_rows_def)
  ultimately show ?thesis
    using r low by auto
qed

lemma projections_ok_append:
  assumes ok: "codec_ok x" and pok: "projections_ok x tb"
    and step: "projection_step x env t e c (pt_projections tb) rows'"
    and r: "er_tenant_id r = tenant_uuid t" "er_cursor r = c" "row_record x r = Inr rec"
      "sr_envelope rec = e"
    and low: "\<forall>r \<in> set (pt_events tb). er_cursor r < c" and c: "0 \<le> c"
    and tb': "pt_events tb' = pt_events tb @ [r]" "pt_projections tb' = rows'"
  shows "projections_ok x tb'"
proof -
  obtain init0 init row p upd0 upd where
    init: "x_projection_to_value x signal_projection_default = Inr init0" "x_jsonb x init0 = Some init" and
    row: "row \<in> set (initial_projection env t init (pt_projections tb))" "pr_tenant_id row = tenant_uuid t" and
    p: "x_projection_from_value x (pr_projection row) = Inr p" and
    upd: "x_projection_to_value x (projection_observe e p) = Inr upd0" "x_jsonb x upd0 = Some upd" and
    rows': "rows' = advanced env t c upd (initial_projection env t init (pt_projections tb))"
    using step unfolding projection_step_def by blast
  note before = projection_row_before [OF ok pok init row low c]
  have new: "tenant_rows u tb' = tenant_rows u tb @ (if tenant_uuid t = u then [r] else [])" for u
    using tenant_rows_snoc [OF tb'(1)] r(1) by simp
  define row' where "row' = row\<lparr>pr_last_cursor := max (pr_last_cursor row) c, pr_projection := upd,
      pr_updated_at := now_of env\<rparr>"
  have row': "row' \<in> set rows'" "pr_tenant_id row' = tenant_uuid t" "pr_last_cursor row' = c"
    using row before by (auto simp: row'_def rows' advanced_def intro!: image_eqI [of _ _ row])
  have "p = fold projection_observe (row_envelopes x (tenant_rows (tenant_uuid t) tb))
           signal_projection_default"
    using before p by simp
  then have summary: "x_projection_from_value x (pr_projection row') =
      Inr (fold projection_observe (row_envelopes x (tenant_rows (tenant_uuid t) tb'))
             signal_projection_default)"
    using ok upd r by (auto simp: codec_ok_def row'_def new row_envelopes_snoc)
  have dist: "distinct (map pr_tenant_id rows')"
    unfolding rows' advanced_tenants
    by (rule initial_distinct) (use pok in \<open>simp add: projections_ok_def\<close>)
  have tens: "set (map pr_tenant_id rows') = insert (tenant_uuid t) (set (map pr_tenant_id (pt_projections tb)))"
    by (simp only: rows' advanced_tenants initial_tenants)
  have "(tenant_rows u tb' = [] \<longrightarrow> u \<notin> set (map pr_tenant_id rows')) \<and>
      (tenant_rows u tb' \<noteq> [] \<longrightarrow> (\<exists>r \<in> set rows'. pr_tenant_id r = u \<and>
         pr_last_cursor r = er_cursor (last (tenant_rows u tb')) \<and>
         x_projection_from_value x (pr_projection r) =
           Inr (fold projection_observe (row_envelopes x (tenant_rows u tb'))
                  signal_projection_default)))" for u
  proof (cases "u = tenant_uuid t")
    case True
    then show ?thesis
      using row' summary r(2) by (auto simp: new intro!: bexI [of _ row'])
  next
    case False
    then have "tenant_rows u tb' = tenant_rows u tb" by (simp add: new)
    moreover have "q \<in> set rows' \<longleftrightarrow> q \<in> set (pt_projections tb)" if "pr_tenant_id q = u" for q
      using False that by (simp add: rows' advanced_other)
    ultimately show ?thesis
      using pok False tens unfolding projections_ok_def by (metis insert_iff)
  qed
  then show ?thesis
    using dist tb'(2) unfolding projections_ok_def by blast
qed

section \<open>Every operation preserves the invariant\<close>

definition tables_inv :: "'v ext \<Rightarrow> int \<Rightarrow> 'v pg_tables \<Rightarrow> bool" where
  "tables_inv x k tb \<longleftrightarrow> events_ok x k tb \<and> agents_ok tb \<and> tenants_ok tb \<and> refs_ok tb \<and>
     tickets_ok tb \<and> projections_ok x tb"

lemma store_inv_tables: "store_inv x db \<longleftrightarrow> tables_inv x (db_event_seq db) (db_tables db)"
  by (simp add: store_inv_def tables_inv_def)

lemma tables_inv_mono:
  "tables_inv x k tb \<Longrightarrow> k \<le> k' \<Longrightarrow> k' \<le> 2 ^ 63 - 1 \<Longrightarrow> tables_inv x k' tb"
  using events_ok_mono by (auto simp: tables_inv_def)

lemma inv_seq_ge: "store_inv x db \<Longrightarrow> seq_ge (db_event_seq db) (tx_begin db)"
  by (simp add: store_inv_def events_ok_def seq_ge_def tx_begin_def)

text \<open>The rule for all operations: the body lets the sequence only grow, and what it installs
  satisfies the invariant.\<close>

lemma with_tx_inv:
  assumes inv: "store_inv x db" and run: "with_tx env m db = (r, db')"
    and seq: "tx_keeps (seq_ge (db_event_seq db)) m"
    and body: "\<And>a s. m (tx_begin db) = (Inr a, s) \<Longrightarrow> tables_inv x (tx_event_seq s) (tx_tables s)"
  shows "store_inv x db'"
  using run
proof (cases rule: with_tx_cases)
  case (unchanged e)
  then consider "db' = db" | q s where "m (tx_begin db) = (q, s)" "db' = tx_rollback s db"
    by blast
  then show ?thesis
  proof cases
    case 1
    then show ?thesis using inv by simp
  next
    case (2 q s)
    then have "seq_ge (db_event_seq db) s"
      using keepsD [OF seq inv_seq_ge [OF inv]] by blast
    then show ?thesis
      using inv 2(2)
      by (auto simp: store_inv_tables tx_rollback_def seq_ge_def elim: tables_inv_mono)
  qed
next
  case (installed a s)
  then show ?thesis
    using body by (simp add: store_inv_tables tx_commit_def)
qed

lemma agents_ok_keys:
  assumes "agents_ok tb" and "map (\<lambda>r. (ar_tenant_id r, ar_agent_id r)) (pt_agents tb') =
     map (\<lambda>r. (ar_tenant_id r, ar_agent_id r)) (pt_agents tb)"
  shows "agents_ok tb'"
proof -
  have "map ar_tenant_id (pt_agents tb') = map ar_tenant_id (pt_agents tb)"
    using arg_cong [OF assms(2), of "map fst"] by (simp add: comp_def)
  then show ?thesis
    using assms by (simp add: agents_ok_def length_filter_tenant)
qed

lemma refs_ok_alt:
  "refs_ok tb \<longleftrightarrow> (\<lambda>r. (er_tenant_id r, er_agent_id r)) ` set (pt_events tb) \<subseteq>
       (\<lambda>a. (ar_tenant_id a, ar_agent_id a)) ` set (pt_agents tb) \<and>
     ar_tenant_id ` set (pt_agents tb) \<subseteq> tr_id ` set (pt_tenants tb)"
  by (auto simp: refs_ok_def)

lemma touched_sets:
  "(\<lambda>a. (ar_tenant_id a, ar_agent_id a)) ` set (touched env t ag rows) =
     (\<lambda>a. (ar_tenant_id a, ar_agent_id a)) ` set rows"
  "ar_tenant_id ` set (touched env t ag rows) = ar_tenant_id ` set rows"
  unfolding list.set_map [symmetric] touched_keys by simp_all

lemma append_body_inv:
  assumes ok: "codec_ok x" and inv: "tables_inv x (tx_event_seq s) (tx_tables s)"
    and run: "append_body x env t e p s = (Inr out, s')" and scope: "env_scope e = Tenant t"
    and agent: "valid_agent_id (env_agent_id e)"
    and canon: "canonical_signal_payload x (env_payload e) = Inr p"
  shows "tables_inv x (tx_event_seq s') (tx_tables s')"
proof -
  have uuid: "uuid_ok x" using ok by (simp add: codec_ok_def)
  show ?thesis
    using run uuid
  proof (cases rule: append_body_Inr)
    case (existing row)
    then show ?thesis
      using inv by (auto elim: tables_inv_mono)
  next
    case (inserted c stored rows')
    let ?r = "event_row_of env t e stored (int (cp_byte_len p)) c"
    have nonneg: "0 \<le> c" "tx_event_seq s < c"
      using inv inserted(1) by (auto simp: tables_inv_def events_ok_def)
    have rec: "row_record x ?r = Inr \<lparr>sr_cursor = word_of_int c, sr_envelope = e\<rparr>"
      by (rule event_row_record [OF ok scope agent canon inserted(3) nonneg(1)])
    have can: "row_canonical x ?r"
      unfolding row_canonical_def using rec canon inserted(3)
      by (auto simp: event_row_of_def)
    have ev: "events_ok x c (tx_tables s')"
      by (rule events_ok_append [of x "tx_event_seq s" "tx_tables s" c ?r])
        (use inv inserted rec nonneg agent can in \<open>simp_all add: tables_inv_def\<close>)
    have ag: "agents_ok (tx_tables s')"
      by (rule agents_ok_keys [of "tx_tables s"]) (use inv inserted in \<open>simp_all add: tables_inv_def\<close>)
    have rf: "refs_ok (tx_tables s')"
    proof -
      have "(tenant_uuid t, agent_id_str (env_agent_id e)) \<in>
          (\<lambda>a. (ar_tenant_id a, ar_agent_id a)) ` set (pt_agents (tx_tables s))"
        using inserted(13) by force
      then show ?thesis
        using inv by (simp add: tables_inv_def refs_ok_alt touched_sets inserted(7))
    qed
    have pr: "projections_ok x (tx_tables s')"
      by (rule projections_ok_append [OF ok _ inserted(6) _ _ rec])
        (use inv inserted nonneg in \<open>auto simp: tables_inv_def events_ok_def\<close>)
    show ?thesis
      using inv ev ag rf pr inserted(7,8)
      by (simp add: tables_inv_def tenants_ok_def tickets_ok_def)
  qed
qed

lemma append_inv:
  assumes "codec_ok x" and inv: "store_inv x db" and "valid_agent_id (env_agent_id e)"
    and run: "append_envelope x env e db = (r, db')"
  shows "store_inv x db'"
proof (cases "and_then (tenant_scope (env_scope e)) (\<lambda>t.
    map_ok (\<lambda>payload. (t, payload)) (canonical_signal_payload x (env_payload e)))")
  case (Inl err)
  then show ?thesis using inv run by (simp add: append_envelope_def)
next
  case (Inr tp)
  then obtain t p where tp: "tp = (t, p)" "env_scope e = Tenant t"
    "canonical_signal_payload x (env_payload e) = Inr p"
    by (auto simp: result_simps tenant_scope_def split: signal_scope.splits)
  have "with_tx env (append_body x env t e p) db = (r, db')"
    using run Inr tp(1) by (simp add: append_envelope_def)
  then show ?thesis
    by (rule with_tx_inv [OF inv _ seq_append])
      (use assms tp append_body_inv [of x "tx_begin db"] in
        \<open>auto simp: store_inv_tables tx_begin_def\<close>)
qed

definition tx_inv :: "'v ext \<Rightarrow> 'v pg_tx \<Rightarrow> bool" where
  "tx_inv x s \<longleftrightarrow> tables_inv x (tx_event_seq s) (tx_tables s)"

lemma inv_sql:
  assumes "\<And>ts s. tx_inv x s \<Longrightarrow> tx_inv x (snd (q ts s))"
  shows "tx_keeps (tx_inv x) (sql env q)"
proof (rule keeps_sql)
  show step: "tx_inv x (s\<lparr>tx_stmt := Suc (tx_stmt s)\<rparr>)" if "tx_inv x s" for s
    using that by (simp add: tx_inv_def)
  show "tx_inv x (snd (q ts (s\<lparr>tx_stmt := Suc (tx_stmt s)\<rparr>)))" if "tx_inv x s" for ts s
    using assms step [OF that] by blast
qed

lemma inv_select [keeps_intros]:
  "tx_keeps (tx_inv x) (sql env (REQUIRE_ENABLED_TENANT_SQL x t))"
  "tx_keeps (tx_inv x) (sql env (select_projection x t))"
  "tx_keeps (tx_inv x) (sql env (LOAD_ENVELOPES_BOUNDED_SQL x t af l b))"
  "tx_keeps (tx_inv x) (sql env (AGENT_CARDINALITY_SQL x t a))"
  "tx_keeps (tx_inv x) (sql env (\<lambda>ts s. (f ts s, s)))"
  "tx_keeps (tx_inv x) (set_tenant_context x env t)"
  "tx_keeps (tx_inv x) (lock_tenant env t)"
  unfolding set_tenant_context_def lock_tenant_def
  by (rule inv_sql, simp add: statement_defs Let_def tx_inv_def)+

lemma tables_inv_audit: "tables_inv x k (tb\<lparr>pt_audit := rows\<rparr>) = tables_inv x k tb"
  by (simp add: tables_inv_def events_ok_def agents_ok_def tenants_ok_def refs_ok_def tickets_ok_def
      projections_ok_def tenant_rows_def)

lemma tables_inv_tickets:
  "tables_inv x k tb \<Longrightarrow> distinct (map ti_ticket_id rows) \<Longrightarrow> (\<forall>r \<in> set rows. ticket_checks r) \<Longrightarrow>
   tables_inv x k (tb\<lparr>pt_tickets := rows\<rparr>)"
  by (simp add: tables_inv_def events_ok_def agents_ok_def tenants_ok_def refs_ok_def tickets_ok_def
      projections_ok_def tenant_rows_def)

lemma tables_inv_agents:
  "tables_inv x k tb \<Longrightarrow> agents_ok (tb\<lparr>pt_agents := rows\<rparr>) \<Longrightarrow> refs_ok (tb\<lparr>pt_agents := rows\<rparr>) \<Longrightarrow>
   tables_inv x k (tb\<lparr>pt_agents := rows\<rparr>)"
  by (simp add: tables_inv_def events_ok_def tenants_ok_def tickets_ok_def
      projections_ok_def tenant_rows_def)

lemma tables_inv_tenants:
  "tables_inv x k tb \<Longrightarrow> tenants_ok (tb\<lparr>pt_tenants := rows\<rparr>) \<Longrightarrow> refs_ok (tb\<lparr>pt_tenants := rows\<rparr>) \<Longrightarrow>
   tables_inv x k (tb\<lparr>pt_tenants := rows\<rparr>)"
  by (simp add: tables_inv_def events_ok_def agents_ok_def tickets_ok_def
      projections_ok_def tenant_rows_def)

lemma tables_inv_ticket_facts:
  "tables_inv x k tb \<Longrightarrow> distinct (map ti_ticket_id (pt_tickets tb)) \<and>
     (\<forall>r \<in> set (pt_tickets tb). ticket_checks r)"
  by (simp add: tables_inv_def tickets_ok_def)

lemma inv_audit [keeps_intros]:
  "tx_keeps (tx_inv x) (sql env (insert_audit x env t ac an tt ti de))"
  by (rule inv_sql) (simp add: insert_audit_def Let_def tx_inv_def tables_inv_audit)

lemma inv_cleanup [keeps_intros]: "tx_keeps (tx_inv x) (sql env (cleanup_stream_tickets_in x t))"
proof (rule inv_sql)
  fix ts s
  assume "tx_inv x s"
  then show "tx_inv x (snd (cleanup_stream_tickets_in x t ts s))"
    unfolding cleanup_stream_tickets_in_def Let_def tx_inv_def
    using tables_inv_ticket_facts
    by (fastforce simp: distinct_map_filter intro!: tables_inv_tickets)
qed

lemma inv_create_ticket [keeps_intros]:
  "tx_keeps (tx_inv x) (sql env (CREATE_STREAM_TICKET_SQL x env tk t su ttl au))"
proof (rule inv_sql)
  fix ts s
  assume "tx_inv x s"
  then show "tx_inv x (snd (CREATE_STREAM_TICKET_SQL x env tk t su ttl au ts s))"
    unfolding CREATE_STREAM_TICKET_SQL_def Let_def tx_inv_def
    using tables_inv_ticket_facts by (fastforce intro!: tables_inv_tickets)
qed

lemma inv_consume_ticket [keeps_intros]:
  "tx_keeps (tx_inv x) (sql env (CONSUME_STREAM_TICKET_SQL x t tk))"
proof (rule inv_sql)
  fix ts s
  assume inv: "tx_inv x s"
  have ids: "map ti_ticket_id (map (\<lambda>r. if P r then r\<lparr>ti_consumed_at := Some ts\<rparr> else r) rows) =
      map ti_ticket_id rows" for P rows
    by simp
  from inv show "tx_inv x (snd (CONSUME_STREAM_TICKET_SQL x t tk ts s))"
    unfolding CONSUME_STREAM_TICKET_SQL_def Let_def tx_inv_def
    using tables_inv_ticket_facts
    by (fastforce simp del: map_map simp: ids ticket_checks_def intro!: tables_inv_tickets)
qed

lemma inv_set_enabled [keeps_intros]:
  "tx_keeps (tx_inv x) (sql env (update_agent_enabled x env t a en))"
proof (rule inv_sql)
  fix ts s
  assume inv: "tx_inv x s"
  let ?upd = "\<lambda>P. map (\<lambda>r. if P r then r\<lparr>ar_enabled := en, ar_updated_at := now_of env\<rparr> else r)
      (pt_agents (tx_tables s))"
  have keys: "map (\<lambda>r. (ar_tenant_id r, ar_agent_id r)) (?upd P) =
      map (\<lambda>r. (ar_tenant_id r, ar_agent_id r)) (pt_agents (tx_tables s))" for P
    by simp
  have tens: "map ar_tenant_id (?upd P) = map ar_tenant_id (pt_agents (tx_tables s))" for P
    by simp
  have "tables_inv x (tx_event_seq s) ((tx_tables s)\<lparr>pt_agents := ?upd P\<rparr>)" for P
  proof (rule tables_inv_agents)
    show "agents_ok ((tx_tables s)\<lparr>pt_agents := ?upd P\<rparr>)"
      by (rule agents_ok_keys [of "tx_tables s"])
        (use inv in \<open>simp_all add: tx_inv_def tables_inv_def\<close>)
    show "refs_ok ((tx_tables s)\<lparr>pt_agents := ?upd P\<rparr>)"
      using inv arg_cong [OF keys [of P], of set] arg_cong [OF tens [of P], of set]
      unfolding list.set_map by (simp add: tx_inv_def tables_inv_def refs_ok_alt image_comp comp_def)
  qed (use inv in \<open>simp add: tx_inv_def\<close>)
  then show "tx_inv x (snd (update_agent_enabled x env t a en ts s))"
    using inv unfolding update_agent_enabled_def Let_def tx_inv_def
    by (auto split: sum.splits)
qed

lemma distinct_replace:
  assumes "distinct (map f xs)" and "distinct (map g xs)" and "\<forall>r \<in> set xs. f r \<noteq> k \<longrightarrow> g r \<noteq> g row"
  shows "distinct (map g (map (\<lambda>r. if f r = k then row else r) xs))"
  using assms by (induction xs) (auto simp: image_iff)

lemma inv_upsert_tenant [keeps_intros]:
  "tx_keeps (tx_inv x) (sql env (upsert_tenant_row x env t sl dn))"
proof (rule inv_sql)
  fix ts s
  assume inv: "tx_inv x s"
  let ?tb = "tx_tables s" and ?u = "tenant_uuid t"
  have ten: "tenants_ok ?tb" and refs: "refs_ok ?tb"
    using inv by (simp_all add: tx_inv_def tables_inv_def)
  have replace: "tables_inv x (tx_event_seq s) (?tb\<lparr>pt_tenants :=
      map (\<lambda>r. if tr_id r = ?u then row else r) (pt_tenants ?tb)\<rparr>)"
    if row: "tr_id row = ?u" "tr_slug row = sl" "tenant_checks row"
      and free: "\<not> list_ex (\<lambda>r. tr_slug r = sl \<and> tr_id r \<noteq> ?u) (pt_tenants ?tb)" for row
  proof (rule tables_inv_tenants)
    have ids: "map tr_id (map (\<lambda>r. if tr_id r = ?u then row else r) (pt_tenants ?tb)) =
        map tr_id (pt_tenants ?tb)"
      using row(1) by simp
    have slugs: "distinct (map tr_slug (map (\<lambda>r. if tr_id r = ?u then row else r) (pt_tenants ?tb)))"
      by (rule distinct_replace) (use ten free row in \<open>auto simp: tenants_ok_def list_ex_iff\<close>)
    show "tenants_ok (?tb\<lparr>pt_tenants := map (\<lambda>r. if tr_id r = ?u then row else r) (pt_tenants ?tb)\<rparr>)"
      using ten ids slugs row(3) by (auto simp: tenants_ok_def simp del: map_map)
    show "refs_ok (?tb\<lparr>pt_tenants := map (\<lambda>r. if tr_id r = ?u then row else r) (pt_tenants ?tb)\<rparr>)"
      using refs by (simp add: refs_ok_def ids del: map_map)
  qed (use inv in \<open>simp add: tx_inv_def\<close>)
  have add: "tables_inv x (tx_event_seq s) (?tb\<lparr>pt_tenants := pt_tenants ?tb @ [row]\<rparr>)"
    if row: "tr_id row = ?u" "tr_slug row = sl" "tenant_checks row" "?u \<notin> tr_id ` set (pt_tenants ?tb)"
      and free: "\<not> list_ex (\<lambda>r. tr_slug r = sl \<and> tr_id r \<noteq> ?u) (pt_tenants ?tb)" for row
  proof -
    have "sl \<notin> tr_slug ` set (pt_tenants ?tb)"
      using row(4) free by (force simp: list_ex_iff)
    then show ?thesis
      by (intro tables_inv_tenants)
        (use inv ten refs row in \<open>auto simp: tx_inv_def tenants_ok_def refs_ok_def\<close>)
  qed
  have fresh: "tenant_checks (r\<lparr>tr_slug := sl, tr_display_name := dn, tr_updated_at := n\<rparr>)"
    if "tenant_checks \<lparr>tr_id = ?u, tr_slug = sl, tr_display_name = dn, tr_enabled = True,
        tr_created_at = n, tr_updated_at = n\<rparr>" for r n
    using that by (simp add: tenant_checks_def)
  show "tx_inv x (snd (upsert_tenant_row x env t sl dn ts s))"
  proof (cases "first_row (filter (\<lambda>r. tr_id r = ?u) (pt_tenants ?tb))")
    case None
    then have "?u \<notin> tr_id ` set (pt_tenants ?tb)"
      by (auto simp: filter_empty_conv)
    then show ?thesis
      using inv unfolding upsert_tenant_row_def Let_def None option.case
      by (auto simp: tx_inv_def intro!: add split: sum.splits)
  next
    case (Some r)
    then have r: "r \<in> set (pt_tenants ?tb)" "tr_id r = ?u"
      using first_row_Some by fastforce+
    then have "?u \<in> tr_id ` set (pt_tenants ?tb)" by force
    then show ?thesis
      using r(2) inv fresh unfolding upsert_tenant_row_def Let_def Some option.case
      by (auto simp: tx_inv_def intro!: replace split: sum.splits)
  qed
qed

text \<open>Enrolling: the count is taken under the tenant context, so it is the tenant's count.\<close>

lemma upsert_agent_inv:
  assumes inv: "tx_inv x s" and run: "upsert_agent_row x env t a od ts s = (Inr row, s')"
    and cap: "list_ex (\<lambda>r. ar_tenant_id r = tenant_uuid t \<and> ar_agent_id r = agent_id_str a)
        (pt_agents (tx_tables s)) \<or>
      length (filter (\<lambda>r. ar_tenant_id r = tenant_uuid t) (pt_agents (tx_tables s))) < MAX_AGENTS_PER_TENANT"
  shows "tx_inv x s'"
proof -
  let ?tb = "tx_tables s" and ?u = "tenant_uuid t" and ?a = "agent_id_str a"
  let ?hit = "\<lambda>r. ar_tenant_id r = ?u \<and> ar_agent_id r = ?a"
  have ag: "agents_ok ?tb" and refs: "refs_ok ?tb"
    using inv by (simp_all add: tx_inv_def tables_inv_def)
  obtain new where new: "ar_tenant_id new = ?u" "ar_agent_id new = ?a"
    and ten: "?u \<in> tr_id ` set (pt_tenants ?tb)"
    and s': "s' = s\<lparr>tx_tables := ?tb\<lparr>pt_agents := (if list_ex ?hit (pt_agents ?tb)
           then map (\<lambda>r. if ?hit r then new else r) (pt_agents ?tb) else pt_agents ?tb @ [new])\<rparr>\<rparr>"
  proof (cases "first_row (filter ?hit (pt_agents ?tb))")
    case None
    then show thesis
      using run [unfolded upsert_agent_row_def Let_def None option.case]
      by (intro that [of "\<lparr>ar_tenant_id = ?u, ar_agent_id = ?a, ar_display_name = od,
          ar_enabled = True, ar_enrolled_at = now_of env, ar_updated_at = now_of env,
          ar_last_seen_at = None\<rparr>"]) (auto split: if_splits sum.splits)
  next
    case (Some r)
    then have "?hit r" using first_row_Some by fastforce
    then show thesis
      using run [unfolded upsert_agent_row_def Let_def Some option.case]
      by (intro that [of "r\<lparr>ar_display_name := od, ar_enabled := True, ar_updated_at := now_of env\<rparr>"])
        (auto split: if_splits sum.splits)
  qed
  show ?thesis
  proof (cases "list_ex ?hit (pt_agents ?tb)")
    case True
    let ?rows = "map (\<lambda>r. if ?hit r then new else r) (pt_agents ?tb)"
    have keys: "map (\<lambda>r. (ar_tenant_id r, ar_agent_id r)) ?rows =
        map (\<lambda>r. (ar_tenant_id r, ar_agent_id r)) (pt_agents ?tb)"
      and tens: "map ar_tenant_id ?rows = map ar_tenant_id (pt_agents ?tb)"
      using new by simp_all
    have "agents_ok (?tb\<lparr>pt_agents := ?rows\<rparr>)"
      by (rule agents_ok_keys [OF ag]) (use keys in simp)
    moreover have "refs_ok (?tb\<lparr>pt_agents := ?rows\<rparr>)"
      using refs arg_cong [OF keys, of set] arg_cong [OF tens, of set]
      unfolding list.set_map by (simp add: refs_ok_alt image_comp comp_def)
    ultimately show ?thesis
      using inv True unfolding s' tx_inv_def by (simp add: tables_inv_agents)
  next
    case False
    then have fresh: "(?u, ?a) \<notin> (\<lambda>r. (ar_tenant_id r, ar_agent_id r)) ` set (pt_agents ?tb)"
      by (auto simp: list_ex_iff)
    have "agents_ok (?tb\<lparr>pt_agents := pt_agents ?tb @ [new]\<rparr>)"
      using ag fresh new cap False by (auto simp: agents_ok_def)
    moreover have "refs_ok (?tb\<lparr>pt_agents := pt_agents ?tb @ [new]\<rparr>)"
      using refs new ten by (auto simp: refs_ok_def)
    ultimately show ?thesis
      using inv False unfolding s' tx_inv_def by (simp add: tables_inv_agents)
  qed
qed

lemma tx_inv_begin: "store_inv x db \<Longrightarrow> tx_inv x (tx_begin db)"
  by (simp add: store_inv_tables tx_inv_def tx_begin_def)

lemma keeps_tx_inv:
  assumes "store_inv x db" and "with_tx env m db = (r, db')"
    and "tx_keeps (seq_ge (db_event_seq db)) m" and "tx_keeps (tx_inv x) m"
  shows "store_inv x db'"
  by (rule with_tx_inv [OF assms(1-3)])
    (use keepsD [OF assms(4) tx_inv_begin [OF assms(1)]] in \<open>simp add: tx_inv_def\<close>)

lemma load_inv:
  "store_inv x db \<Longrightarrow> load_envelopes_after_bounded x env sc af l b db = (r, db') \<Longrightarrow> store_inv x db'"
  unfolding load_envelopes_after_bounded_def require_enabled_tenant_def
  by (auto split: sum.splits intro!: keeps_intros elim!: keeps_tx_inv)

lemma load_projection_inv:
  "store_inv x db \<Longrightarrow> load_projection x env t db = (r, db') \<Longrightarrow> store_inv x db'"
  unfolding load_projection_def require_enabled_tenant_def
  by (erule keeps_tx_inv, assumption) (intro keeps_intros)+

lemma list_agents_inv:
  "store_inv x db \<Longrightarrow> list_agents x collate env t db = (r, db') \<Longrightarrow> store_inv x db'"
  unfolding list_agents_def require_enabled_tenant_def
  by (erule keeps_tx_inv, assumption) (intro keeps_intros)+

lemma upsert_tenant_inv:
  "store_inv x db \<Longrightarrow> upsert_tenant_as x env t sl dn ac db = (r, db') \<Longrightarrow> store_inv x db'"
  unfolding upsert_tenant_as_def Let_def
  by (auto split: sum.splits intro!: keeps_intros elim!: keeps_tx_inv)

lemma set_agent_enabled_inv:
  "store_inv x db \<Longrightarrow> set_agent_enabled_as x env t a en ac db = (r, db') \<Longrightarrow> store_inv x db'"
  unfolding set_agent_enabled_as_def require_enabled_tenant_def
  by (auto split: sum.splits intro!: keeps_intros elim!: keeps_tx_inv)

lemma create_ticket_inv:
  "store_inv x db \<Longrightarrow> create_stream_ticket x env rnd t su au ttl db = (r, db') \<Longrightarrow> store_inv x db'"
  unfolding create_stream_ticket_def require_enabled_tenant_def Let_def
  by (auto split: sum.splits intro!: keeps_intros elim!: keeps_tx_inv)

lemma consume_ticket_inv:
  "store_inv x db \<Longrightarrow> consume_stream_ticket x env t tk db = (r, db') \<Longrightarrow> store_inv x db'"
  unfolding consume_stream_ticket_def require_enabled_tenant_def
  by (erule keeps_tx_inv, assumption) (intro keeps_intros)+

lemma cleanup_inv:
  "store_inv x db \<Longrightarrow> cleanup_stream_tickets x env t db = (r, db') \<Longrightarrow> store_inv x db'"
  unfolding cleanup_stream_tickets_def require_enabled_tenant_def
  by (erule keeps_tx_inv, assumption) (intro keeps_intros)+

lemma enroll_body_inv:
  assumes ok: "uuid_ok x" and inv: "tx_inv x s"
    and s1: "set_tenant_context x env t s = (Inr (), s1)"
    and s2: "require_enabled_tenant x env t s1 = (Inr (), s2)"
    and s3: "lock_tenant env t s2 = (Inr (), s3)"
    and count: "AGENT_CARDINALITY_SQL x t a u (s3\<lparr>tx_stmt := Suc (tx_stmt s3)\<rparr>) = (Inr (n, already), s4)"
    and cap: "validate_agent_capacity t n already = Inr ()"
    and up: "upsert_agent_row x env t a od u' (s4\<lparr>tx_stmt := Suc (tx_stmt s4)\<rparr>) = (Inr row, s5)"
  shows "tx_inv x s5"
proof -
  let ?s3 = "s3\<lparr>tx_stmt := Suc (tx_stmt s3)\<rparr>"
  have same: "tx_tables s3 = tx_tables s" "tx_event_seq s3 = tx_event_seq s"
    "tx_tenant ?s3 = Some (x_uuid_show x (tenant_uuid t))"
    using s1 s3 require_enabled_tenant_Inr [OF s2] by (auto simp: tx_simps)
  have s4: "s4 = ?s3" "n = int (length (filter (\<lambda>r. ar_tenant_id r = tenant_uuid t) (pt_agents (tx_tables s))))"
    "already = list_ex (\<lambda>r. ar_tenant_id r = tenant_uuid t \<and> ar_agent_id r = agent_id_str a)
       (pt_agents (tx_tables s))"
    using count
    by (auto simp: AGENT_CARDINALITY_SQL_def Let_def same(1,2) rls_tenant [OF ok same(3)] list_ex_iff
        filter_empty_conv)
  show ?thesis
  proof (rule upsert_agent_inv [OF _ up])
    show "tx_inv x (s4\<lparr>tx_stmt := Suc (tx_stmt s4)\<rparr>)"
      using inv by (simp add: tx_inv_def s4(1) same)
    show "list_ex (\<lambda>r. ar_tenant_id r = tenant_uuid t \<and> ar_agent_id r = agent_id_str a)
        (pt_agents (tx_tables (s4\<lparr>tx_stmt := Suc (tx_stmt s4)\<rparr>))) \<or>
      length (filter (\<lambda>r. ar_tenant_id r = tenant_uuid t)
        (pt_agents (tx_tables (s4\<lparr>tx_stmt := Suc (tx_stmt s4)\<rparr>)))) < MAX_AGENTS_PER_TENANT"
      using cap s4(2,3) by (auto simp: validate_agent_capacity_def s4(1) same split: if_splits)
  qed
qed

lemma enroll_inv:
  assumes ok: "uuid_ok x" and inv: "store_inv x db"
    and run: "enroll_agent_as x env t a dn ac db = (r, db')"
  shows "store_inv x db'"
proof (cases "required_actor_id ac")
  case (Inl e)
  then show ?thesis using inv run by (simp add: enroll_agent_as_def)
next
  case (Inr actor)
  define m where "m = tx_bind (set_tenant_context x env t) (\<lambda>_.
           tx_bind (require_enabled_tenant x env t) (\<lambda>_.
           tx_bind (lock_tenant env t) (\<lambda>_.
           tx_bind (sql env (AGENT_CARDINALITY_SQL x t a)) (\<lambda>(agent_count, already_enrolled).
           tx_bind (tx_lift (validate_agent_capacity t agent_count already_enrolled)) (\<lambda>_.
           tx_bind (sql env (upsert_agent_row x env t a (normalized_display_name dn))) (\<lambda>row.
           tx_bind (tx_lift (agent_record_from_row t row)) (\<lambda>agent.
           tx_bind (sql env (insert_audit x env t actor ''agent.enroll'' ''agent''
             (agent_id_str a) [(''display_name'', detail_of_option (normalized_display_name dn))]))
           (\<lambda>_. tx_return agent))))))))"
  have "with_tx env m db = (r, db')"
    using run Inr by (simp add: enroll_agent_as_def Let_def m_def)
  then show ?thesis
  proof (rule with_tx_inv [OF inv])
    show "tx_keeps (seq_ge (db_event_seq db)) m"
      unfolding m_def require_enabled_tenant_def by (intro keeps_intros)
    fix b s
    assume "m (tx_begin db) = (Inr b, s)"
    then obtain s1 s2 s3 u n al s4 u' row s5 u2 s6 where
      s1: "set_tenant_context x env t (tx_begin db) = (Inr (), s1)" and
      s2: "require_enabled_tenant x env t s1 = (Inr (), s2)" and
      s3: "lock_tenant env t s2 = (Inr (), s3)" and
      s4: "AGENT_CARDINALITY_SQL x t a u (s3\<lparr>tx_stmt := Suc (tx_stmt s3)\<rparr>) = (Inr (n, al), s4)" and
      cap: "validate_agent_capacity t n al = Inr ()" and
      s5: "upsert_agent_row x env t a (normalized_display_name dn) u'
             (s4\<lparr>tx_stmt := Suc (tx_stmt s4)\<rparr>) = (Inr row, s5)" and
      s6: "sql env (insert_audit x env t actor ''agent.enroll'' ''agent'' (agent_id_str a)
             [(''display_name'', detail_of_option (normalized_display_name dn))]) s5 = (Inr (), s6)"
      and s: "s = s6"
      unfolding m_def tx_bind_Inr tx_lift_Inr sql_Inr tx_return_Inr by (auto simp: sql_Inr tx_simps)
    have "tx_inv x s5"
      by (rule enroll_body_inv [OF ok tx_inv_begin [OF inv] s1 s2 s3 s4 cap s5])
    then show "tables_inv x (tx_event_seq s) (tx_tables s)"
      using keepsD [OF inv_audit _ s6] s by (simp add: tx_inv_def)
  qed
qed

section \<open>Reachable stores\<close>

definition empty_store :: "'v pg_db" where
  "empty_store =
     \<lparr>db_tables = \<lparr>pt_tenants = [], pt_agents = [], pt_events = [], pt_projections = [],
        pt_audit = [], pt_tickets = []\<rparr>,
      db_event_seq = 0, db_audit_seq = 0, db_notifications = []\<rparr>"

text \<open>Any operation, with any faults, clock and commit fate, as often as one likes.\<close>

inductive store_step :: "'v ext \<Rightarrow> 'v pg_db \<Rightarrow> 'v pg_db \<Rightarrow> bool" for x where
  step_append: "valid_agent_id (env_agent_id e) \<Longrightarrow> append_envelope x env e db = (r, db') \<Longrightarrow>
    store_step x db db'"
| step_load: "load_envelopes_after_bounded x env sc af l b db = (r, db') \<Longrightarrow> store_step x db db'"
| step_tenant: "upsert_tenant_as x env t sl dn ac db = (r, db') \<Longrightarrow> store_step x db db'"
| step_list: "list_agents x collate env t db = (r, db') \<Longrightarrow> store_step x db db'"
| step_projection: "load_projection x env t db = (r, db') \<Longrightarrow> store_step x db db'"
| step_enroll: "enroll_agent_as x env t a od ac db = (r, db') \<Longrightarrow> store_step x db db'"
| step_enabled: "set_agent_enabled_as x env t a en ac db = (r, db') \<Longrightarrow> store_step x db db'"
| step_create: "create_stream_ticket x env rnd t su au ttl db = (r, db') \<Longrightarrow> store_step x db db'"
| step_consume: "consume_stream_ticket x env t tk db = (r, db') \<Longrightarrow> store_step x db db'"
| step_cleanup: "cleanup_stream_tickets x env t db = (r, db') \<Longrightarrow> store_step x db db'"

inductive_cases store_stepE: "store_step x db db'"

definition reachable :: "'v ext \<Rightarrow> 'v pg_db \<Rightarrow> bool" where
  "reachable x db \<longleftrightarrow> (store_step x)\<^sup>*\<^sup>* empty_store db"

lemma empty_inv: "store_inv x empty_store"
  by (simp add: store_inv_def empty_store_def events_ok_def agents_ok_def tenants_ok_def refs_ok_def
      tickets_ok_def projections_ok_def tenant_rows_def)

lemma step_inv:
  assumes "codec_ok x" and "store_step x db db'" and "store_inv x db"
  shows "store_inv x db'"
  using assms(2,3)
proof cases
  case (step_enroll env t a od ac r)
  then show ?thesis
    using assms enroll_inv unfolding codec_ok_def by blast
qed (use assms in \<open>blast intro: append_inv load_inv upsert_tenant_inv list_agents_inv
    load_projection_inv set_agent_enabled_inv create_ticket_inv consume_ticket_inv cleanup_inv\<close>)+

lemma reachable_inv:
  assumes "codec_ok x" and "reachable x db"
  shows "store_inv x db"
  using assms(2) unfolding reachable_def
  by (induction rule: rtranclp_induct) (auto simp: empty_inv intro: step_inv [OF assms(1)])

end
