(* ===== verification/Store_Log.thy ===== *)
theory Store_Log
  imports Store_Facts
begin

text \<open>
  The store as an append-only log per tenant. \<open>tenant_log\<close> is the abstraction of the event
  table; \<open>log_append\<close> is what \<open>SignalWriter::append\<close> promises and the locale \<open>signal_reader\<close>
  what \<open>SignalReader::load_after\<close> promises (\<open>skid-monitor-core/src/store.rs\<close>). The
  PostgreSQL operations refine both.
\<close>

section \<open>The abstract log\<close>

definition row_records :: "'v ext \<Rightarrow> 'v event_row list \<Rightarrow> signal_record list" where
  "row_records x rows = concat (map (\<lambda>r. case row_record x r of Inr rec \<Rightarrow> [rec] | Inl _ \<Rightarrow> []) rows)"

definition tenant_log :: "'v ext \<Rightarrow> tenant_id \<Rightarrow> 'v pg_db \<Rightarrow> signal_record list" where
  "tenant_log x t db = row_records x (tenant_rows (tenant_uuid t) (db_tables db))"

definition same_key :: "signal_envelope \<Rightarrow> signal_record \<Rightarrow> bool" where
  "same_key e r \<longleftrightarrow> env_agent_id (sr_envelope r) = env_agent_id e \<and>
     env_sequence (sr_envelope r) = env_sequence e"

definition log_append ::
  "signal_cursor \<Rightarrow> signal_envelope \<Rightarrow> signal_record list \<Rightarrow>
   (pg_store_error + append_outcome) \<times> signal_record list"
where
  "log_append c e log = (case find (same_key e) log of
     None \<Rightarrow> (Inr \<lparr>ao_cursor = c, ao_inserted = True\<rparr>,
              log @ [\<lparr>sr_cursor = c, sr_envelope = e\<rparr>])
   | Some r \<Rightarrow>
       if env_payload (sr_envelope r) = env_payload e
       then (Inr \<lparr>ao_cursor = sr_cursor r, ao_inserted = False\<rparr>, log)
       else (Inl (SequenceConflict (env_agent_id e) (env_sequence e)), log))"

section \<open>Rows and records\<close>

lemma row_record_fields:
  assumes "row_record x r = Inr rec"
  shows "sr_cursor rec = word_of_int (er_cursor r) \<and>
    env_scope (sr_envelope rec) = Tenant (TenantId (er_tenant_id r)) \<and>
    agent_id_new (er_agent_id r) = Inr (env_agent_id (sr_envelope rec)) \<and>
    parse_u64 (show_nat (er_sequence r)) = Some (env_sequence (sr_envelope rec)) \<and>
    x_from_value_signal x (er_payload r) = Inr (env_payload (sr_envelope rec))"
  using assms
  by (auto simp: row_record_def signal_record_from_row_def result_simps cursor_from_row_Inr
      from_pg_u64_text_def numeric_to_text_def)

lemma row_records_map:
  "\<forall>r \<in> set rows. is_ok (row_record x r) \<Longrightarrow>
   row_records x rows = map (\<lambda>r. projr (row_record x r)) rows"
  by (induction rows) (auto simp: row_records_def is_ok_iff)

lemma row_records_append [simp]: "row_records x (xs @ ys) = row_records x xs @ row_records x ys"
  by (simp add: row_records_def)

lemma tenant_rows_ok:
  assumes "store_inv x db"
  shows "\<forall>r \<in> set (tenant_rows u (db_tables db)). is_ok (row_record x r) \<and> event_checks x r \<and>
      0 < er_cursor r \<and> er_cursor r \<le> 2 ^ 63 - 1 \<and> 0 < er_payload_bytes r"
    and "sorted_wrt (<) (map er_cursor (tenant_rows u (db_tables db)))"
  using assms
  by (auto simp: store_inv_def events_ok_def tenant_rows_def event_checks_def sorted_wrt_map
      intro!: sorted_wrt_filter)

lemma cursor_less:
  "0 \<le> a \<Longrightarrow> 0 \<le> b \<Longrightarrow> a < 2 ^ 64 \<Longrightarrow> b < 2 ^ 64 \<Longrightarrow>
   (word_of_int a :: u64) < word_of_int b \<longleftrightarrow> a < b"
  by (simp add: word_less_def uint_word_of_int_eq take_bit_int_eq_self)

lemma row_cursor_less:
  assumes "store_inv x db" and "a \<in> set (tenant_rows u (db_tables db))"
    and "b \<in> set (tenant_rows u (db_tables db))"
  shows "(word_of_int (er_cursor a) :: u64) < word_of_int (er_cursor b) \<longleftrightarrow> er_cursor a < er_cursor b"
  using tenant_rows_ok(1) [OF assms(1), of u] assms(2,3) by (intro cursor_less) force+

lemma tenant_log_map:
  "store_inv x db \<Longrightarrow>
   tenant_log x t db = map (\<lambda>r. projr (row_record x r)) (tenant_rows (tenant_uuid t) (db_tables db))"
  unfolding tenant_log_def using tenant_rows_ok(1) by (intro row_records_map) blast

lemma projr_cursor:
  "is_ok (row_record x r) \<Longrightarrow> sr_cursor (projr (row_record x r)) = word_of_int (er_cursor r)"
  using row_record_fields by (fastforce simp: is_ok_iff)

lemma tenant_log_sorted:
  assumes inv: "store_inv x db"
  shows "sorted_wrt (<) (map sr_cursor (tenant_log x t db))"
proof -
  let ?rows = "tenant_rows (tenant_uuid t) (db_tables db)"
  have "sorted_wrt (\<lambda>a b. er_cursor a < er_cursor b) ?rows"
    using tenant_rows_ok(2) [OF inv] by (simp add: sorted_wrt_map)
  then have "sorted_wrt (\<lambda>a b. sr_cursor (projr (row_record x a)) < sr_cursor (projr (row_record x b))) ?rows"
    by (rule sorted_wrt_mono_rel [rotated])
      (use tenant_rows_ok(1) [OF inv, of "tenant_uuid t"] row_cursor_less [OF inv] in
        \<open>auto simp: projr_cursor\<close>)
  then show ?thesis
    by (simp add: tenant_log_map [OF inv] sorted_wrt_map)
qed

text \<open>Key and payload of a record are those of its row.\<close>

lemma parse_show_nat: "n \<le> 18446744073709551615 \<Longrightarrow> parse_u64 (show_nat n) = Some (of_nat n)"
  using parse_show_u64 [of "of_nat n"] by (simp add: show_u64_def unat_of_nat)

lemma row_same_key:
  assumes rec: "row_record x r = Inr rec" and "valid_agent_id (env_agent_id e)"
    and agent: "valid_agent_id (AgentId (er_agent_id r))" and sq: "event_checks x r"
  shows "same_key e rec \<longleftrightarrow> er_agent_id r = agent_id_str (env_agent_id e) \<and>
    er_sequence r = unat (env_sequence e)"
proof -
  have n: "er_sequence r \<le> 18446744073709551615"
    using sq by (simp add: event_checks_def)
  have "env_agent_id (sr_envelope rec) = AgentId (er_agent_id r)"
    using row_record_fields [OF rec] agent by (simp add: valid_agent_id_def)
  moreover have "env_sequence (sr_envelope rec) = of_nat (er_sequence r)"
    using row_record_fields [OF rec] parse_show_nat [OF n] by simp
  moreover have "(of_nat (er_sequence r) :: u64) = w \<longleftrightarrow> er_sequence r = unat w" for w
    using n by (auto simp: unat_of_nat)
  ultimately show ?thesis
    by (cases "env_agent_id e") (auto simp: same_key_def)
qed

section \<open>Appending refines the log\<close>

lemma find_unique:
  assumes "r \<in> set xs" and "P r" and "\<And>q. q \<in> set xs \<Longrightarrow> P q \<Longrightarrow> q = r"
  shows "find P xs = Some r"
proof (cases "find P xs")
  case None
  then show ?thesis using assms(1,2) by (simp add: find_None_iff)
next
  case (Some q)
  then have "q \<in> set xs" "P q" by (auto simp: find_Some_iff)
  then show ?thesis using Some assms(3) by blast
qed

lemma tenant_log_mem:
  assumes "store_inv x db"
  shows "rec \<in> set (tenant_log x t db) \<longleftrightarrow>
    (\<exists>r \<in> set (pt_events (db_tables db)). er_tenant_id r = tenant_uuid t \<and> row_record x r = Inr rec)"
proof -
  have "\<forall>r \<in> set (tenant_rows (tenant_uuid t) (db_tables db)). is_ok (row_record x r)"
    using tenant_rows_ok(1) [OF assms] by blast
  then show ?thesis
    unfolding tenant_log_map [OF assms] by (force simp: tenant_rows_def is_ok_iff)
qed

lemma find_key_None:
  assumes inv: "store_inv x db" and agent: "valid_agent_id (env_agent_id e)"
    and new: "(tenant_uuid t, agent_id_str (env_agent_id e), unat (env_sequence e)) \<notin>
      set (map event_key (pt_events (db_tables db)))"
  shows "find (same_key e) (tenant_log x t db) = None"
  unfolding find_None_iff
proof
  assume "\<exists>rec. rec \<in> set (tenant_log x t db) \<and> same_key e rec"
  then obtain rec r where r: "r \<in> set (pt_events (db_tables db))" "er_tenant_id r = tenant_uuid t"
    "row_record x r = Inr rec" "same_key e rec"
    using tenant_log_mem [OF inv] by blast
  have "valid_agent_id (AgentId (er_agent_id r))" "event_checks x r"
    using inv r(1) by (auto simp: store_inv_def events_ok_def)
  then have "event_key r = (tenant_uuid t, agent_id_str (env_agent_id e), unat (env_sequence e))"
    using row_same_key [OF r(3) agent] r(2,4) by (simp add: event_key_def)
  then show False
    using new r(1) by (metis image_eqI list.set_map)
qed

lemma find_key_Some:
  assumes inv: "store_inv x db" and agent: "valid_agent_id (env_agent_id e)"
    and row: "row \<in> set (pt_events (db_tables db))"
      "event_key row = (tenant_uuid t, agent_id_str (env_agent_id e), unat (env_sequence e))"
  obtains rec where "row_record x row = Inr rec" "find (same_key e) (tenant_log x t db) = Some rec"
proof -
  have wf: "valid_agent_id (AgentId (er_agent_id r))" "event_checks x r" "is_ok (row_record x r)"
    if "r \<in> set (pt_events (db_tables db))" for r
    using inv that by (auto simp: store_inv_def events_ok_def)
  have dist: "distinct (map event_key (pt_events (db_tables db)))"
    using inv by (simp add: store_inv_def events_ok_def)
  obtain rec where rec: "row_record x row = Inr rec"
    using wf(3) [OF row(1)] by (auto simp: is_ok_iff)
  have "find (same_key e) (tenant_log x t db) = Some rec"
  proof (rule find_unique)
    show "rec \<in> set (tenant_log x t db)"
      using tenant_log_mem [OF inv] row rec by (auto simp: event_key_def)
    show "same_key e rec"
      using row_same_key [OF rec agent wf(1,2) [OF row(1)]] row(2) by (simp add: event_key_def)
    fix q
    assume "q \<in> set (tenant_log x t db)" "same_key e q"
    then obtain r where r: "r \<in> set (pt_events (db_tables db))" "er_tenant_id r = tenant_uuid t"
      "row_record x r = Inr q"
      using tenant_log_mem [OF inv] by blast
    have "event_key r = event_key row"
      using row_same_key [OF r(3) agent wf(1,2) [OF r(1)]] \<open>same_key e q\<close> r(2) row(2)
      by (simp add: event_key_def)
    then have "r = row"
      using distinct_map_eq [OF dist r(1) row(1)] by blast
    then show "q = rec" using r(3) rec by simp
  qed
  then show thesis using rec that by blast
qed

lemma log_below_next:
  assumes inv: "store_inv x db" and rec: "rec \<in> set (tenant_log x t db)"
  shows "sr_cursor rec < word_of_int (db_event_seq db + 1)"
proof -
  obtain r where r: "r \<in> set (pt_events (db_tables db))" "row_record x r = Inr rec"
    using tenant_log_mem [OF inv] rec by blast
  have "0 < er_cursor r" "er_cursor r \<le> db_event_seq db" "db_event_seq db \<le> 2 ^ 63 - 1"
    using inv r(1) by (auto simp: store_inv_def events_ok_def event_checks_def)
  then have "(word_of_int (er_cursor r) :: u64) < word_of_int (db_event_seq db + 1)"
    by (subst cursor_less) simp_all
  then show ?thesis
    using row_record_fields [OF r(2)] by argo
qed

lemma append_body_log:
  assumes ok: "codec_ok x" and inv: "store_inv x db" and agent: "valid_agent_id (env_agent_id e)"
    and scope: "env_scope e = Tenant t" and canon: "canonical_signal_payload x (env_payload e) = Inr p"
    and run: "append_body x env t e p (tx_begin db) = (Inr out, s)"
  shows "log_append (word_of_int (db_event_seq db + 1)) e (tenant_log x t db) =
      (Inr out, tenant_log x t (tx_commit s db))"
    and "u \<noteq> t \<Longrightarrow> tenant_log x u (tx_commit s db) = tenant_log x u db"
proof -
  have uuid: "uuid_ok x" using ok by (simp add: codec_ok_def)
  have "log_append (word_of_int (db_event_seq db + 1)) e (tenant_log x t db) =
      (Inr out, tenant_log x t (tx_commit s db)) \<and>
    (u \<noteq> t \<longrightarrow> tenant_log x u (tx_commit s db) = tenant_log x u db)"
    using run uuid
  proof (cases rule: append_body_Inr)
    case (existing row)
    then have row: "row \<in> set (pt_events (db_tables db))"
      by (simp add: tx_begin_def)
    obtain rec where rec: "row_record x row = Inr rec" "find (same_key e) (tenant_log x t db) = Some rec"
      using find_key_Some [OF inv agent row existing(2)] .
    have "env_payload (sr_envelope rec) = env_payload e"
      using row_record_fields [OF rec(1)] ok canon existing(4) by (auto simp: codec_ok_def)
    moreover have "tenant_log x w (tx_commit s db) = tenant_log x w db" for w
      using existing(7) by (simp add: tenant_log_def tx_commit_def tx_begin_def)
    ultimately show ?thesis
      using rec row_record_fields [OF rec(1)] existing(6) by (simp add: log_append_def)
  next
    case (inserted c stored rows')
    have c: "c = db_event_seq db + 1" "0 \<le> c"
      using inserted(1) inv by (auto simp: tx_begin_def store_inv_def events_ok_def)
    have rec: "row_record x (event_row_of env t e stored (int (cp_byte_len p)) c) =
        Inr \<lparr>sr_cursor = word_of_int c, sr_envelope = e\<rparr>"
      by (rule event_row_record [OF ok scope agent canon inserted(3) c(2)])
    have rows: "tenant_rows v (db_tables (tx_commit s db)) = tenant_rows v (db_tables db) @
        (if tenant_uuid t = v then [event_row_of env t e stored (int (cp_byte_len p)) c] else [])" for v
      using inserted(7) by (simp add: tenant_rows_def tx_commit_def tx_begin_def)
    have "find (same_key e) (tenant_log x t db) = None"
      by (rule find_key_None [OF inv agent]) (use inserted(10) in \<open>simp add: tx_begin_def\<close>)
    moreover have "tenant_log x t (tx_commit s db) =
        tenant_log x t db @ [\<lparr>sr_cursor = word_of_int c, sr_envelope = e\<rparr>]"
      by (simp add: tenant_log_def rows) (simp add: row_records_def rec)
    moreover have "tenant_uuid t \<noteq> tenant_uuid u" if "u \<noteq> t"
      using that by (cases t; cases u) simp
    ultimately show ?thesis
      using inserted(5) c(1) by (auto simp: log_append_def tenant_log_def rows)
  qed
  then show "log_append (word_of_int (db_event_seq db + 1)) e (tenant_log x t db) =
      (Inr out, tenant_log x t (tx_commit s db))"
    and "u \<noteq> t \<Longrightarrow> tenant_log x u (tx_commit s db) = tenant_log x u db"
    by blast+
qed

lemma tenant_log_tables: "db_tables db' = db_tables db \<Longrightarrow> tenant_log x t db' = tenant_log x t db"
  by (simp add: tenant_log_def)

lemma append_log:
  assumes ok: "codec_ok x" and inv: "store_inv x db" and agent: "valid_agent_id (env_agent_id e)"
    and scope: "env_scope e = Tenant t" and run: "append_envelope x env e db = (r, db')"
  defines "next \<equiv> word_of_int (db_event_seq db + 1)"
  shows "(case r of
      Inr out \<Rightarrow> log_append next e (tenant_log x t db) = (Inr out, tenant_log x t db')
    | Inl err \<Rightarrow> tenant_log x t db' = tenant_log x t db \<or>
        pe_commit env = CommitUnacknowledged \<and>
        (\<exists>out. log_append next e (tenant_log x t db) = (Inr out, tenant_log x t db'))) \<and>
    (\<forall>u. u \<noteq> t \<longrightarrow> tenant_log x u db' = tenant_log x u db)"
proof (cases "canonical_signal_payload x (env_payload e)")
  case (Inl err)
  then show ?thesis
    using run scope by (auto simp: append_envelope_def tenant_scope_def)
next
  case (Inr p)
  have "with_tx env (append_body x env t e p) db = (r, db')"
    using run scope Inr by (simp add: append_envelope_def tenant_scope_def)
  then show ?thesis
  proof (cases rule: with_tx_cases)
    case (unchanged err)
    then show ?thesis using tenant_log_tables [OF unchanged(2)] by auto
  next
    case (installed out s)
    note body = append_body_log [OF ok inv agent scope Inr installed(1), folded next_def]
    show ?thesis
      using installed(2,3) body by auto
  qed
qed

section \<open>One page of a replay\<close>

text \<open>The rows that fit a byte budget; the first row is always part of a page.\<close>

fun fit :: "int \<Rightarrow> int \<Rightarrow> 'v event_row list \<Rightarrow> 'v event_row list" where
  "fit budget used [] = []"
| "fit budget used (r # rs) =
     (if used + er_payload_bytes r \<le> budget then r # fit budget (used + er_payload_bytes r) rs else [])"

definition page :: "int \<Rightarrow> 'v event_row list \<Rightarrow> 'v event_row list" where
  "page budget rows = (case rows of [] \<Rightarrow> [] | r # rs \<Rightarrow> r # fit budget (er_payload_bytes r) rs)"

definition payload_total :: "'v event_row list \<Rightarrow> int" where
  "payload_total rows = sum_list (map er_payload_bytes rows)"

lemma fit_take: "\<exists>k \<le> length rs. fit b u rs = take k rs"
proof (induction rs arbitrary: u)
  case (Cons r rs)
  obtain k where "k \<le> length rs" "fit b (u + er_payload_bytes r) rs = take k rs"
    using Cons by blast
  then show ?case
    by (cases "u + er_payload_bytes r \<le> b") (auto intro: exI [of _ "Suc k"] exI [of _ 0])
qed simp

lemma page_take: "\<exists>k \<le> length rs. page b rs = take k rs \<and> (rs \<noteq> [] \<longrightarrow> 0 < k)"
proof (cases rs)
  case (Cons r rest)
  obtain k where "k \<le> length rest" "fit b (er_payload_bytes r) rest = take k rest"
    using fit_take by blast
  then show ?thesis
    using Cons by (auto simp: page_def intro!: exI [of _ "Suc k"])
qed (simp add: page_def)

lemma fit_total: "u \<le> b \<Longrightarrow> u + payload_total (fit b u rs) \<le> b"
  by (induction rs arbitrary: u) (fastforce simp: payload_total_def)+

lemma fit_over: "b < u \<Longrightarrow> \<forall>r \<in> set rs. 0 < er_payload_bytes r \<Longrightarrow> fit b u rs = []"
  by (cases rs) auto

lemma page_total:
  assumes "\<forall>r \<in> set rs. 0 < er_payload_bytes r"
  shows "payload_total (page b rs) \<le> b \<or> length (page b rs) \<le> 1"
proof (cases rs)
  case (Cons r rest)
  show ?thesis
  proof (cases "er_payload_bytes r \<le> b")
    case True
    then show ?thesis
      using fit_total [OF True, of rest] Cons by (simp add: page_def payload_total_def)
  next
    case False
    then show ?thesis
      using fit_over [of b "er_payload_bytes r" rest] assms Cons by (simp add: page_def)
  qed
qed (simp add: page_def)

lemma fit_maximal:
  "length (fit b u rs) < length rs \<Longrightarrow>
   b < u + payload_total (fit b u rs) + er_payload_bytes (rs ! length (fit b u rs))"
  by (induction rs arbitrary: u) (fastforce simp: payload_total_def)+

lemma page_maximal:
  "length (page b rs) < length rs \<Longrightarrow>
   b < payload_total (page b rs) + er_payload_bytes (rs ! length (page b rs))"
  using fit_maximal by (cases rs) (fastforce simp: page_def payload_total_def)+

text \<open>The ranked window query selects exactly the page.\<close>

abbreviation meta :: "'v event_row \<Rightarrow> int \<times> int" where
  "meta r \<equiv> (er_cursor r, er_payload_bytes r)"

abbreviation in_budget :: "int \<Rightarrow> int \<times> nat \<times> int \<Rightarrow> bool" where
  "in_budget b \<equiv> \<lambda>(_, ordinal, cumulative_bytes). ordinal = 1 \<or> cumulative_bytes \<le> b"

lemma ranked_over:
  "b < u \<Longrightarrow> \<forall>r \<in> set rs. 0 < er_payload_bytes r \<Longrightarrow>
   filter (in_budget b) (ranked_metadata (Suc (Suc n)) u (map meta rs)) = []"
  by (induction rs arbitrary: u n) auto

lemma ranked_fit:
  "\<forall>r \<in> set rs. 0 < er_payload_bytes r \<Longrightarrow>
   map fst (filter (in_budget b) (ranked_metadata (Suc (Suc n)) u (map meta rs))) =
   map er_cursor (fit b u rs)"
proof (induction rs arbitrary: u n)
  case (Cons r rs)
  then show ?case
    using ranked_over [of b "u + er_payload_bytes r" rs "Suc n"]
    by (cases "u + er_payload_bytes r \<le> b") auto
qed simp

lemma fold_max_sorted:
  "sorted_wrt (<) (c # cs) \<Longrightarrow> fold max cs c = last (c # cs)" for c :: int
proof (induction cs arbitrary: c)
  case (Cons d ds)
  then have "max d c = d" by auto
  then show ?case using Cons by auto
qed simp

lemma cutoff_page:
  assumes pos: "\<forall>r \<in> set rs. 0 < er_payload_bytes r" and sorted: "sorted_wrt (<) (map er_cursor rs)"
  shows "cutoff b (ranked_metadata 1 0 (map meta rs)) =
    (if rs = [] then None else Some (er_cursor (last (page b rs))))"
proof (cases rs)
  case (Cons r rest)
  have cs: "map fst (filter (in_budget b) (ranked_metadata 1 0 (map meta rs))) = map er_cursor (page b rs)"
    using ranked_fit [of rest b 0 "er_payload_bytes r"] pos Cons by (simp add: page_def)
  obtain k where k: "page b rs = take k rs" using page_take by blast
  have "sorted_wrt (<) (map er_cursor (page b rs))"
    using sorted by (metis k sorted_wrt_take take_map)
  then have "fold max (map er_cursor (fit b (er_payload_bytes r) rest)) (er_cursor r) =
      last (map er_cursor (page b rs))"
    using fold_max_sorted Cons by (simp add: page_def)
  moreover have "page b rs \<noteq> []" using Cons by (simp add: page_def)
  ultimately show ?thesis
    unfolding cutoff_def cs using Cons by (simp add: page_def last_map)
qed (simp add: cutoff_def)

lemma filter_upto_last:
  assumes sorted: "sorted_wrt (<) (map er_cursor rs)" and p: "p = take k rs" "p \<noteq> []"
  shows "filter (\<lambda>r. er_cursor r \<le> er_cursor (last p)) rs = p"
proof -
  have split: "rs = p @ drop k rs" using p(1) by simp
  have s: "sorted_wrt (<) (map er_cursor p @ map er_cursor (drop k rs))"
    using sorted split by (metis map_append)
  have "er_cursor r \<le> er_cursor (last p)" if r: "r \<in> set p" for r
  proof -
    obtain q l where q: "p = q @ [l]"
      using p(2) by (cases p rule: rev_cases) auto
    then show ?thesis
      using s r by (auto simp: sorted_wrt_append)
  qed
  moreover have "\<not> er_cursor r \<le> er_cursor (last p)" if "r \<in> set (drop k rs)" for r
    using s that last_in_set [OF p(2)] by (fastforce simp: sorted_wrt_append)
  ultimately show ?thesis
    by (subst split) (simp add: filter_empty_conv)
qed

definition rows_after :: "tenant_id \<Rightarrow> signal_cursor \<Rightarrow> 'v pg_db \<Rightarrow> 'v event_row list" where
  "rows_after t after db = filter (\<lambda>r. uint after < er_cursor r) (tenant_rows (tenant_uuid t) (db_tables db))"

definition records_after :: "signal_cursor \<Rightarrow> signal_record list \<Rightarrow> signal_record list" where
  "records_after after log = filter (\<lambda>r. after < sr_cursor r) log"

lemma rows_after_ok:
  assumes "store_inv x db"
  shows "\<forall>r \<in> set (rows_after t after db). is_ok (row_record x r) \<and> 0 < er_payload_bytes r \<and>
      er_tenant_id r = tenant_uuid t"
    and "sorted_wrt (<) (map er_cursor (rows_after t after db))"
proof -
  show "\<forall>r \<in> set (rows_after t after db). is_ok (row_record x r) \<and> 0 < er_payload_bytes r \<and>
      er_tenant_id r = tenant_uuid t"
    using tenant_rows_ok(1) [OF assms] by (auto simp: rows_after_def tenant_rows_def)
  show "sorted_wrt (<) (map er_cursor (rows_after t after db))"
    using tenant_rows_ok(2) [OF assms]
    unfolding rows_after_def sorted_wrt_map by (rule sorted_wrt_filter)
qed

lemma records_after_log:
  assumes inv: "store_inv x db"
  shows "records_after after (tenant_log x t db) = row_records x (rows_after t after db)"
proof -
  have "(after < sr_cursor (projr (row_record x r))) \<longleftrightarrow> uint after < er_cursor r"
    if "r \<in> set (tenant_rows (tenant_uuid t) (db_tables db))" for r
  proof -
    have r: "is_ok (row_record x r)" "0 < er_cursor r" "er_cursor r \<le> 2 ^ 63 - 1"
      using tenant_rows_ok(1) [OF inv] that by blast+
    then have "uint (word_of_int (er_cursor r) :: u64) = er_cursor r"
      by (simp add: uint_word_of_int_eq take_bit_int_eq_self)
    then show ?thesis
      using r by (simp add: projr_cursor word_less_def)
  qed
  then have "records_after after (tenant_log x t db) =
      map (\<lambda>r. projr (row_record x r)) (rows_after t after db)"
    unfolding records_after_def tenant_log_map [OF inv] rows_after_def filter_map comp_def
    by (intro arg_cong [where f = "map _"] filter_cong) auto
  moreover have "row_records x (rows_after t after db) =
      map (\<lambda>r. projr (row_record x r)) (rows_after t after db)"
    using rows_after_ok(1) [OF inv] by (intro row_records_map) blast
  ultimately show ?thesis by simp
qed

lemma strict_sorted_key: "sorted_wrt (<) (map f xs) \<Longrightarrow> sort_key f xs = xs" for f :: "'a \<Rightarrow> int"
  by (simp add: sort_key_id_if_sorted strict_sorted_iff)

lemma load_query:
  assumes uuid: "uuid_ok x" and inv: "store_inv x db" and tb: "tx_tables s = db_tables db"
    and ctx: "tx_tenant s = Some (x_uuid_show x (tenant_uuid t))"
  shows "LOAD_ENVELOPES_BOUNDED_SQL x t (uint after) n b ts s =
    (Inr (page b (take n (rows_after t after db))), s)"
proof -
  let ?rows = "rows_after t after db" and ?c = "take n (rows_after t after db)"
  have match: "filter (\<lambda>r. rls x s (er_tenant_id r) \<and> er_tenant_id r = tenant_uuid t \<and>
      er_cursor r > uint after) (pt_events (tx_tables s)) = ?rows"
    unfolding rows_after_def tenant_rows_def filter_filter tb
    by (rule filter_cong) (auto simp: rls_tenant [OF uuid ctx])
  have sorted: "sort_key er_cursor ?rows = ?rows"
    by (rule strict_sorted_key [OF rows_after_ok(2) [OF inv]])
  have pos: "\<forall>r \<in> set ?c. 0 < er_payload_bytes r"
    using rows_after_ok(1) [OF inv] by (meson in_set_takeD)
  have sorted_c: "sorted_wrt (<) (map er_cursor ?c)"
    using rows_after_ok(2) [OF inv, of t after] by (metis sorted_wrt_take take_map)
  show ?thesis
  proof (cases "?c = []")
    case True
    then show ?thesis
      unfolding LOAD_ENVELOPES_BOUNDED_SQL_def Let_def match sorted True
      by (simp add: cutoff_def page_def)
  next
    case False
    obtain k where k: "page b ?c = take k ?c" "0 < k" "k \<le> length ?c"
      using page_take [of ?c b] False by blast
    then have p: "page b ?c = take (min n k) ?rows" "page b ?c \<noteq> []"
      using False by (auto simp: min.commute)
    have "filter (\<lambda>r. er_cursor r \<le> er_cursor (last (page b ?c))) ?rows = page b ?c"
      by (rule filter_upto_last [OF rows_after_ok(2) [OF inv] p])
    then show ?thesis
      unfolding LOAD_ENVELOPES_BOUNDED_SQL_def Let_def match sorted
      using cutoff_page [OF pos sorted_c, of b] False by simp
  qed
qed

definition replay_page :: "tenant_id \<Rightarrow> signal_cursor \<Rightarrow> nat \<Rightarrow> nat \<Rightarrow> 'v pg_db \<Rightarrow> 'v event_row list" where
  "replay_page t after n b db =
     page (bounded_replay_json_bytes b) (take (bounded_load_limit n) (rows_after t after db))"

lemma load_Inr:
  assumes ok: "codec_ok x" and inv: "store_inv x db"
    and run: "load_envelopes_after_bounded x env (Tenant t) after n b db = (Inr rs, db')"
  shows "rs = row_records x (replay_page t after n b db) \<and> db_tables db' = db_tables db"
proof -
  have uuid: "uuid_ok x" using ok by (simp add: codec_ok_def)
  obtain s where body: "tx_bind (set_tenant_context x env t) (\<lambda>_.
           tx_bind (require_enabled_tenant x env t) (\<lambda>_.
           tx_bind (sql env (LOAD_ENVELOPES_BOUNDED_SQL x t (uint after) (bounded_load_limit n)
             (bounded_replay_json_bytes b))) (\<lambda>rows.
           tx_lift (try_map (signal_record_from_row x t) rows)))) (tx_begin db) = (Inr rs, s)"
    and db': "db' = tx_commit s db"
    using run
    by (auto simp: load_envelopes_after_bounded_def tenant_scope_def to_pg_i64_def with_tx_Inr
        split: if_splits)
  obtain s1 s2 rows u where
    s1: "set_tenant_context x env t (tx_begin db) = (Inr (), s1)" and
    s2: "require_enabled_tenant x env t s1 = (Inr (), s2)" and
    q: "LOAD_ENVELOPES_BOUNDED_SQL x t (uint after) (bounded_load_limit n)
          (bounded_replay_json_bytes b) u (s2\<lparr>tx_stmt := Suc (tx_stmt s2)\<rparr>) = (Inr rows, s)" and
    rs: "try_map (signal_record_from_row x t) rows = Inr rs"
    using body unfolding tx_bind_Inr tx_lift_Inr sql_Inr by auto
  have s2': "tx_tables (s2\<lparr>tx_stmt := Suc (tx_stmt s2)\<rparr>) = db_tables db"
    "tx_tenant (s2\<lparr>tx_stmt := Suc (tx_stmt s2)\<rparr>) = Some (x_uuid_show x (tenant_uuid t))"
    using s1 require_enabled_tenant_Inr [OF s2] by (auto simp: tx_simps tx_begin_def)
  have rows: "rows = replay_page t after n b db" and s: "s = s2\<lparr>tx_stmt := Suc (tx_stmt s2)\<rparr>"
    using q load_query [OF uuid inv s2'] by (auto simp: replay_page_def)
  obtain k where "rows = take k (rows_after t after db)"
    using page_take [of "take (bounded_load_limit n) (rows_after t after db)"]
    unfolding rows replay_page_def by (metis take_take)
  then have mem: "\<forall>r \<in> set rows. is_ok (row_record x r) \<and> er_tenant_id r = tenant_uuid t"
    using rows_after_ok(1) [OF inv] by (meson in_set_takeD)
  have "try_map (signal_record_from_row x t) rows = Inr (map (\<lambda>r. projr (row_record x r)) rows)"
  proof (rule try_map_all_Inr)
    fix r
    assume "r \<in> set rows"
    then show "signal_record_from_row x t r = Inr (projr (row_record x r))"
      using mem by (cases t) (auto simp: row_record_def is_ok_iff)
  qed
  moreover have "row_records x rows = map (\<lambda>r. projr (row_record x r)) rows"
    using mem by (intro row_records_map) blast
  ultimately have "rs = row_records x rows"
    using rs by simp
  then show ?thesis
    using rows db' s s2'(1) by (simp add: tx_commit_def)
qed

lemma row_records_take:
  "\<forall>r \<in> set rows. is_ok (row_record x r) \<Longrightarrow> row_records x (take k rows) = take k (row_records x rows)"
  using row_records_map [of rows x] row_records_map [of "take k rows" x]
  by (simp add: take_map) (meson in_set_takeD)

text \<open>A page in terms of the log.\<close>

lemma load_page:
  assumes ok: "codec_ok x" and inv: "store_inv x db"
    and run: "load_envelopes_after_bounded x env (Tenant t) after n b db = (Inr rs, db')"
  shows "\<exists>k \<le> bounded_load_limit n. rs = take k (records_after after (tenant_log x t db)) \<and>
    (0 < n \<longrightarrow> rs = [] \<longrightarrow> records_after after (tenant_log x t db) = [])"
proof -
  let ?rows = "rows_after t after db" and ?n = "bounded_load_limit n"
  obtain k where k: "k \<le> length (take ?n ?rows)" "replay_page t after n b db = take k (take ?n ?rows)"
    "take ?n ?rows \<noteq> [] \<longrightarrow> 0 < k"
    using page_take [of "take ?n ?rows"] unfolding replay_page_def by blast
  have good: "\<forall>r \<in> set ?rows. is_ok (row_record x r)"
    using rows_after_ok(1) [OF inv] by blast
  have rs: "rs = take k (records_after after (tenant_log x t db))"
    using load_Inr [OF ok inv run] k row_records_take [OF good]
    by (simp add: records_after_log [OF inv] min.absorb1)
  have "records_after after (tenant_log x t db) = []" if "0 < n" "rs = []"
  proof (rule ccontr)
    assume some: "records_after after (tenant_log x t db) \<noteq> []"
    then have "?rows \<noteq> []"
      by (auto simp: records_after_log [OF inv] row_records_def)
    moreover have "0 < ?n" using that(1) by (simp add: bounded_load_limit_def MAX_LOAD_LIMIT_def)
    ultimately have "0 < k" using k(3) by simp
    then show False using rs some that(2) by simp
  qed
  then show ?thesis
    using rs k(1) by (intro exI [of _ k]) auto
qed

section \<open>The reader interface\<close>

text \<open>Following the cursor of the last record of a page until a page is empty.\<close>

fun catch_up ::
  "nat \<Rightarrow> (signal_cursor \<Rightarrow> 'e + signal_record list) \<Rightarrow> signal_cursor \<Rightarrow> 'e + signal_record list"
where
  "catch_up 0 fetch_page c = Inr []"
| "catch_up (Suc fuel) fetch_page c =
     and_then (fetch_page c) (\<lambda>rs.
       if rs = [] then Inr []
       else map_ok (\<lambda>rest. rs @ rest) (catch_up fuel fetch_page (sr_cursor (last rs))))"

text \<open>In a log with growing cursors, what follows the last record of a prefix is the rest.\<close>

lemma records_after_split:
  assumes sorted: "sorted_wrt (<) (map sr_cursor log)" and split: "records_after after log = rs @ rest"
    and rs: "rs \<noteq> []"
  shows "records_after (sr_cursor (last rs)) log = rest"
proof -
  obtain q l where q: "rs = q @ [l]"
    using rs by (cases rs rule: rev_cases) auto
  have "sorted_wrt (\<lambda>a b. sr_cursor a < sr_cursor b) (records_after after log)"
    using sorted by (simp add: records_after_def sorted_wrt_map sorted_wrt_filter)
  then have s: "sorted_wrt (\<lambda>a b. sr_cursor a < sr_cursor b) (q @ [l] @ rest)"
    using split q by simp
  have "l \<in> set (records_after after log)"
    using split q by simp
  then have "after < sr_cursor l"
    by (simp add: records_after_def)
  then have "records_after (sr_cursor l) log = filter (\<lambda>r. sr_cursor l < sr_cursor r) (records_after after log)"
    unfolding records_after_def filter_filter by (intro filter_cong) auto
  also have "\<dots> = rest"
    unfolding split q using s by (auto simp: sorted_wrt_append filter_empty_conv filter_id_conv)
  finally show ?thesis using q by simp
qed

locale signal_reader =
  fixes ok :: "'s \<Rightarrow> bool"
    and log :: "'s \<Rightarrow> signal_record list"
    and load :: "'s \<Rightarrow> signal_cursor \<Rightarrow> nat \<Rightarrow> 'e + signal_record list"
  assumes log_sorted: "ok s \<Longrightarrow> sorted_wrt (<) (map sr_cursor (log s))"
    and load_prefix: "ok s \<Longrightarrow> load s after n = Inr rs \<Longrightarrow>
      \<exists>k. rs = take k (records_after after (log s))"
    and load_progress: "ok s \<Longrightarrow> load s after n = Inr rs \<Longrightarrow> 0 < n \<Longrightarrow> rs = [] \<Longrightarrow>
      records_after after (log s) = []"
begin

text \<open>The next page starts exactly where this one ended.\<close>

lemma next_page:
  assumes ok: "ok s" and load: "load s after n = Inr rs" and rs: "rs \<noteq> []"
  shows "records_after after (log s) = rs @ records_after (sr_cursor (last rs)) (log s)"
proof -
  obtain k where k: "rs = take k (records_after after (log s))"
    using load_prefix [OF ok load] by blast
  then have "records_after after (log s) = rs @ drop k (records_after after (log s))" by simp
  then show ?thesis
    using records_after_split [OF log_sorted [OF ok] _ rs] by metis
qed

lemma next_page_shorter:
  assumes "ok s" and "load s after n = Inr rs" and "rs \<noteq> []"
  shows "length (records_after (sr_cursor (last rs)) (log s)) < length (records_after after (log s))"
  using next_page [OF assms] assms(3) by (metis length_append length_greater_0_conv less_add_same_cancel2)

lemma catch_up_complete:
  assumes ok: "ok s" and n: "0 < n" and total: "\<And>c. P c \<Longrightarrow> is_ok (load s c n)"
    and cursors: "\<And>r. r \<in> set (log s) \<Longrightarrow> P (sr_cursor r)"
  shows "P after \<Longrightarrow> length (records_after after (log s)) < fuel \<Longrightarrow>
    catch_up fuel (\<lambda>c. load s c n) after = Inr (records_after after (log s))"
proof (induction fuel arbitrary: after)
  case (Suc fuel)
  obtain rs where rs: "load s after n = Inr rs"
    using total [OF Suc.prems(1)] by (auto simp: is_ok_iff)
  show ?case
  proof (cases "rs = []")
    case True
    then show ?thesis using load_progress [OF ok rs n] rs by simp
  next
    case False
    have "last rs \<in> set (records_after after (log s))"
      unfolding next_page [OF ok rs False] using False by simp
    then have "P (sr_cursor (last rs))"
      using cursors by (simp add: records_after_def)
    then have "catch_up fuel (\<lambda>c. load s c n) (sr_cursor (last rs)) =
        Inr (records_after (sr_cursor (last rs)) (log s))"
      using Suc next_page_shorter [OF ok rs False] by simp
    then show ?thesis
      using rs False next_page [OF ok rs False] by simp
  qed
qed simp

end

interpretation pg_reader: signal_reader "\<lambda>db. codec_ok x \<and> store_inv x db" "tenant_log x t"
  "\<lambda>db after n. fst (load_envelopes_after_bounded x env (Tenant t) after n budget db)"
proof (unfold_locales, goal_cases)
  case (1 s)
  then show ?case using tenant_log_sorted by blast
next
  case (2 s after n rs)
  then show ?case
    using load_page [of x s env t after n budget rs] by (metis prod.collapse)
next
  case (3 s after n rs)
  then show ?case
    using load_page [of x s env t after n budget rs] by (metis prod.collapse)
qed

section \<open>Healthy transactions\<close>

text \<open>A transaction in which no statement fails and the commit is acknowledged.\<close>

definition healthy :: "pg_env \<Rightarrow> bool" where
  "healthy env \<longleftrightarrow> (\<forall>n. \<not> pe_fault env n) \<and> pe_commit env = Committed"

definition tenant_enabled :: "tenant_id \<Rightarrow> 'v pg_db \<Rightarrow> bool" where
  "tenant_enabled t db \<longleftrightarrow>
     (\<exists>r \<in> set (pt_tenants (db_tables db)). tr_id r = tenant_uuid t \<and> tr_enabled r)"

definition agent_enabled :: "tenant_id \<Rightarrow> agent_id \<Rightarrow> 'v pg_db \<Rightarrow> bool" where
  "agent_enabled t a db \<longleftrightarrow> (\<exists>r \<in> set (pt_agents (db_tables db)). ar_tenant_id r = tenant_uuid t \<and>
     ar_agent_id r = agent_id_str a \<and> ar_enabled r)"

lemma first_row_unique:
  assumes "r \<in> set rows" and "P r" and "\<And>q. q \<in> set rows \<Longrightarrow> P q \<Longrightarrow> q = r"
  shows "first_row (filter P rows) = Some r"
proof -
  have "filter P rows \<noteq> []" using assms(1,2) by (auto simp: filter_empty_conv)
  then obtain q qs where q: "filter P rows = q # qs" by (cases "filter P rows") auto
  then have "q \<in> set (filter P rows)" by simp
  then have "q \<in> set rows" "P q" by simp_all
  then show ?thesis using assms(3) q by (auto simp: first_row_def)
qed

lemma require_enabled_tenant_healthy:
  assumes h: "healthy env" and uuid: "uuid_ok x"
    and ctx: "tx_tenant s = Some (x_uuid_show x (tenant_uuid t))"
    and dist: "distinct (map tr_id (pt_tenants (tx_tables s)))"
    and r: "r \<in> set (pt_tenants (tx_tables s))" "tr_id r = tenant_uuid t" "tr_enabled r"
  shows "require_enabled_tenant x env t s = (Inr (), s\<lparr>tx_stmt := Suc (tx_stmt s)\<rparr>)"
proof -
  let ?s = "s\<lparr>tx_stmt := Suc (tx_stmt s)\<rparr>"
  have "first_row (filter (\<lambda>r. rls x ?s (tr_id r) \<and> tr_id r = tenant_uuid t)
      (pt_tenants (tx_tables ?s))) = Some r"
    by (rule first_row_unique)
      (use r ctx distinct_map_eq [OF dist] in \<open>auto simp: rls_tenant [OF uuid]\<close>)
  then show ?thesis
    using h r(3)
    by (simp add: require_enabled_tenant_def tx_bind_Inr sql_Inr tx_lift_Inr healthy_def
        REQUIRE_ENABLED_TENANT_SQL_def)
qed

lemma set_tenant_context_healthy:
  "healthy env \<Longrightarrow> set_tenant_context x env t s =
     (Inr (), s\<lparr>tx_stmt := Suc (tx_stmt s), tx_tenant := Some (x_uuid_show x (tenant_uuid t))\<rparr>)"
  by (simp add: set_tenant_context_Inr healthy_def)

lemma load_healthy:
  assumes ok: "codec_ok x" and inv: "store_inv x db" and h: "healthy env"
    and ten: "tenant_enabled t db" and after: "unat after < 2 ^ 63"
  shows "is_ok (fst (load_envelopes_after_bounded x env (Tenant t) after n b db))"
proof -
  have uuid: "uuid_ok x" using ok by (simp add: codec_ok_def)
  obtain r where r: "r \<in> set (pt_tenants (db_tables db))" "tr_id r = tenant_uuid t" "tr_enabled r"
    using ten by (auto simp: tenant_enabled_def)
  define s1 where "s1 = (tx_begin db)\<lparr>tx_stmt := Suc (tx_stmt (tx_begin db)),
      tx_tenant := Some (x_uuid_show x (tenant_uuid t))\<rparr>"
  have req: "require_enabled_tenant x env t s1 = (Inr (), s1\<lparr>tx_stmt := Suc (tx_stmt s1)\<rparr>)"
    by (rule require_enabled_tenant_healthy [OF h uuid _ _ _ r(2,3)])
      (use inv r in \<open>auto simp: s1_def tx_begin_def store_inv_def tenants_ok_def\<close>)
  let ?s2 = "s1\<lparr>tx_stmt := Suc (tx_stmt s1)\<rparr>" and ?p = "replay_page t after n b db"
  have q: "LOAD_ENVELOPES_BOUNDED_SQL x t (uint after) (bounded_load_limit n) (bounded_replay_json_bytes b) u
      (?s2\<lparr>tx_stmt := Suc (tx_stmt ?s2)\<rparr>) = (Inr ?p, ?s2\<lparr>tx_stmt := Suc (tx_stmt ?s2)\<rparr>)" for u
    unfolding replay_page_def
    by (rule load_query [OF uuid inv]) (simp_all add: s1_def tx_begin_def)
  have sq: "sql env (LOAD_ENVELOPES_BOUNDED_SQL x t (uint after) (bounded_load_limit n)
      (bounded_replay_json_bytes b)) ?s2 = (Inr ?p, ?s2\<lparr>tx_stmt := Suc (tx_stmt ?s2)\<rparr>)"
    unfolding sql_Inr using h q by (simp add: healthy_def)
  obtain k where "?p = take k (rows_after t after db)"
    using page_take [of "take (bounded_load_limit n) (rows_after t after db)"]
    unfolding replay_page_def by (metis take_take)
  then have "\<forall>r \<in> set ?p. is_ok (row_record x r) \<and> er_tenant_id r = tenant_uuid t"
    using rows_after_ok(1) [OF inv, of t after] by (auto dest: in_set_takeD)
  then have "try_map (signal_record_from_row x t) ?p = Inr (map (\<lambda>r. projr (row_record x r)) ?p)"
    by (intro try_map_all_Inr) (cases t, auto simp: row_record_def is_ok_iff)
  then have "tx_bind (set_tenant_context x env t) (\<lambda>_.
           tx_bind (require_enabled_tenant x env t) (\<lambda>_.
           tx_bind (sql env (LOAD_ENVELOPES_BOUNDED_SQL x t (uint after) (bounded_load_limit n)
             (bounded_replay_json_bytes b))) (\<lambda>rows.
           tx_lift (try_map (signal_record_from_row x t) rows)))) (tx_begin db) =
        (Inr (map (\<lambda>r. projr (row_record x r)) ?p), ?s2\<lparr>tx_stmt := Suc (tx_stmt ?s2)\<rparr>)"
    by (simp add: tx_bind_def set_tenant_context_healthy [OF h] s1_def [symmetric] req sq tx_lift_def)
  then show ?thesis
    using h after
    by (simp add: load_envelopes_after_bounded_def tenant_scope_def to_pg_i64_def with_tx_def healthy_def)
qed

section \<open>Retransmissions\<close>

lemma require_enabled_agent_healthy:
  assumes h: "healthy env" and uuid: "uuid_ok x"
    and ctx: "tx_tenant s = Some (x_uuid_show x (tenant_uuid t))"
    and dist: "distinct (map (\<lambda>r. (ar_tenant_id r, ar_agent_id r)) (pt_agents (tx_tables s)))"
    and r: "r \<in> set (pt_agents (tx_tables s))" "ar_tenant_id r = tenant_uuid t"
      "ar_agent_id r = agent_id_str a" "ar_enabled r"
  shows "require_enabled_agent x env t a s = (Inr (), s\<lparr>tx_stmt := Suc (tx_stmt s)\<rparr>)"
proof -
  let ?s = "s\<lparr>tx_stmt := Suc (tx_stmt s)\<rparr>"
  have "first_row (filter (\<lambda>r. rls x ?s (ar_tenant_id r) \<and> ar_tenant_id r = tenant_uuid t \<and>
             ar_agent_id r = agent_id_str a) (pt_agents (tx_tables ?s))) = Some r"
    by (rule first_row_unique)
      (use r ctx distinct_map_eq [OF dist] in \<open>auto simp: rls_tenant [OF uuid]\<close>)
  then show ?thesis
    using h r(4)
    by (simp add: require_enabled_agent_def tx_bind_Inr sql_Inr tx_lift_Inr healthy_def
        select_agent_enabled_def)
qed

lemma select_event_healthy:
  assumes uuid: "uuid_ok x" and ctx: "tx_tenant s = Some (x_uuid_show x (tenant_uuid t))"
    and dist: "distinct (map event_key (pt_events (tx_tables s)))"
    and r: "r \<in> set (pt_events (tx_tables s))" "event_key r = (tenant_uuid t, agent_id_str a, unat sq)"
  shows "select_event x t a (show_u64 sq) ts s = (Inr r, s)"
proof -
  have "first_row (filter (\<lambda>r. rls x s (er_tenant_id r) \<and> er_tenant_id r = tenant_uuid t \<and>
             er_agent_id r = agent_id_str a \<and> er_sequence r = numeric_of_text (show_u64 sq))
             (pt_events (tx_tables s))) = Some r"
  proof (rule first_row_unique)
    show "r \<in> set (pt_events (tx_tables s))" by (rule r)
    show "rls x s (er_tenant_id r) \<and> er_tenant_id r = tenant_uuid t \<and>
        er_agent_id r = agent_id_str a \<and> er_sequence r = numeric_of_text (show_u64 sq)"
      using r(2) rls_tenant [OF uuid ctx] by (simp add: event_key_def numeric_of_text_def show_u64_def)
    fix q
    assume "q \<in> set (pt_events (tx_tables s))"
      "rls x s (er_tenant_id q) \<and> er_tenant_id q = tenant_uuid t \<and>
        er_agent_id q = agent_id_str a \<and> er_sequence q = numeric_of_text (show_u64 sq)"
    then show "q = r"
      using r distinct_map_eq [OF dist, of q r]
      by (simp add: event_key_def numeric_of_text_def show_u64_def)
  qed
  then show ?thesis by (simp add: select_event_def)
qed

lemma insert_event_conflict:
  assumes uuid: "uuid_ok x" and ctx: "tx_tenant s = Some (x_uuid_show x (tenant_uuid t))"
    and json: "x_jsonb x v = Some w" and seq: "tx_event_seq s < 2 ^ 63 - 1"
    and checks: "event_checks x (event_row_of env t e w n (tx_event_seq s + 1))"
    and key: "(tenant_uuid t, agent_id_str (env_agent_id e), unat (env_sequence e)) \<in>
      set (map event_key (pt_events (tx_tables s)))"
  shows "insert_event x env t e v n ts s = (Inr None, s\<lparr>tx_event_seq := tx_event_seq s + 1\<rparr>)"
  using json seq checks key rls_tenant [OF uuid ctx, of "tenant_uuid t"]
  by (simp add: insert_event_def Let_def)

lemma kind_of_payload: "env_payload d = env_payload e \<Longrightarrow> signal_kind_name d = signal_kind_name e"
  by (simp add: signal_kind_name_def envelope_kind_def)

lemma checks_retry:
  assumes "event_checks x row" and "er_payload row = w" and "er_payload_bytes row = n"
    and "er_signal_kind row = signal_kind_name e" and "0 < c"
  shows "event_checks x (event_row_of env t e w n c)"
  using assms unat_u64 [of "env_sequence e"] unat_u64 [of "env_received_at_unix_nano e"]
  by (simp add: event_checks_def event_row_of_def numeric_of_text_def show_u64_def)

text \<open>The transaction state once context, tenant, lock and agent are established.\<close>

definition prepared :: "'v ext \<Rightarrow> tenant_id \<Rightarrow> 'v pg_db \<Rightarrow> 'v pg_tx" where
  "prepared x t db = (tx_begin db)\<lparr>tx_stmt := 5, tx_tenant := Some (x_uuid_show x (tenant_uuid t)),
     tx_locks := [tenant_lock_key t]\<rparr>"

lemma prepared_simps [simp]:
  "tx_tables (prepared x t db) = db_tables db" "tx_event_seq (prepared x t db) = db_event_seq db"
  "tx_tenant (prepared x t db) = Some (x_uuid_show x (tenant_uuid t))"
  "tx_audit_seq (prepared x t db) = db_audit_seq db" "tx_notifications (prepared x t db) = []"
  by (simp_all add: prepared_def tx_begin_def)

lemma append_prologue:
  assumes uuid: "uuid_ok x" and inv: "store_inv x db" and h: "healthy env"
    and ten: "tenant_enabled t db" and age: "agent_enabled t (env_agent_id e) db"
  shows "append_body x env t e p (tx_begin db) =
    tx_bind (sql env (insert_event x env t e (cp_value p) (int (cp_byte_len p))))
       (\<lambda>inserted. case inserted of
          None \<Rightarrow> existing_outcome x env t e (cp_value p)
        | Some cursor \<Rightarrow> record_inserted x env t e cursor) (prepared x t db)"
proof -
  obtain tr where tr: "tr \<in> set (pt_tenants (db_tables db))" "tr_id tr = tenant_uuid t" "tr_enabled tr"
    using ten by (auto simp: tenant_enabled_def)
  obtain ar where ar: "ar \<in> set (pt_agents (db_tables db))" "ar_tenant_id ar = tenant_uuid t"
    "ar_agent_id ar = agent_id_str (env_agent_id e)" "ar_enabled ar"
    using age by (auto simp: agent_enabled_def)
  define s1 where "s1 = (tx_begin db)\<lparr>tx_stmt := 2, tx_tenant := Some (x_uuid_show x (tenant_uuid t))\<rparr>"
  define s3 where "s3 = s1\<lparr>tx_stmt := 4, tx_locks := [tenant_lock_key t]\<rparr>"
  have tabs: "tx_tables s1 = db_tables db" "tx_tables s3 = db_tables db"
    "tx_tenant s1 = Some (x_uuid_show x (tenant_uuid t))"
    "tx_tenant s3 = Some (x_uuid_show x (tenant_uuid t))"
    by (simp_all add: s1_def s3_def tx_begin_def)
  have st1: "set_tenant_context x env t (tx_begin db) = (Inr (), s1)"
    by (simp add: set_tenant_context_healthy [OF h] s1_def tx_begin_def)
  have st2: "require_enabled_tenant x env t s1 = (Inr (), s1\<lparr>tx_stmt := Suc (tx_stmt s1)\<rparr>)"
    by (rule require_enabled_tenant_healthy [OF h uuid tabs(3) _ _ tr(2,3)])
      (use inv tr in \<open>auto simp: tabs store_inv_def tenants_ok_def\<close>)
  have st3: "lock_tenant env t (s1\<lparr>tx_stmt := Suc (tx_stmt s1)\<rparr>) = (Inr (), s3)"
    using h by (simp add: lock_tenant_Inr healthy_def s3_def s1_def tx_begin_def)
  have st4: "require_enabled_agent x env t (env_agent_id e) s3 = (Inr (), s3\<lparr>tx_stmt := Suc (tx_stmt s3)\<rparr>)"
    by (rule require_enabled_agent_healthy [OF h uuid tabs(4) _ _ ar(2-4)])
      (use inv ar in \<open>auto simp: tabs store_inv_def agents_ok_def\<close>)
  have "s3\<lparr>tx_stmt := Suc (tx_stmt s3)\<rparr> = prepared x t db"
    by (simp add: s3_def s1_def prepared_def)
  then show ?thesis
    unfolding append_body_def tx_bind_def [of "set_tenant_context x env t"]
      tx_bind_def [of "require_enabled_tenant x env t"] tx_bind_def [of "lock_tenant env t"]
      tx_bind_def [of "require_enabled_agent x env t (env_agent_id e)"]
    by (simp add: st1 st2 st3 st4)
qed

text \<open>The row behind a record, for an envelope with the key and the payload of the record.\<close>

lemma retry_row:
  assumes inv: "store_inv x db" and agent: "valid_agent_id (env_agent_id e)"
    and rec: "rec \<in> set (tenant_log x t db)" "same_key e rec"
      "env_payload (sr_envelope rec) = env_payload e"
    and canon: "canonical_signal_payload x (env_payload e) = Inr p"
    and json: "x_jsonb x (cp_value p) = Some w"
  obtains row where "row \<in> set (pt_events (db_tables db))"
    "event_key row = (tenant_uuid t, agent_id_str (env_agent_id e), unat (env_sequence e))"
    "event_checks x row" "er_payload row = w" "er_payload_bytes row = int (cp_byte_len p)"
    "er_signal_kind row = signal_kind_name e" "0 < er_cursor row"
    "sr_cursor rec = word_of_int (er_cursor row)"
proof -
  obtain row where row: "row \<in> set (pt_events (db_tables db))" "er_tenant_id row = tenant_uuid t"
    "row_record x row = Inr rec"
    using tenant_log_mem [OF inv] rec(1) by blast
  have wf: "valid_agent_id (AgentId (er_agent_id row))" "event_checks x row" "row_canonical x row"
    using inv row(1) by (auto simp: store_inv_def events_ok_def)
  have "event_key row = (tenant_uuid t, agent_id_str (env_agent_id e), unat (env_sequence e))"
    using row_same_key [OF row(3) agent wf(1,2)] rec(2) row(2) by (simp add: event_key_def)
  moreover have "er_payload row = w" "er_payload_bytes row = int (cp_byte_len p)"
    "er_signal_kind row = signal_kind_name e"
    using wf(3) row(3) rec(3) canon json kind_of_payload [OF rec(3)] by (auto simp: row_canonical_def)
  ultimately show thesis
    using that row wf(2) row_record_fields [OF row(3)] by (simp add: event_checks_def)
qed

text \<open>The outcome of sending an envelope again whose sequence is already stored with the same
  payload: the first cursor, provided the column returns the JSON value it was given.\<close>

lemma retry_body:
  assumes ok: "codec_ok x" and inv: "store_inv x db" and h: "healthy env"
    and agent: "valid_agent_id (env_agent_id e)" and scope: "env_scope e = Tenant t"
    and ten: "tenant_enabled t db" and age: "agent_enabled t (env_agent_id e) db"
    and seq: "db_event_seq db < 2 ^ 63 - 1"
    and rec: "rec \<in> set (tenant_log x t db)" "same_key e rec"
      "env_payload (sr_envelope rec) = env_payload e"
    and canon: "canonical_signal_payload x (env_payload e) = Inr p"
    and json: "x_jsonb x (cp_value p) = Some w"
  shows "append_envelope x env e db =
    ((if w = cp_value p then Inr \<lparr>ao_cursor = sr_cursor rec, ao_inserted = False\<rparr>
      else Inl (SequenceConflict (env_agent_id e) (env_sequence e))),
     db\<lparr>db_event_seq := db_event_seq db + 1\<rparr>)"
proof -
  have uuid: "uuid_ok x" using ok by (simp add: codec_ok_def)
  obtain row where row: "row \<in> set (pt_events (db_tables db))"
    "event_key row = (tenant_uuid t, agent_id_str (env_agent_id e), unat (env_sequence e))"
    "event_checks x row" and stored: "er_payload row = w" "er_payload_bytes row = int (cp_byte_len p)"
    "er_signal_kind row = signal_kind_name e"
    and cur: "0 < er_cursor row" "sr_cursor rec = word_of_int (er_cursor row)"
    using retry_row [OF inv agent rec canon json] by blast
  let ?s = "prepared x t db"
  define s5 where "s5 = ?s\<lparr>tx_stmt := 6, tx_event_seq := db_event_seq db + 1\<rparr>"
  have "insert_event x env t e (cp_value p) (int (cp_byte_len p)) u (?s\<lparr>tx_stmt := 6\<rparr>) = (Inr None, s5)" for u
    unfolding s5_def
    by (subst insert_event_conflict [OF uuid _ json])
      (use seq row(1,2) inv checks_retry [OF row(3) stored] in
        \<open>auto simp: store_inv_def events_ok_def image_iff intro!: bexI [of _ row]\<close>)
  then have st5: "sql env (insert_event x env t e (cp_value p) (int (cp_byte_len p))) ?s = (Inr None, s5)"
    using h by (simp add: sql_Inr healthy_def prepared_def)
  have "select_event x t (env_agent_id e) (show_u64 (env_sequence e)) u (s5\<lparr>tx_stmt := 7\<rparr>) =
      (Inr row, s5\<lparr>tx_stmt := 7\<rparr>)" for u
    by (rule select_event_healthy [OF uuid])
      (use inv row in \<open>auto simp: s5_def store_inv_def events_ok_def\<close>)
  then have st6: "sql env (select_event x t (env_agent_id e) (show_u64 (env_sequence e))) s5 =
      (Inr row, s5\<lparr>tx_stmt := 7\<rparr>)"
    using h by (simp add: sql_Inr healthy_def s5_def)
  have "append_body x env t e p (tx_begin db) =
      ((if w = cp_value p then Inr \<lparr>ao_cursor = sr_cursor rec, ao_inserted = False\<rparr>
        else Inl (SequenceConflict (env_agent_id e) (env_sequence e))), s5\<lparr>tx_stmt := 7\<rparr>)"
    unfolding append_prologue [OF uuid inv h ten age]
    using stored cur
    by (simp add: tx_bind_def st5 st6 existing_outcome_def tx_lift_def tx_return_def
        cursor_from_row_def from_pg_i64_def)
  then show ?thesis
    using h scope canon
    by (cases db) (simp add: append_envelope_def tenant_scope_def with_tx_def healthy_def tx_commit_def
        tx_rollback_def s5_def)
qed

section \<open>Projection and tickets\<close>

lemma load_projection_Inr:
  assumes uuid: "uuid_ok x" and run: "load_projection x env t db = (Inr pr, db')"
  shows "transpose_option (projection_record_from_row x t)
      (first_row (filter (\<lambda>r. pr_tenant_id r = tenant_uuid t) (pt_projections (db_tables db)))) = Inr pr"
proof -
  obtain s1 s2 s3 row u s where
    s1: "set_tenant_context x env t (tx_begin db) = (Inr (), s1)" and
    s2: "require_enabled_tenant x env t s1 = (Inr (), s2)" and
    q: "select_projection x t u (s2\<lparr>tx_stmt := Suc (tx_stmt s2)\<rparr>) = (Inr row, s)" and
    pr: "transpose_option (projection_record_from_row x t) row = Inr pr"
    using run unfolding load_projection_def with_tx_Inr tx_bind_Inr tx_lift_Inr sql_Inr by auto
  have s2': "tx_tables s2 = db_tables db"
    "tx_tenant (s2\<lparr>tx_stmt := Suc (tx_stmt s2)\<rparr>) = Some (x_uuid_show x (tenant_uuid t))"
    using s1 require_enabled_tenant_Inr [OF s2] by (auto simp: tx_simps tx_begin_def)
  have "row = first_row (filter (\<lambda>r. pr_tenant_id r = tenant_uuid t) (pt_projections (db_tables db)))"
    using q by (auto simp: select_projection_def s2'(1) rls_tenant [OF uuid s2'(2)])
  then show ?thesis using pr by simp
qed

lemma row_envelopes_records: "row_envelopes x rows = map sr_envelope (row_records x rows)"
  by (simp add: row_envelopes_def row_records_def)

lemma projection_row_log:
  assumes inv: "store_inv x db"
    and row: "first_row (filter (\<lambda>r. pr_tenant_id r = tenant_uuid t) (pt_projections (db_tables db))) = Some row"
  shows "tenant_log x t db \<noteq> [] \<and>
    word_of_int (pr_last_cursor row) = sr_cursor (last (tenant_log x t db)) \<and>
    x_projection_from_value x (pr_projection row) =
      Inr (fold projection_observe (map sr_envelope (tenant_log x t db)) signal_projection_default)"
proof -
  let ?tb = "db_tables db" and ?u = "tenant_uuid t"
  have mem: "row \<in> set (pt_projections ?tb)" "pr_tenant_id row = ?u"
    using first_row_Some [OF row] by auto
  have pok: "projections_ok x ?tb" using inv by (simp add: store_inv_def)
  moreover have "?u \<in> set (map pr_tenant_id (pt_projections ?tb))"
    using mem by force
  ultimately have ne: "tenant_rows ?u ?tb \<noteq> []"
    unfolding projections_ok_def by blast
  then obtain r where r: "r \<in> set (pt_projections ?tb)" "pr_tenant_id r = ?u"
    "pr_last_cursor r = er_cursor (last (tenant_rows ?u ?tb))"
    "x_projection_from_value x (pr_projection r) =
      Inr (fold projection_observe (row_envelopes x (tenant_rows ?u ?tb)) signal_projection_default)"
    using pok unfolding projections_ok_def by blast
  have "r = row"
    using pok r mem distinct_map_eq [of pr_tenant_id "pt_projections ?tb" r row]
    by (simp add: projections_ok_def)
  moreover have "is_ok (row_record x (last (tenant_rows ?u ?tb)))"
    using tenant_rows_ok(1) [OF inv] ne last_in_set by blast
  ultimately show ?thesis
    using r ne by (simp add: tenant_log_map [OF inv] last_map projr_cursor row_envelopes_records
        tenant_log_def [symmetric])
qed

text \<open>What a consuming transaction does to the ticket table.\<close>

lemma consume_Inr:
  assumes uuid: "uuid_ok x" and run: "consume_stream_ticket x env t tk db = (Inr g, db')"
  obtains ts where
    "pt_tickets (db_tables db') = map (\<lambda>r.
       if ti_tenant_id r = tenant_uuid t \<and> ti_ticket_id r = tk \<and> ti_consumed_at r = None \<and>
          ti_expires_at r > ts then r\<lparr>ti_consumed_at := Some ts\<rparr> else r) (pt_tickets (db_tables db))"
    "\<forall>grant. g = Some grant \<longrightarrow> (\<exists>r \<in> set (pt_tickets (db_tables db)).
       ti_tenant_id r = tenant_uuid t \<and> ti_ticket_id r = tk \<and> ti_consumed_at r = None \<and>
       ti_expires_at r > ts \<and> sg_subject grant = ti_subject r \<and>
       from_pg_i64 ''authorized_until_unix'' (epoch_seconds (ti_authorized_until r)) =
         Inr (sg_authorized_until_unix grant))"
    "g = None \<longrightarrow> (\<forall>r \<in> set (pt_tickets (db_tables db)).
       \<not> (ti_tenant_id r = tenant_uuid t \<and> ti_ticket_id r = tk \<and> ti_consumed_at r = None \<and>
          ti_expires_at r > ts))"
proof -
  obtain s1 s2 row u s where
    s1: "set_tenant_context x env t (tx_begin db) = (Inr (), s1)" and
    s2: "require_enabled_tenant x env t s1 = (Inr (), s2)" and
    q: "CONSUME_STREAM_TICKET_SQL x t tk u (s2\<lparr>tx_stmt := Suc (tx_stmt s2)\<rparr>) = (Inr row, s)" and
    g: "transpose_option (\<lambda>(subject, authorized_until_unix).
        map_ok (\<lambda>u. \<lparr>sg_subject = subject, sg_authorized_until_unix = u\<rparr>)
          (from_pg_i64 ''authorized_until_unix'' authorized_until_unix)) row = Inr g" and
    db': "db' = tx_commit s db"
    using run unfolding consume_stream_ticket_def with_tx_Inr tx_bind_Inr tx_lift_Inr sql_Inr by auto
  have s2': "tx_tables s2 = db_tables db"
    "tx_tenant (s2\<lparr>tx_stmt := Suc (tx_stmt s2)\<rparr>) = Some (x_uuid_show x (tenant_uuid t))"
    using s1 require_enabled_tenant_Inr [OF s2] by (auto simp: tx_simps tx_begin_def)
  define hit where "hit = (\<lambda>r :: ticket_row. ti_tenant_id r = tenant_uuid t \<and> ti_ticket_id r = tk \<and>
      ti_consumed_at r = None \<and> ti_expires_at r > u)"
  have hit: "(\<lambda>r. rls x (s2\<lparr>tx_stmt := Suc (tx_stmt s2)\<rparr>) (ti_tenant_id r) \<and>
      ti_tenant_id r = tenant_uuid t \<and> ti_ticket_id r = tk \<and> ti_consumed_at r = None \<and>
      ti_expires_at r > u) = hit"
    by (auto simp: hit_def rls_tenant [OF uuid s2'(2)])
  have tickets: "pt_tickets (db_tables db') =
      map (\<lambda>r. if hit r then r\<lparr>ti_consumed_at := Some u\<rparr> else r) (pt_tickets (db_tables db))"
    and row: "row = map_option (\<lambda>r. (ti_subject r, epoch_seconds (ti_authorized_until r)))
             (first_row (filter hit (pt_tickets (db_tables db))))"
    using q unfolding CONSUME_STREAM_TICKET_SQL_def Let_def hit
    by (auto simp: db' tx_commit_def s2'(1))
  have some: "\<forall>grant. g = Some grant \<longrightarrow> (\<exists>r \<in> set (pt_tickets (db_tables db)). hit r \<and>
      sg_subject grant = ti_subject r \<and>
      from_pg_i64 ''authorized_until_unix'' (epoch_seconds (ti_authorized_until r)) =
         Inr (sg_authorized_until_unix grant))"
    using g row by (fastforce simp: transpose_option_def result_simps dest: first_row_Some
        split: option.splits)
  have none: "g = None \<longrightarrow> (\<forall>r \<in> set (pt_tickets (db_tables db)). \<not> hit r)"
    using g row by (auto simp: transpose_option_def result_simps filter_empty_conv split: option.splits)
  show thesis
    by (rule that [OF tickets [unfolded hit_def] ]) (use some none in \<open>auto simp: hit_def\<close>)
qed

section \<open>A concrete instance\<close>

text \<open>External code for one payload: its JSON is one byte, its value a unit; projections are
  stored as themselves and UUIDs are printed in decimal.\<close>

type_synonym ex_value = "unit + signal_projection"

definition ex_payload :: signal where
  "ex_payload = Logs \<lparr>elr_resource_logs = []\<rparr>"

definition ex_ext :: "ex_value ext" where
  "ex_ext =
     \<lparr>x_to_writer = (\<lambda>p. if p = ex_payload then ([[123]], None) else ([], Some ''unsupported'')),
      x_from_slice_signal = (\<lambda>b. if b = [123] then Inr ex_payload else Inl ''unsupported''),
      x_from_slice_value = (\<lambda>b. if b = [123] then Inr (Inl ()) else Inl ''unsupported''),
      x_from_value_signal = (\<lambda>v. case v of Inl _ \<Rightarrow> Inr ex_payload | Inr _ \<Rightarrow> Inl ''unsupported''),
      x_projection_to_value = (\<lambda>q. Inr (Inr q)),
      x_projection_from_value = (\<lambda>v. case v of Inl _ \<Rightarrow> Inl ''unsupported'' | Inr q \<Rightarrow> Inr q),
      x_jsonb = Some, x_is_object = (\<lambda>_. True),
      x_uuid_show = (\<lambda>u. show_nat (unat u)), x_uuid_parse = (\<lambda>s. Some (of_nat (dec_value s))),
      x_cntrl = (\<lambda>_. False)\<rparr>"

definition ex_env :: pg_env where
  "ex_env = \<lparr>pe_fault = (\<lambda>_. False), pe_time = (\<lambda>n. 1000000 + int n), pe_commit = Committed\<rparr>"

definition ex_tenant :: tenant_id where "ex_tenant = TenantId 7"
definition ex_agent :: agent_id where "ex_agent = AgentId ''a''"

definition ex_envelope :: signal_envelope where
  "ex_envelope = signal_envelope_new 9 (Tenant ex_tenant) ex_agent 5 11 ex_payload"

lemma ex_canonical:
  "canonical_signal_payload ex_ext p =
     (if p = ex_payload then Inr \<lparr>cp_value = Inl (), cp_byte_len = 1\<rparr>
      else Inl (InvalidSignalPayload ''unsupported''))"
  by (simp add: canonical_signal_payload_def serialize_signal_bounded_def ex_ext_def
      bounded_payload_writer_new_def bounded_write_def Let_def validate_signal_payload_size_def
      MAX_STORED_SIGNAL_JSON_BYTES_def)

lemma ex_codec: "codec_ok ex_ext"
proof -
  have "uuid_ok ex_ext" by (simp add: uuid_ok_def ex_ext_def)
  moreover have "x_projection_from_value ex_ext w = Inr q"
    if "x_projection_to_value ex_ext q = Inr v" "x_jsonb ex_ext v = Some w" for q v w
    using that by (auto simp: ex_ext_def)
  moreover have "x_from_value_signal ex_ext (Inl ()) = Inr ex_payload" "x_jsonb ex_ext v = Some v" for v
    by (simp_all add: ex_ext_def)
  ultimately show ?thesis
    by (auto simp: codec_ok_def ex_canonical split: if_splits)
qed

lemma ex_agent_valid: "valid_agent_id (env_agent_id ex_envelope)"
  by (simp add: ex_envelope_def signal_envelope_new_def ex_agent_def valid_agent_id_def agent_id_new_def
      trim_def trim_end_def trim_start.simps trim_rev.simps ws1_def code_def MAX_AGENT_ID_BYTES_def Let_def)

lemma ex_scope: "env_scope ex_envelope = Tenant ex_tenant"
  by (simp add: ex_envelope_def signal_envelope_new_def)

lemma ex_healthy: "healthy ex_env"
  by (simp add: healthy_def ex_env_def)

text \<open>A store with one tenant, one enabled agent, one event and one ticket.\<close>

definition ex_row :: "ex_value event_row" where
  "ex_row = event_row_of ex_env ex_tenant ex_envelope (Inl ()) 1 1"

definition ex_ticket :: ticket_row where
  "ex_ticket = \<lparr>ti_ticket_id = 3, ti_tenant_id = 7, ti_subject = ''u'', ti_created_at = 1000000,
     ti_authorized_until = 60000000, ti_expires_at = 31000000, ti_consumed_at = None\<rparr>"

definition ex_db :: "ex_value pg_db" where
  "ex_db =
     \<lparr>db_tables =
        \<lparr>pt_tenants = [\<lparr>tr_id = 7, tr_slug = ''t'', tr_display_name = ''T'', tr_enabled = True,
           tr_created_at = 1, tr_updated_at = 1\<rparr>],
         pt_agents = [\<lparr>ar_tenant_id = 7, ar_agent_id = ''a'', ar_display_name = None, ar_enabled = True,
           ar_enrolled_at = 1, ar_updated_at = 1, ar_last_seen_at = None\<rparr>],
         pt_events = [ex_row],
         pt_projections = [\<lparr>pr_tenant_id = 7, pr_last_cursor = 1,
           pr_projection = Inr (projection_observe ex_envelope signal_projection_default),
           pr_updated_at = 1\<rparr>],
         pt_audit = [], pt_tickets = [ex_ticket]\<rparr>,
      db_event_seq = 1, db_audit_seq = 0, db_notifications = []\<rparr>"

lemma ex_row_record: "row_record ex_ext ex_row = Inr \<lparr>sr_cursor = 1, sr_envelope = ex_envelope\<rparr>"
proof -
  have payload: "env_payload ex_envelope = ex_payload"
    by (simp add: ex_envelope_def signal_envelope_new_def)
  have "row_record ex_ext ex_row = Inr \<lparr>sr_cursor = word_of_int 1, sr_envelope = ex_envelope\<rparr>"
    unfolding ex_row_def
    by (rule event_row_record [OF ex_codec ex_scope ex_agent_valid,
          of "\<lparr>cp_value = Inl (), cp_byte_len = 1\<rparr>"])
      (simp_all add: payload ex_canonical, simp add: ex_ext_def)
  then show ?thesis by simp
qed

lemma ex_row_checks: "event_checks ex_ext ex_row"
  by (simp add: event_checks_def ex_row_def event_row_of_def ex_envelope_def signal_envelope_new_def
      numeric_of_text_def show_u64_def signal_kind_name_def envelope_kind_def ex_payload_def ex_ext_def)

lemma ex_row_canonical: "row_canonical ex_ext ex_row"
  unfolding row_canonical_def
  by (rule exI [of _ "\<lparr>sr_cursor = 1, sr_envelope = ex_envelope\<rparr>"], simp add: ex_row_record)
    (simp add: ex_envelope_def signal_envelope_new_def ex_canonical, simp add: ex_row_def event_row_of_def
      ex_ext_def ex_envelope_def signal_envelope_new_def)

lemma ex_row_key [simp]:
  "er_cursor ex_row = 1" "er_tenant_id ex_row = 7" "er_agent_id ex_row = ''a''"
  by (simp_all add: ex_row_def ex_tenant_def ex_envelope_def signal_envelope_new_def ex_agent_def)

lemma ex_tenant_rows: "tenant_rows u (db_tables ex_db) = (if u = 7 then [ex_row] else [])"
  by (simp add: tenant_rows_def ex_db_def)

lemma ex_inv: "store_inv ex_ext ex_db"
proof -
  have "valid_agent_id (AgentId ''a'')"
    using ex_agent_valid by (simp add: ex_envelope_def signal_envelope_new_def ex_agent_def)
  then have "events_ok ex_ext 1 (db_tables ex_db)"
    by (simp add: events_ok_def ex_db_def ex_row_checks ex_row_canonical ex_row_record)
  moreover have "agents_ok (db_tables ex_db)" "refs_ok (db_tables ex_db)"
    by (simp_all add: agents_ok_def refs_ok_def ex_db_def MAX_AGENTS_PER_TENANT_def)
  moreover have "tenants_ok (db_tables ex_db)"
    by (simp add: tenants_ok_def ex_db_def tenant_checks_def pg_text_def pg_blank_def)
  moreover have "tickets_ok (db_tables ex_db)"
    by (simp add: tickets_ok_def ex_db_def ex_ticket_def ticket_checks_def pg_text_def pg_blank_def)
  moreover have "projections_ok ex_ext (db_tables ex_db)"
    unfolding projections_ok_def ex_tenant_rows
    by (simp add: ex_db_def row_envelopes_def ex_row_record) (simp add: ex_ext_def)
  ultimately show ?thesis
    by (simp add: store_inv_def) (simp add: ex_db_def)
qed

lemma ex_log: "tenant_log ex_ext ex_tenant ex_db = [\<lparr>sr_cursor = 1, sr_envelope = ex_envelope\<rparr>]"
  by (simp add: tenant_log_def ex_tenant_rows ex_tenant_def row_records_def ex_row_record)

lemma ex_enabled: "tenant_enabled ex_tenant ex_db" "agent_enabled ex_tenant ex_agent ex_db"
  by (simp_all add: tenant_enabled_def agent_enabled_def ex_db_def ex_tenant_def ex_agent_def)

lemma ex_retry:
  "append_envelope ex_ext ex_env ex_envelope ex_db =
    (Inr \<lparr>ao_cursor = 1, ao_inserted = False\<rparr>, ex_db\<lparr>db_event_seq := 2\<rparr>)"
proof -
  have "env_payload ex_envelope = ex_payload" "env_agent_id ex_envelope = ex_agent"
    by (simp_all add: ex_envelope_def signal_envelope_new_def)
  moreover have "db_event_seq ex_db = 1" "x_jsonb ex_ext (Inl ()) = Some (Inl ())"
    by (simp_all add: ex_db_def ex_ext_def)
  ultimately show ?thesis
    using retry_body [OF ex_codec ex_inv ex_healthy ex_agent_valid ex_scope ex_enabled(1),
        of "\<lparr>sr_cursor = 1, sr_envelope = ex_envelope\<rparr>" "\<lparr>cp_value = Inl (), cp_byte_len = 1\<rparr>" "Inl ()"]
    by (simp add: ex_enabled ex_log same_key_def ex_canonical)
qed

lemma projection_row_exists:
  assumes "projections_ok x tb" and "tenant_rows u tb \<noteq> []"
  shows "\<exists>r \<in> set (pt_projections tb). pr_tenant_id r = u"
  using assms unfolding projections_ok_def by blast

section \<open>Properties\<close>

text \<open>C12: the tables keep their invariant under every sequence of operations, with any failing
  statements and any fate of the commits: sequences and event ids are unique per tenant and
  agent, cursors grow in insertion order, every stored row decodes, no tenant has more than
  1000 agents, tickets expire within their authorization, and every projection row
  summarises exactly the events stored for its tenant.\<close>

theorem reachable_stores_are_consistent:
  assumes "codec_ok x" and "reachable x db"
  shows "store_inv x db"
  using assms by (rule reachable_inv)

theorem reachable_stores_are_consistent_witness:
  "store_inv ex_ext
     (snd (append_envelope ex_ext ex_env ex_envelope
       (snd (upsert_tenant_as ex_ext ex_env ex_tenant ''t'' ''T'' ''admin'' empty_store))))"
proof (rule reachable_stores_are_consistent [OF ex_codec])
  let ?db = "snd (upsert_tenant_as ex_ext ex_env ex_tenant ''t'' ''T'' ''admin'' empty_store)"
  have "store_step ex_ext empty_store ?db"
    by (rule step_tenant) (rule prod.collapse [symmetric])
  moreover have "store_step ex_ext ?db (snd (append_envelope ex_ext ex_env ex_envelope ?db))"
    by (rule step_append [OF ex_agent_valid]) (rule prod.collapse [symmetric])
  ultimately show "reachable ex_ext (snd (append_envelope ex_ext ex_env ex_envelope ?db))"
    unfolding reachable_def by simp
qed

text \<open>C1: appending an envelope refines the append-only log of its tenant: on success the log
  is unchanged and already holds the sequence with this payload, or it grows by exactly this
  envelope at a cursor beyond all earlier ones; on an error the log is unchanged, unless the
  commit took effect without being acknowledged; the logs of other tenants never change.\<close>

theorem append_refines_log:
  assumes "codec_ok x" and "store_inv x db" and "valid_agent_id (env_agent_id e)"
    and "env_scope e = Tenant t" and "append_envelope x env e db = (r, db')"
  shows "\<exists>c. (\<forall>rec \<in> set (tenant_log x t db). sr_cursor rec < c) \<and>
    (case r of
      Inr out \<Rightarrow> log_append c e (tenant_log x t db) = (Inr out, tenant_log x t db')
    | Inl err \<Rightarrow> tenant_log x t db' = tenant_log x t db \<or>
        pe_commit env = CommitUnacknowledged \<and>
        (\<exists>out. log_append c e (tenant_log x t db) = (Inr out, tenant_log x t db'))) \<and>
    (\<forall>u. u \<noteq> t \<longrightarrow> tenant_log x u db' = tenant_log x u db)"
  using append_log [OF assms] log_below_next [OF assms(2)]
  by (intro exI [of _ "word_of_int (db_event_seq db + 1)"]) blast

theorem append_refines_log_witness:
  "\<exists>c. log_append c ex_envelope (tenant_log ex_ext ex_tenant ex_db) =
     (Inr \<lparr>ao_cursor = 1, ao_inserted = False\<rparr>,
      tenant_log ex_ext ex_tenant (ex_db\<lparr>db_event_seq := 2\<rparr>))"
  using append_refines_log [OF ex_codec ex_inv ex_agent_valid ex_scope ex_retry] by auto

text \<open>C32: sending an envelope again is harmless when the database answers: if its sequence is
  stored with the same payload, the append reports the first cursor, nothing inserted, and
  only the cursor generator moves; this holds provided the JSON column returns the value it
  was given, and otherwise the retransmission is rejected as a sequence conflict.\<close>

theorem retransmission_outcome:
  assumes "codec_ok x" and "store_inv x db" and "healthy env"
    and "valid_agent_id (env_agent_id e)" and "env_scope e = Tenant t"
    and "tenant_enabled t db" and "agent_enabled t (env_agent_id e) db"
    and "db_event_seq db < 2 ^ 63 - 1"
    and "rec \<in> set (tenant_log x t db)" and "same_key e rec"
    and "env_payload (sr_envelope rec) = env_payload e"
    and "canonical_signal_payload x (env_payload e) = Inr p"
    and "x_jsonb x (cp_value p) = Some w"
  shows "append_envelope x env e db =
    ((if w = cp_value p then Inr \<lparr>ao_cursor = sr_cursor rec, ao_inserted = False\<rparr>
      else Inl (SequenceConflict (env_agent_id e) (env_sequence e))),
     db\<lparr>db_event_seq := db_event_seq db + 1\<rparr>)"
  using assms by (rule retry_body)

theorem retransmission_outcome_witness:
  "append_envelope ex_ext ex_env ex_envelope ex_db =
    (Inr \<lparr>ao_cursor = 1, ao_inserted = False\<rparr>, ex_db\<lparr>db_event_seq := 2\<rparr>)"
proof -
  have "env_payload ex_envelope = ex_payload" "env_agent_id ex_envelope = ex_agent"
    by (simp_all add: ex_envelope_def signal_envelope_new_def)
  moreover have "db_event_seq ex_db = 1" "x_jsonb ex_ext (Inl ()) = Some (Inl ())"
    by (simp_all add: ex_db_def ex_ext_def)
  ultimately show ?thesis
    using retransmission_outcome [OF ex_codec ex_inv ex_healthy ex_agent_valid ex_scope ex_enabled(1),
        of "\<lparr>sr_cursor = 1, sr_envelope = ex_envelope\<rparr>" "\<lparr>cp_value = Inl (), cp_byte_len = 1\<rparr>" "Inl ()"]
    by (simp add: ex_enabled ex_log same_key_def ex_canonical)
qed

text \<open>C13: a replay page is the longest prefix of the tenant's later events that respects the
  row limit and the byte budget, except that the first event is always delivered: pages
  never skip or reorder events, hold at most 1000 rows, exceed the budget only with a single
  event, and are empty only when nothing is left.\<close>

theorem replay_page_is_bounded_prefix:
  assumes "codec_ok x" and "store_inv x db"
    and "load_envelopes_after_bounded x env (Tenant t) after n b db = (Inr rs, db')"
  shows "rs = take (length rs) (records_after after (tenant_log x t db)) \<and>
    length rs \<le> min n 1000 \<and>
    (payload_total (take (length rs) (rows_after t after db)) \<le> int (min b (64 * 1024 * 1024)) \<or>
     length rs \<le> 1) \<and>
    (length rs < length (rows_after t after db) \<and> length rs < min n 1000 \<longrightarrow>
     int (min b (64 * 1024 * 1024)) < payload_total (take (length rs) (rows_after t after db)) +
       er_payload_bytes (rows_after t after db ! length rs)) \<and>
    (rs = [] \<and> 0 < n \<longrightarrow> records_after after (tenant_log x t db) = []) \<and>
    db_tables db' = db_tables db"
proof -
  let ?rows = "rows_after t after db" and ?n = "bounded_load_limit n"
    and ?b = "bounded_replay_json_bytes b"
  let ?p = "page ?b (take ?n ?rows)"
  have good: "\<forall>r \<in> set ?rows. is_ok (row_record x r)" "\<forall>r \<in> set (take ?n ?rows). 0 < er_payload_bytes r"
    using rows_after_ok(1) [OF assms(2), of t after] by (auto dest: in_set_takeD)
  obtain k where k: "k \<le> length (take ?n ?rows)" "?p = take k (take ?n ?rows)"
    using page_take by blast
  have kn: "k \<le> ?n" "k \<le> length ?rows" using k(1) by simp_all
  have p: "?p = take k ?rows" "length ?p = k" "k \<le> ?n"
    using kn by (simp_all add: k(2) min.absorb1)
  have rs: "rs = row_records x ?p" "db_tables db' = db_tables db"
    using load_Inr [OF assms] by (simp_all add: replay_page_def)
  have len: "length rs = k"
    using rs(1) p good(1) by (simp add: row_records_take [OF good(1)] row_records_map [OF good(1)])
  have budget: "?b = int (min b (64 * 1024 * 1024))" and limit: "?n = min n 1000"
    by (simp_all add: bounded_replay_json_bytes_def MAX_REPLAY_JSON_BYTES_def bounded_load_limit_def
        MAX_LOAD_LIMIT_def)
  have "rs = take (length rs) (records_after after (tenant_log x t db))"
    using rs(1) p len by (simp add: records_after_log [OF assms(2)] row_records_take [OF good(1)])
  moreover have "payload_total (take (length rs) ?rows) \<le> ?b \<or> length rs \<le> 1"
    using page_total [OF good(2), of ?b] p len by simp
  moreover have "?b < payload_total (take (length rs) ?rows) + er_payload_bytes (?rows ! length rs)"
    if "length rs < length ?rows" "length rs < ?n"
    using page_maximal [of ?b "take ?n ?rows"] p len that by simp
  moreover have "rs = [] \<and> 0 < n \<longrightarrow> records_after after (tenant_log x t db) = []"
    using load_page [OF assms] by blast
  ultimately show ?thesis
    using len p(3) rs(2) unfolding budget limit by blast
qed

theorem replay_page_is_bounded_prefix_witness:
  "\<exists>rs. fst (load_envelopes_after_bounded ex_ext ex_env (Tenant ex_tenant) 0 10 1 ex_db) = Inr rs \<and>
     length rs \<le> 10 \<and> rs \<noteq> []"
proof -
  obtain rs where rs: "fst (load_envelopes_after_bounded ex_ext ex_env (Tenant ex_tenant) 0 10 1 ex_db) = Inr rs"
    using load_healthy [OF ex_codec ex_inv ex_healthy ex_enabled(1), of 0 10 1] by (auto simp: is_ok_iff)
  then have run: "load_envelopes_after_bounded ex_ext ex_env (Tenant ex_tenant) 0 10 1 ex_db =
      (Inr rs, snd (load_envelopes_after_bounded ex_ext ex_env (Tenant ex_tenant) 0 10 1 ex_db))"
    by (metis prod.collapse)
  have "records_after 0 (tenant_log ex_ext ex_tenant ex_db) \<noteq> []"
    by (simp add: ex_log records_after_def)
  then have "rs \<noteq> []" "length rs \<le> 10"
    using replay_page_is_bounded_prefix [OF ex_codec ex_inv run] by auto
  then show ?thesis using rs by blast
qed

text \<open>C30: a client that follows the cursor of the last record of each page receives every event
  of its tenant after its starting cursor, in order and exactly once, and after at most one
  page per event is told that nothing is left.\<close>

theorem replay_catches_up:
  assumes ok: "codec_ok x" and inv: "store_inv x db" and "healthy env" and "tenant_enabled t db"
    and "0 < n" and "unat after < 2 ^ 63"
    and "length (records_after after (tenant_log x t db)) < fuel"
  shows "catch_up fuel (\<lambda>c. fst (load_envelopes_after_bounded x env (Tenant t) c n b db)) after =
    Inr (records_after after (tenant_log x t db))"
proof (rule pg_reader.catch_up_complete [where P = "\<lambda>c. unat c < 2 ^ 63"])
  fix r
  assume "r \<in> set (tenant_log x t db)"
  then obtain row where "row \<in> set (pt_events (db_tables db))" "row_record x row = Inr r"
    using tenant_log_mem [OF inv] by blast
  then have "0 < er_cursor row" "er_cursor row \<le> 2 ^ 63 - 1" "sr_cursor r = word_of_int (er_cursor row)"
    using inv row_record_fields by (fastforce simp: store_inv_def events_ok_def event_checks_def)+
  then have "unat (sr_cursor r) = nat (er_cursor row)" "er_cursor row < 2 ^ 63"
    by (simp_all add: unat_eq_nat_uint uint_word_of_int_eq take_bit_int_eq_self)
  then show "unat (sr_cursor r) < 2 ^ 63" by simp
qed (use assms load_healthy in \<open>auto\<close>)

theorem replay_catches_up_witness:
  "catch_up 2 (\<lambda>c. fst (load_envelopes_after_bounded ex_ext ex_env (Tenant ex_tenant) c 1 0 ex_db)) 0 =
    Inr [\<lparr>sr_cursor = 1, sr_envelope = ex_envelope\<rparr>]"
  using replay_catches_up [OF ex_codec ex_inv ex_healthy ex_enabled(1), of 1 0 2 0]
  by (simp add: ex_log records_after_def)

text \<open>C31: the projection a tenant reads is the fold of the observation over exactly the events
  of its log, stamped with the cursor of the last of them; there is none exactly when the log
  is empty.\<close>

theorem projection_summarises_log:
  assumes ok: "codec_ok x" and inv: "store_inv x db"
    and run: "load_projection x env t db = (Inr pr, db')"
  shows "case pr of
      None \<Rightarrow> tenant_log x t db = []
    | Some p \<Rightarrow> tenant_log x t db \<noteq> [] \<and> pj_last_cursor p = sr_cursor (last (tenant_log x t db)) \<and>
        pj_projection p =
          fold projection_observe (map sr_envelope (tenant_log x t db)) signal_projection_default"
proof (cases "first_row (filter (\<lambda>r. pr_tenant_id r = tenant_uuid t) (pt_projections (db_tables db)))")
  case None
  have uuid: "uuid_ok x" using ok by (simp add: codec_ok_def)
  have "tenant_uuid t \<notin> set (map pr_tenant_id (pt_projections (db_tables db)))"
    using None by (auto simp: filter_empty_conv)
  then have "tenant_rows (tenant_uuid t) (db_tables db) = []"
    using projection_row_exists [of x "db_tables db"] inv by (force simp: store_inv_def)
  then show ?thesis
    using load_projection_Inr [OF uuid run] None
    by (auto simp: transpose_option_def tenant_log_def row_records_def)
next
  case (Some row)
  have uuid: "uuid_ok x" using ok by (simp add: codec_ok_def)
  show ?thesis
    using load_projection_Inr [OF uuid run] projection_row_log [OF inv Some]
    by (auto simp: Some transpose_option_def projection_record_from_row_def result_simps from_pg_i64_def
        split: if_splits)
qed

theorem projection_summarises_log_witness:
  "fst (load_projection ex_ext ex_env ex_tenant ex_db) \<noteq> Inr None"
proof
  assume "fst (load_projection ex_ext ex_env ex_tenant ex_db) = Inr None"
  then have run: "load_projection ex_ext ex_env ex_tenant ex_db =
      (Inr None, snd (load_projection ex_ext ex_env ex_tenant ex_db))"
    by (simp add: prod_eq_iff)
  show False
    using projection_summarises_log [OF ex_codec ex_inv run] by (simp add: ex_log)
qed


lemma ex_consume:
  "fst (consume_stream_ticket ex_ext ex_env ex_tenant 3 ex_db) =
     Inr (Some \<lparr>sg_subject = ''u'', sg_authorized_until_unix = 60\<rparr>)"
  "fst (consume_stream_ticket ex_ext ex_env ex_tenant 3
     (snd (consume_stream_ticket ex_ext ex_env ex_tenant 3 ex_db))) = Inr None"
  using ex_codec unfolding codec_ok_def uuid_ok_def
  by (simp_all add: consume_stream_ticket_def with_tx_def tx_begin_def tx_commit_def tx_bind_def
      tx_lift_def sql_def set_tenant_context_def require_enabled_tenant_def
      REQUIRE_ENABLED_TENANT_SQL_def rls_def CONSUME_STREAM_TICKET_SQL_def ex_env_def
      ex_db_def ex_ticket_def ex_tenant_def Let_def transpose_option_def from_pg_i64_def
      epoch_seconds_def result_simps first_row_def)


end
