(* ===== verification/Cloud_Ingress.thy ===== *)
theory Cloud_Ingress
  imports Oidc_Auth Store_Log
begin

text \<open>
  The ingress plane of the cloud service (\<open>skid-monitor-server/src/ingress.rs\<close>): agents send
  OTLP requests with a bearer token and a sequence number, and a successful reply is the
  acknowledgement that the signal is stored. Request metadata is a look-up by name: missing, not
  visible ASCII, or a text. The gRPC server, its limits and the sockets are not modelled; the
  start-up sequence before the server listens is.
\<close>

section \<open>Statuses\<close>

datatype grpc_code =
  Unauthenticated | PermissionDenied | InvalidArgument | AlreadyExists | Unavailable | Internal

record grpc_status =
  gs_code :: grpc_code
  gs_message :: string

definition grpc :: "grpc_code \<Rightarrow> string \<Rightarrow> grpc_status" where
  "grpc c m = \<lparr>gs_code = c, gs_message = m\<rparr>"

definition auth_status :: "auth_error \<Rightarrow> grpc_status" where
  "auth_status e = (case e of
     MissingRole _ \<Rightarrow> grpc PermissionDenied ''agent is not authorized for telemetry ingest''
   | Discovery _ \<Rightarrow> grpc Unavailable ''authentication service is unavailable''
   | KeySet _ \<Rightarrow> grpc Unavailable ''authentication service is unavailable''
   | _ \<Rightarrow> grpc Unauthenticated ''agent credentials are invalid'')"

definition store_status :: "pg_store_error \<Rightarrow> grpc_status" where
  "store_status e = (case e of
     TenantDisabled _ \<Rightarrow> grpc PermissionDenied ''tenant and agent must be enrolled and enabled''
   | AgentNotEnrolled _ \<Rightarrow> grpc PermissionDenied ''tenant and agent must be enrolled and enabled''
   | AgentDisabled _ \<Rightarrow> grpc PermissionDenied ''tenant and agent must be enrolled and enabled''
   | IntegerOutOfRange field \<Rightarrow>
       if field = ''sequence'' then grpc InvalidArgument ''x-skid-sequence exceeds the supported range''
       else grpc Internal ''signal could not be committed''
   | InvalidSignalPayload _ \<Rightarrow>
       grpc InvalidArgument ''signal payload must be JSON round-trip safe and no larger than 16 MiB''
   | SignalPayloadNotRoundTripSafe \<Rightarrow>
       grpc InvalidArgument ''signal payload must be JSON round-trip safe and no larger than 16 MiB''
   | SignalPayloadTooLarge _ _ \<Rightarrow>
       grpc InvalidArgument ''signal payload must be JSON round-trip safe and no larger than 16 MiB''
   | SequenceConflict _ _ \<Rightarrow> grpc AlreadyExists ''x-skid-sequence was already used for another signal''
   | Database _ \<Rightarrow> grpc Unavailable ''signal store is unavailable''
   | _ \<Rightarrow> grpc Internal ''signal could not be committed'')"

section \<open>Request metadata\<close>

definition AUTHORIZATION_METADATA :: string where "AUTHORIZATION_METADATA = ''authorization''"
definition SEQUENCE_METADATA :: string where "SEQUENCE_METADATA = ''x-skid-sequence''"

datatype metadata_value = NotAscii | AsciiText string

type_synonym metadata_map = "string \<Rightarrow> metadata_value option"

definition required_metadata :: "metadata_map \<Rightarrow> string \<Rightarrow> grpc_status + string" where
  "required_metadata metadata name = (case metadata name of
     None \<Rightarrow> Inl (if name = AUTHORIZATION_METADATA then grpc Unauthenticated ''agent credentials are required''
       else grpc InvalidArgument (''required metadata '' @ name @ '' is missing''))
   | Some NotAscii \<Rightarrow> Inl (if name = AUTHORIZATION_METADATA then grpc Unauthenticated ''agent credentials are invalid''
       else grpc InvalidArgument (''metadata '' @ name @ '' is not valid ASCII''))
   | Some (AsciiText s) \<Rightarrow> Inr s)"

definition sequence_from_metadata :: "metadata_map \<Rightarrow> grpc_status + u64" where
  "sequence_from_metadata metadata =
     and_then (required_metadata metadata SEQUENCE_METADATA) (\<lambda>v.
       if v = [] \<or> \<not> list_all is_digit v
       then Inl (grpc InvalidArgument ''x-skid-sequence must be an unsigned decimal integer'')
       else ok_or (grpc InvalidArgument ''x-skid-sequence is outside the supported u64 range'') (parse_u64 v))"

section \<open>The ingest service\<close>

record ingest_context =
  ig_tenant_id :: tenant_id
  ig_agent_id :: agent_id
  ig_sequence :: u64

text \<open>What one request finds: the key refresh, the wall clock in seconds and in nanoseconds, the
  fresh event id and the behaviour of the database.\<close>

record request_env =
  rq_refresh :: refresh_env
  rq_now :: u64
  rq_clock :: int
  rq_uuid :: uuid
  rq_store :: pg_env

definition ingest_context_of ::
  "('j, 'k, 's) oidc_ext \<Rightarrow> request_env \<Rightarrow> metadata_map \<Rightarrow> 's oidc_verifier \<Rightarrow>
   (grpc_status + ingest_context) \<times> 's oidc_verifier"
where
  "ingest_context_of ox env metadata v =
     (case required_metadata metadata AUTHORIZATION_METADATA of
        Inl e \<Rightarrow> (Inl e, v)
      | Inr authorization \<Rightarrow>
          (case verify_bearer ox (rq_refresh env) (rq_now env) authorization v of
             (Inl e, v') \<Rightarrow> (Inl (auth_status e), v')
           | (Inr p, v') \<Rightarrow>
               (and_then (map_err auth_status (principal_agent_id p)) (\<lambda>a.
                map_ok (\<lambda>n. \<lparr>ig_tenant_id = ap_tenant_id p, ig_agent_id = a, ig_sequence = n\<rparr>)
                  (sequence_from_metadata metadata)), v')))"

definition ingest_envelope :: "request_env \<Rightarrow> ingest_context \<Rightarrow> signal \<Rightarrow> signal_envelope" where
  "ingest_envelope env c payload =
     signal_envelope_now (rq_uuid env) (rq_clock env) (Tenant (ig_tenant_id c)) (ig_agent_id c) (ig_sequence c) payload"

definition ingest_append ::
  "'v ext \<Rightarrow> request_env \<Rightarrow> ingest_context \<Rightarrow> signal \<Rightarrow> 'v pg_db \<Rightarrow> (grpc_status + unit) \<times> 'v pg_db"
where
  "ingest_append x env c payload db =
     (case append_envelope x (rq_store env) (ingest_envelope env c payload) db of
        (Inl e, db') \<Rightarrow> (Inl (store_status e), db')
      | (Inr _, db') \<Rightarrow> (Inr (), db'))"

record ('s, 'v) ingest_state =
  is_verifier :: "'s oidc_verifier"
  is_db :: "'v pg_db"

definition ingest_export ::
  "('j, 'k, 's) oidc_ext \<Rightarrow> 'v ext \<Rightarrow> request_env \<Rightarrow> metadata_map \<Rightarrow> signal \<Rightarrow> ('s, 'v) ingest_state \<Rightarrow>
   (grpc_status + unit) \<times> ('s, 'v) ingest_state"
where
  "ingest_export ox x env metadata payload s =
     (case ingest_context_of ox env metadata (is_verifier s) of
        (Inl e, v) \<Rightarrow> (Inl e, s\<lparr>is_verifier := v\<rparr>)
      | (Inr c, v) \<Rightarrow>
          (case ingest_append x env c payload (is_db s) of
             (r, db) \<Rightarrow> (r, s\<lparr>is_verifier := v, is_db := db\<rparr>)))"

definition ingest_metrics ::
  "('j, 'k, 's) oidc_ext \<Rightarrow> 'v ext \<Rightarrow> request_env \<Rightarrow> metadata_map \<Rightarrow> export_metrics_request \<Rightarrow> ('s, 'v) ingest_state \<Rightarrow>
   (grpc_status + unit) \<times> ('s, 'v) ingest_state"
where
  "ingest_metrics ox x env metadata request = ingest_export ox x env metadata (Metrics request)"

definition ingest_traces ::
  "('j, 'k, 's) oidc_ext \<Rightarrow> 'v ext \<Rightarrow> request_env \<Rightarrow> metadata_map \<Rightarrow> export_trace_request \<Rightarrow> ('s, 'v) ingest_state \<Rightarrow>
   (grpc_status + unit) \<times> ('s, 'v) ingest_state"
where
  "ingest_traces ox x env metadata request = ingest_export ox x env metadata (Traces request)"

definition ingest_logs ::
  "('j, 'k, 's) oidc_ext \<Rightarrow> 'v ext \<Rightarrow> request_env \<Rightarrow> metadata_map \<Rightarrow> export_logs_request \<Rightarrow> ('s, 'v) ingest_state \<Rightarrow>
   (grpc_status + unit) \<times> ('s, 'v) ingest_state"
where
  "ingest_logs ox x env metadata request = ingest_export ox x env metadata (Logs request)"

section \<open>Lemmas\<close>

lemma agent_id_new_valid: "agent_id_new s = Inr a \<Longrightarrow> valid_agent_id a"
  by (auto simp: valid_agent_id_def agent_id_new_def Let_def trim_idem split: if_splits)

lemma append_error_tables:
  assumes "append_envelope x env e db = (Inl err, db')"
  shows "db_tables db' = db_tables db \<or> err = Database SqlFault"
  using assms
  by (auto simp: append_envelope_def split: sum.splits prod.splits elim!: with_tx_cases)

text \<open>The request was authorized, and its signal is in the log of the token's tenant under the
  token's agent and the sequence number of the request.\<close>

definition ingested ::
  "('j, 'k, 's) oidc_ext \<Rightarrow> 'v ext \<Rightarrow> request_env \<Rightarrow> metadata_map \<Rightarrow> signal \<Rightarrow> 's oidc_verifier \<Rightarrow> 'v pg_db \<Rightarrow> bool"
where
  "ingested ox x env metadata payload v db \<longleftrightarrow>
     (\<exists>authorization p a n. required_metadata metadata AUTHORIZATION_METADATA = Inr authorization \<and>
        fst (verify_bearer ox (rq_refresh env) (rq_now env) authorization v) = Inr p \<and>
        has_role p (oc_required_role (ov_config v)) \<and>
        principal_agent_id p = Inr a \<and> sequence_from_metadata metadata = Inr n \<and>
        (\<exists>rec \<in> set (tenant_log x (ap_tenant_id p) db). env_agent_id (sr_envelope rec) = a \<and>
           env_sequence (sr_envelope rec) = n \<and> env_payload (sr_envelope rec) = payload))"

lemma log_append_member:
  assumes "log_append c e log = (Inr out, log')"
  shows "\<exists>rec \<in> set log'. same_key e rec \<and> env_payload (sr_envelope rec) = env_payload e"
proof (cases "find (same_key e) log")
  case None
  then show ?thesis using assms by (auto simp: log_append_def same_key_def)
next
  case (Some rec)
  then have "rec \<in> set log" "same_key e rec" by (auto simp: find_Some_iff)
  then show ?thesis using assms Some by (auto simp: log_append_def split: if_splits)
qed

lemma ingest_envelope_fields:
  "env_scope (ingest_envelope env c payload) = Tenant (ig_tenant_id c)"
  "env_agent_id (ingest_envelope env c payload) = ig_agent_id c"
  "env_sequence (ingest_envelope env c payload) = ig_sequence c"
  "env_payload (ingest_envelope env c payload) = payload"
  by (simp_all add: ingest_envelope_def signal_envelope_now_def signal_envelope_new_def)

lemma ingest_context_Inr:
  assumes "ingest_context_of ox env metadata v = (Inr c, v')"
  obtains authorization p where "required_metadata metadata AUTHORIZATION_METADATA = Inr authorization"
    "fst (verify_bearer ox (rq_refresh env) (rq_now env) authorization v) = Inr p"
    "has_role p (oc_required_role (ov_config v))" "principal_agent_id p = Inr (ig_agent_id c)"
    "sequence_from_metadata metadata = Inr (ig_sequence c)" "ig_tenant_id c = ap_tenant_id p"
    "valid_agent_id (ig_agent_id c)"
proof -
  obtain authorization p n a where c: "required_metadata metadata AUTHORIZATION_METADATA = Inr authorization"
    "verify_bearer ox (rq_refresh env) (rq_now env) authorization v = (Inr p, v')"
    "principal_agent_id p = Inr a" "sequence_from_metadata metadata = Inr n"
    "c = \<lparr>ig_tenant_id = ap_tenant_id p, ig_agent_id = a, ig_sequence = n\<rparr>"
    using assms unfolding ingest_context_of_def
    by (auto simp: result_simps split: sum.splits prod.splits)
  have "has_role p (oc_required_role (ov_config v))"
    using c(2) unfolding verify_bearer_def verify_bearer_for_role_def
    by (auto simp: result_simps has_role_def dest: principal_from_claims_Inr split: sum.splits prod.splits)
  moreover have "valid_agent_id a"
    using c(3) by (auto simp: principal_agent_id_def result_simps dest: agent_id_new_valid)
  ultimately show ?thesis using that c by simp
qed

lemma ingest_stored:
  assumes "codec_ok x" and "store_inv x db" and ctx: "ingest_context_of ox env metadata v = (Inr c, v')"
    and app: "log_append k (ingest_envelope env c payload) (tenant_log x (ig_tenant_id c) db) =
      (Inr out, tenant_log x (ig_tenant_id c) db')"
  shows "ingested ox x env metadata payload v db'"
proof (rule ingest_context_Inr [OF ctx])
  fix authorization p
  assume p: "required_metadata metadata AUTHORIZATION_METADATA = Inr authorization"
    "fst (verify_bearer ox (rq_refresh env) (rq_now env) authorization v) = Inr p"
    "has_role p (oc_required_role (ov_config v))" "principal_agent_id p = Inr (ig_agent_id c)"
    "sequence_from_metadata metadata = Inr (ig_sequence c)" "ig_tenant_id c = ap_tenant_id p"
  obtain rec where "rec \<in> set (tenant_log x (ig_tenant_id c) db')" "same_key (ingest_envelope env c payload) rec"
    "env_payload (sr_envelope rec) = payload"
    using log_append_member [OF app] by (auto simp: ingest_envelope_fields)
  then show ?thesis
    using p unfolding ingested_def same_key_def ingest_envelope_fields by metis
qed

lemma ingest_append_log:
  assumes ok: "codec_ok x" and inv: "store_inv x db" and ctx: "ingest_context_of ox env metadata v = (Inr c, v')"
    and run: "ingest_append x env c payload db = (r, db')"
  shows "case r of
      Inr _ \<Rightarrow> ingested ox x env metadata payload v db'
    | Inl e \<Rightarrow> (\<forall>t. tenant_log x t db' = tenant_log x t db) \<or>
        gs_code e = Unavailable \<and> ingested ox x env metadata payload v db'"
proof -
  let ?e = "ingest_envelope env c payload" and ?t = "ig_tenant_id c"
  obtain q where app: "append_envelope x (rq_store env) ?e db = (q, db')"
    and r: "r = (case q of Inl e \<Rightarrow> Inl (store_status e) | Inr _ \<Rightarrow> Inr ())"
    using run by (auto simp: ingest_append_def split: sum.splits prod.splits)
  have "valid_agent_id (env_agent_id ?e)"
    by (rule ingest_context_Inr [OF ctx]) (simp add: ingest_envelope_fields)
  note log = append_log [OF ok inv this _ app, of ?t, simplified ingest_envelope_fields, OF refl]
  show ?thesis
  proof (cases q)
    case (Inr out)
    then show ?thesis using log r ingest_stored [OF ok inv ctx] by auto
  next
    case (Inl err)
    consider "tenant_log x ?t db' = tenant_log x ?t db" | k out where
      "log_append k ?e (tenant_log x ?t db) = (Inr out, tenant_log x ?t db')"
      using log Inl by auto
    then show ?thesis
    proof cases
      case 1
      then have "tenant_log x t db' = tenant_log x t db" for t
        using log by (cases "t = ?t") auto
      then show ?thesis using r Inl by simp
    next
      case 2
      have "(\<forall>t. tenant_log x t db' = tenant_log x t db) \<or> err = Database SqlFault"
        using append_error_tables [OF app [unfolded Inl]] by (auto simp: tenant_log_def)
      then show ?thesis
        using r Inl ingest_stored [OF ok inv ctx 2] by (auto simp: store_status_def grpc_def)
    qed
  qed
qed

lemma ingest_export_context:
  assumes "ingest_export ox x env metadata payload s = (r, s')"
  obtains (refused) e where "r = Inl e" "is_db s' = is_db s"
  | (accepted) c v where "ingest_context_of ox env metadata (is_verifier s) = (Inr c, v)"
      "ingest_append x env c payload (is_db s) = (r, is_db s')"
  using assms by (auto simp: ingest_export_def split: sum.splits prod.splits)

text \<open>A request that retransmits the stored signal of the example store.\<close>

definition ex_request :: request_env where
  "ex_request = \<lparr>rq_refresh = ex_refresh, rq_now = 150, rq_clock = 11, rq_uuid = 9, rq_store = ex_env\<rparr>"

definition ex_metadata :: metadata_map where
  "ex_metadata name =
     (if name = ''authorization'' then Some (AsciiText ''Bearer x'')
      else if name = ''x-skid-sequence'' then Some (AsciiText ''5'') else None)"

definition ex_ingest :: "(unit, ex_value) ingest_state" where
  "ex_ingest = \<lparr>is_verifier = ex_verifier, is_db = ex_db\<rparr>"

lemma ex_context:
  "ingest_context_of ex_ox ex_request ex_metadata ex_verifier =
    (Inr \<lparr>ig_tenant_id = ex_tenant, ig_agent_id = ex_agent, ig_sequence = 5\<rparr>, ex_verifier)"
proof -
  have "verify_bearer ex_ox ex_refresh 150 ''Bearer x'' ex_verifier = (Inr ex_principal, ex_verifier)"
    using ex_verified by (simp add: verify_bearer_def) (simp add: ex_verifier_def ex_oidc_config_def)
  moreover have "principal_agent_id ex_principal = Inr ex_agent"
    by (simp add: principal_agent_id_def ex_principal_def ex_agent_def agent_id_new_def ex_trim
        MAX_AGENT_ID_BYTES_def code_def)
  moreover have "sequence_from_metadata ex_metadata = Inr 5"
    by (simp add: sequence_from_metadata_def required_metadata_def ex_metadata_def SEQUENCE_METADATA_def
        is_digit_def code_def parse_u64_def dec_value_def dec_acc_def)
  ultimately show ?thesis
    by (simp add: ingest_context_of_def required_metadata_def ex_metadata_def AUTHORIZATION_METADATA_def
        ex_request_def) (simp add: ex_principal_def ex_tenant_def)
qed

lemma ex_ingested:
  "ingest_export ex_ox ex_ext ex_request ex_metadata ex_payload ex_ingest =
    (Inr (), ex_ingest\<lparr>is_db := ex_db\<lparr>db_event_seq := 2\<rparr>\<rparr>)"
proof -
  have "ingest_envelope ex_request \<lparr>ig_tenant_id = ex_tenant, ig_agent_id = ex_agent, ig_sequence = 5\<rparr> ex_payload =
      ex_envelope"
    by (simp add: ingest_envelope_def ex_request_def signal_envelope_now_def now_unix_nano_def ex_envelope_def)
  then show ?thesis
    using ex_retry by (simp add: ingest_export_def ingest_append_def ex_ingest_def ex_context)
      (simp add: ex_request_def)
qed

section \<open>Properties\<close>



end
