(* ===== verification/Store_Isolation.thy ===== *)
theory Store_Isolation
  imports Store_Log
begin

text \<open>
  What one operation of the store can reach: an operation of a tenant leaves every row of every
  other tenant as it is, only an append adds events, and a tenant's log therefore only ever
  grows at its end. The client services rest on these facts.
\<close>

section \<open>What belongs to a tenant\<close>

record 'v tenant_view =
  tv_tenants :: "tenant_row list"
  tv_agents :: "agent_row list"
  tv_events :: "'v event_row list"
  tv_projections :: "'v projection_row list"
  tv_audit :: "audit_row list"
  tv_tickets :: "ticket_row list"

definition tenant_view :: "uuid \<Rightarrow> 'v pg_tables \<Rightarrow> 'v tenant_view" where
  "tenant_view u tb =
     \<lparr>tv_tenants = filter (\<lambda>r. tr_id r = u) (pt_tenants tb),
      tv_agents = filter (\<lambda>r. ar_tenant_id r = u) (pt_agents tb),
      tv_events = filter (\<lambda>r. er_tenant_id r = u) (pt_events tb),
      tv_projections = filter (\<lambda>r. pr_tenant_id r = u) (pt_projections tb),
      tv_audit = filter (\<lambda>r. au_tenant_id r = u) (pt_audit tb),
      tv_tickets = filter (\<lambda>r. ti_tenant_id r = u) (pt_tickets tb)\<rparr>"

definition other_views :: "tenant_id \<Rightarrow> (uuid \<Rightarrow> 'v tenant_view) \<Rightarrow> 'v pg_tx \<Rightarrow> bool" where
  "other_views t V s \<longleftrightarrow> (\<forall>u. u \<noteq> tenant_uuid t \<longrightarrow> tenant_view u (tx_tables s) = V u)"

lemma filter_key_map:
  assumes "\<And>r. key (f r) = key r" and "\<And>r. key r \<noteq> t \<Longrightarrow> f r = r" and "u \<noteq> t"
  shows "filter (\<lambda>r. key r = u) (map f xs) = filter (\<lambda>r. key r = u) xs"
  using assms by (induction xs) auto

lemma filter_key_map_if:
  assumes "u \<noteq> t" and "\<And>r. key r = t \<Longrightarrow> key (f r) = t" and "\<And>r. P r \<Longrightarrow> key r = t"
  shows "filter (\<lambda>r. key r = u) (map (\<lambda>r. if P r then f r else r) xs) = filter (\<lambda>r. key r = u) xs"
proof (rule filter_key_map [where t = t])
  show "key (if P r then f r else r) = key r" for r using assms by auto
  show "(if P r then f r else r) = r" if "key r \<noteq> t" for r using assms(3) that by auto
qed (rule assms(1))

lemma views_sql:
  assumes "\<And>ts s u. other_views t V s \<Longrightarrow> u \<noteq> tenant_uuid t \<Longrightarrow>
    tenant_view u (tx_tables (snd (q ts s))) = tenant_view u (tx_tables s)"
  shows "tx_keeps (other_views t V) (sql env q)"
proof (rule keeps_sql)
  show step: "other_views t V (s\<lparr>tx_stmt := Suc (tx_stmt s)\<rparr>)" if "other_views t V s" for s
    using that by (simp add: other_views_def)
  show "other_views t V (snd (q ts (s\<lparr>tx_stmt := Suc (tx_stmt s)\<rparr>)))" if "other_views t V s" for ts s
    using assms [OF step [OF that]] step [OF that] by (simp add: other_views_def)
qed

lemma views_read [keeps_intros]:
  "tx_keeps (other_views t V) (sql env (REQUIRE_ENABLED_TENANT_SQL x t'))"
  "tx_keeps (other_views t V) (sql env (select_agent_enabled x t' a))"
  "tx_keeps (other_views t V) (sql env (select_event x t' a n))"
  "tx_keeps (other_views t V) (sql env (select_projection x t'))"
  "tx_keeps (other_views t V) (sql env (LOAD_ENVELOPES_BOUNDED_SQL x t' af l b))"
  "tx_keeps (other_views t V) (sql env (AGENT_CARDINALITY_SQL x t' a))"
  "tx_keeps (other_views t V) (sql env (\<lambda>ts s. (f ts s, s)))"
  "tx_keeps (other_views t V) (sql env (pg_notify t' c))"
  "tx_keeps (other_views t V) (set_tenant_context x env t')"
  "tx_keeps (other_views t V) (lock_tenant env t')"
  unfolding set_tenant_context_def lock_tenant_def
  by (rule views_sql, simp add: statement_defs Let_def split: option.splits)+

lemma tenant_view_insert:
  "er_tenant_id e \<noteq> u \<Longrightarrow> tenant_view u (tb\<lparr>pt_events := pt_events tb @ [e]\<rparr>) = tenant_view u tb"
  "pr_tenant_id p \<noteq> u \<Longrightarrow> tenant_view u (tb\<lparr>pt_projections := pt_projections tb @ [p]\<rparr>) = tenant_view u tb"
  "au_tenant_id a \<noteq> u \<Longrightarrow> tenant_view u (tb\<lparr>pt_audit := pt_audit tb @ [a]\<rparr>) = tenant_view u tb"
  "ti_tenant_id k \<noteq> u \<Longrightarrow> tenant_view u (tb\<lparr>pt_tickets := pt_tickets tb @ [k]\<rparr>) = tenant_view u tb"
  by (simp_all add: tenant_view_def)

lemma tenant_view_update:
  "filter (\<lambda>r. pr_tenant_id r = u) ps = filter (\<lambda>r. pr_tenant_id r = u) (pt_projections tb) \<Longrightarrow>
     tenant_view u (tb\<lparr>pt_projections := ps\<rparr>) = tenant_view u tb"
  "filter (\<lambda>r. ar_tenant_id r = u) as = filter (\<lambda>r. ar_tenant_id r = u) (pt_agents tb) \<Longrightarrow>
     tenant_view u (tb\<lparr>pt_agents := as\<rparr>) = tenant_view u tb"
  "filter (\<lambda>r. ti_tenant_id r = u) ks = filter (\<lambda>r. ti_tenant_id r = u) (pt_tickets tb) \<Longrightarrow>
     tenant_view u (tb\<lparr>pt_tickets := ks\<rparr>) = tenant_view u tb"
  "filter (\<lambda>r. tr_id r = u) ts = filter (\<lambda>r. tr_id r = u) (pt_tenants tb) \<Longrightarrow>
     tenant_view u (tb\<lparr>pt_tenants := ts\<rparr>) = tenant_view u tb"
  by (simp_all add: tenant_view_def)

lemma views_insert [keeps_intros]:
  "tx_keeps (other_views t V) (sql env (insert_event x e' t e p b))"
  "tx_keeps (other_views t V) (sql env (insert_projection x e' t i))"
  "tx_keeps (other_views t V) (sql env (insert_audit x e' t ac an tt ti de))"
  "tx_keeps (other_views t V) (sql env (CREATE_STREAM_TICKET_SQL x e' tk t su ttl au))"
  by (rule views_sql, simp add: insert_event_def insert_projection_def insert_audit_def
      CREATE_STREAM_TICKET_SQL_def Let_def tenant_view_insert event_row_of_def split: option.split)+

lemma views_update [keeps_intros]:
  "tx_keeps (other_views t V) (sql env (update_projection x e' t c p))"
  "tx_keeps (other_views t V) (sql env (touch_agent x e' t a))"
  "tx_keeps (other_views t V) (sql env (update_agent_enabled x e' t a en))"
  "tx_keeps (other_views t V) (sql env (CONSUME_STREAM_TICKET_SQL x t tk))"
  by (rule views_sql, auto simp: update_projection_def touch_agent_def update_agent_enabled_def
      CONSUME_STREAM_TICKET_SQL_def Let_def
      intro!: tenant_view_update filter_key_map_if [where t = "tenant_uuid t"] split: option.split sum.split)+

lemma views_cleanup [keeps_intros]:
  "tx_keeps (other_views t V) (sql env (cleanup_stream_tickets_in x t))"
  by (rule views_sql) (auto simp: cleanup_stream_tickets_in_def Let_def tenant_view_def intro!: filter_cong)

lemma views_upsert_tenant [keeps_intros]:
  "tx_keeps (other_views t V) (sql env (upsert_tenant_row x e' t sl dn))"
proof (rule views_sql)
  fix ts s u
  assume "other_views t V s" and u: "u \<noteq> tenant_uuid t"
  define row where "row = (case first_row (filter (\<lambda>r. tr_id r = tenant_uuid t) (pt_tenants (tx_tables s))) of
      None \<Rightarrow> \<lparr>tr_id = tenant_uuid t, tr_slug = sl, tr_display_name = dn, tr_enabled = True,
        tr_created_at = now_of e', tr_updated_at = now_of e'\<rparr>
    | Some r \<Rightarrow> r\<lparr>tr_slug := sl, tr_display_name := dn, tr_updated_at := now_of e'\<rparr>)"
  have key: "tr_id row = tenant_uuid t"
    by (auto simp: row_def dest: first_row_Some split: option.splits)
  then have rows: "filter (\<lambda>r. tr_id r = u) (map (\<lambda>r. if tr_id r = tenant_uuid t then row else r) rs) =
      filter (\<lambda>r. tr_id r = u) rs" for rs
    by (intro filter_key_map_if [OF u]) auto
  show "tenant_view u (tx_tables (snd (upsert_tenant_row x e' t sl dn ts s))) = tenant_view u (tx_tables s)"
    unfolding upsert_tenant_row_def Let_def row_def [symmetric]
    using key u rows by (simp add: tenant_view_update split: sum.split)
qed

lemma views_upsert_agent [keeps_intros]:
  "tx_keeps (other_views t V) (sql env (upsert_agent_row x e' t a od))"
proof (rule views_sql)
  fix ts s u
  assume "other_views t V s" and u: "u \<noteq> tenant_uuid t"
  define hit where "hit r \<longleftrightarrow> ar_tenant_id r = tenant_uuid t \<and> ar_agent_id r = agent_id_str a" for r :: agent_row
  define row where "row = (case first_row (filter hit (pt_agents (tx_tables s))) of
      None \<Rightarrow> \<lparr>ar_tenant_id = tenant_uuid t, ar_agent_id = agent_id_str a, ar_display_name = od, ar_enabled = True,
        ar_enrolled_at = now_of e', ar_updated_at = now_of e', ar_last_seen_at = None\<rparr>
    | Some r \<Rightarrow> r\<lparr>ar_display_name := od, ar_enabled := True, ar_updated_at := now_of e'\<rparr>)"
  have key: "ar_tenant_id row = tenant_uuid t"
    by (auto simp: row_def hit_def dest: first_row_Some split: option.splits)
  then have rows: "filter (\<lambda>r. ar_tenant_id r = u) (map (\<lambda>r. if hit r then row else r) rs) =
      filter (\<lambda>r. ar_tenant_id r = u) rs" for rs
    by (intro filter_key_map_if [OF u]) (auto simp: hit_def)
  show "tenant_view u (tx_tables (snd (upsert_agent_row x e' t a od ts s))) = tenant_view u (tx_tables s)"
    unfolding upsert_agent_row_def Let_def hit_def [symmetric] row_def [symmetric]
    using key u rows by (simp add: tenant_view_update split: sum.split)
qed

section \<open>Operations\<close>

definition others_unchanged :: "tenant_id \<Rightarrow> 'v pg_db \<Rightarrow> 'v pg_db \<Rightarrow> bool" where
  "others_unchanged t db db' \<longleftrightarrow>
     (\<forall>u. u \<noteq> tenant_uuid t \<longrightarrow> tenant_view u (db_tables db') = tenant_view u (db_tables db))"

lemma others_refl [simp]: "others_unchanged t db db"
  by (simp add: others_unchanged_def)

lemma with_tx_views:
  assumes "with_tx env m db = (r, db')" and "tx_keeps (other_views t (\<lambda>u. tenant_view u (db_tables db))) m"
  shows "others_unchanged t db db'"
  using assms(1)
proof (cases rule: with_tx_cases)
  case (installed a s)
  have "other_views t (\<lambda>u. tenant_view u (db_tables db)) (tx_begin db)"
    by (simp add: other_views_def tx_begin_def)
  from keepsD [OF assms(2) this installed(1)] show ?thesis
    by (simp add: installed(2) others_unchanged_def other_views_def tx_commit_def)
qed (simp add: others_unchanged_def)

lemmas view_defs = require_enabled_tenant_def require_enabled_agent_def existing_outcome_def
  record_inserted_def append_body_def

lemma views_append: "tx_keeps (other_views t V) (append_body x env t e p)"
  unfolding view_defs by (intro keeps_intros)

lemma append_views:
  "append_envelope x env e db = (r, db') \<Longrightarrow> env_scope e = Tenant t \<Longrightarrow> others_unchanged t db db'"
  unfolding append_envelope_def
  by (auto simp: tenant_scope_def result_simps split: sum.splits intro!: views_append elim!: with_tx_views)

lemma load_views:
  "load_envelopes_after_bounded x env (Tenant t) af l b db = (r, db') \<Longrightarrow> others_unchanged t db db'"
  unfolding load_envelopes_after_bounded_def view_defs
  by (auto simp: tenant_scope_def split: sum.splits prod.splits intro!: keeps_intros elim!: with_tx_views)

lemma list_agents_views: "list_agents x collate env t db = (r, db') \<Longrightarrow> others_unchanged t db db'"
  unfolding list_agents_def view_defs by (erule with_tx_views) (intro keeps_intros)+

lemma load_projection_views: "load_projection x env t db = (r, db') \<Longrightarrow> others_unchanged t db db'"
  unfolding load_projection_def view_defs by (erule with_tx_views) (intro keeps_intros)+

lemma upsert_tenant_views: "upsert_tenant_as x env t sl dn ac db = (r, db') \<Longrightarrow> others_unchanged t db db'"
  unfolding upsert_tenant_as_def Let_def
  by (auto split: sum.splits intro!: keeps_intros elim!: with_tx_views)

lemma enroll_agent_views: "enroll_agent_as x env t a od ac db = (r, db') \<Longrightarrow> others_unchanged t db db'"
  unfolding enroll_agent_as_def view_defs Let_def
  by (auto split: sum.splits intro!: keeps_intros elim!: with_tx_views)

lemma set_agent_enabled_views: "set_agent_enabled_as x env t a en ac db = (r, db') \<Longrightarrow> others_unchanged t db db'"
  unfolding set_agent_enabled_as_def view_defs Let_def
  by (auto split: sum.splits intro!: keeps_intros elim!: with_tx_views)

lemma create_ticket_views: "create_stream_ticket x env rnd t su au ttl db = (r, db') \<Longrightarrow> others_unchanged t db db'"
  unfolding create_stream_ticket_def view_defs Let_def
  by (auto split: sum.splits intro!: keeps_intros elim!: with_tx_views)

lemma consume_ticket_views: "consume_stream_ticket x env t tk db = (r, db') \<Longrightarrow> others_unchanged t db db'"
  unfolding consume_stream_ticket_def view_defs by (erule with_tx_views) (intro keeps_intros)+

lemma cleanup_views: "cleanup_stream_tickets x env t db = (r, db') \<Longrightarrow> others_unchanged t db db'"
  unfolding cleanup_stream_tickets_def view_defs by (erule with_tx_views) (intro keeps_intros)+

section \<open>Events are only appended\<close>

definition same_events :: "'v event_row list \<Rightarrow> 'v pg_tx \<Rightarrow> bool" where
  "same_events es s \<longleftrightarrow> pt_events (tx_tables s) = es"

lemma events_sql:
  assumes "\<And>ts s. pt_events (tx_tables (snd (q ts s))) = pt_events (tx_tables s)"
  shows "tx_keeps (same_events es) (sql env q)"
  by (rule keeps_sql) (simp_all add: same_events_def assms)

lemma events_statements [keeps_intros]:
  "tx_keeps (same_events es) (sql env (REQUIRE_ENABLED_TENANT_SQL x t))"
  "tx_keeps (same_events es) (sql env (select_projection x t))"
  "tx_keeps (same_events es) (sql env (LOAD_ENVELOPES_BOUNDED_SQL x t af l b))"
  "tx_keeps (same_events es) (sql env (AGENT_CARDINALITY_SQL x t a))"
  "tx_keeps (same_events es) (sql env (\<lambda>ts s. (f ts s, s)))"
  "tx_keeps (same_events es) (set_tenant_context x env t)"
  "tx_keeps (same_events es) (lock_tenant env t)"
  "tx_keeps (same_events es) (sql env (insert_audit x e' t ac an tt ti de))"
  "tx_keeps (same_events es) (sql env (CREATE_STREAM_TICKET_SQL x e' tk t su ttl au))"
  "tx_keeps (same_events es) (sql env (update_agent_enabled x e' t a en))"
  "tx_keeps (same_events es) (sql env (CONSUME_STREAM_TICKET_SQL x t tk))"
  "tx_keeps (same_events es) (sql env (cleanup_stream_tickets_in x t))"
  "tx_keeps (same_events es) (sql env (upsert_tenant_row x e' t sl dn))"
  "tx_keeps (same_events es) (sql env (upsert_agent_row x e' t a od))"
  unfolding set_tenant_context_def lock_tenant_def
  by (rule events_sql, simp add: statement_defs Let_def split: option.splits sum.splits)+

lemma with_tx_events:
  assumes "with_tx env m db = (r, db')" and "tx_keeps (same_events (pt_events (db_tables db))) m"
  shows "pt_events (db_tables db') = pt_events (db_tables db)"
  using assms(1)
proof (cases rule: with_tx_cases)
  case (installed a s)
  have "same_events (pt_events (db_tables db)) (tx_begin db)"
    by (simp add: same_events_def tx_begin_def)
  from keepsD [OF assms(2) this installed(1)] show ?thesis
    by (simp add: installed(2) same_events_def tx_commit_def)
qed simp

lemma other_steps_keep_events:
  "load_envelopes_after_bounded x env sc af l b db = (r1, db') \<Longrightarrow> pt_events (db_tables db') = pt_events (db_tables db)"
  "list_agents x collate env t db = (r2, db') \<Longrightarrow> pt_events (db_tables db') = pt_events (db_tables db)"
  "load_projection x env t db = (r3, db') \<Longrightarrow> pt_events (db_tables db') = pt_events (db_tables db)"
  "upsert_tenant_as x env t sl dn ac db = (r4, db') \<Longrightarrow> pt_events (db_tables db') = pt_events (db_tables db)"
  "enroll_agent_as x env t a od ac db = (r5, db') \<Longrightarrow> pt_events (db_tables db') = pt_events (db_tables db)"
  "set_agent_enabled_as x env t a en ac db = (r6, db') \<Longrightarrow> pt_events (db_tables db') = pt_events (db_tables db)"
  "create_stream_ticket x env rnd t su au ttl db = (r7, db') \<Longrightarrow> pt_events (db_tables db') = pt_events (db_tables db)"
  "consume_stream_ticket x env t tk db = (r8, db') \<Longrightarrow> pt_events (db_tables db') = pt_events (db_tables db)"
  "cleanup_stream_tickets x env t db = (r9, db') \<Longrightarrow> pt_events (db_tables db') = pt_events (db_tables db)"
  unfolding load_envelopes_after_bounded_def list_agents_def load_projection_def upsert_tenant_as_def
    enroll_agent_as_def set_agent_enabled_as_def create_stream_ticket_def consume_stream_ticket_def
    cleanup_stream_tickets_def require_enabled_tenant_def Let_def
  by (auto split: sum.splits prod.splits intro!: keeps_intros elim!: with_tx_events)

lemma log_append_prefix:
  "log_append c e log = (Inr out, log') \<Longrightarrow> \<exists>ys. log' = log @ ys"
  by (auto simp: log_append_def split: option.splits if_splits)

lemma step_log_grows:
  assumes ok: "codec_ok x" and inv: "store_inv x db" and step: "store_step x db db'"
  shows "\<exists>ys. tenant_log x t db' = tenant_log x t db @ ys"
  using step
proof cases
  case (step_append e env r)
  show ?thesis
  proof (cases "env_scope e")
    case Solo
    then show ?thesis using step_append by (auto simp: append_envelope_def tenant_scope_def)
  next
    case (Tenant u)
    note log = append_log [OF ok inv step_append(1) Tenant step_append(2)]
    show ?thesis
    proof (cases "t = u")
      case True
      then show ?thesis using log log_append_prefix by (fastforce split: sum.splits)
    next
      case False
      then show ?thesis using log by auto
    qed
  qed
qed (auto simp: tenant_log_def tenant_rows_def dest: other_steps_keep_events)

lemma steps_log_grows:
  assumes "(store_step x)\<^sup>*\<^sup>* db db'" and "codec_ok x" and "store_inv x db"
  shows "store_inv x db' \<and> (\<exists>ys. tenant_log x t db' = tenant_log x t db @ ys)"
  using assms
proof (induction rule: rtranclp_induct)
  case (step d d')
  then show ?case
    using step_inv [of x d d'] step_log_grows [of x d d' t] by auto
qed simp

section \<open>Administrative changes are audited\<close>

text \<open>Either nothing changed, or exactly one audit row was added with the change.\<close>

definition audited :: "tenant_id \<Rightarrow> string \<Rightarrow> string \<Rightarrow> 'v pg_db \<Rightarrow> 'v pg_db \<Rightarrow> bool" where
  "audited t actor action db db' \<longleftrightarrow> db_tables db' = db_tables db \<or>
     (\<exists>row. pt_audit (db_tables db') = pt_audit (db_tables db) @ [row] \<and> au_tenant_id row = tenant_uuid t \<and>
        au_actor_id row = actor \<and> au_action row = action)"

lemma insert_audit_Inr:
  assumes "insert_audit x env t ac an tt ti de ts s = (Inr r, s')"
  shows "\<exists>row. tx_tables s' = (tx_tables s)\<lparr>pt_audit := pt_audit (tx_tables s) @ [row]\<rparr> \<and>
    au_tenant_id row = tenant_uuid t \<and> au_actor_id row = ac \<and> au_action row = an"
  using assms by (auto simp: insert_audit_def Let_def split: if_splits)

lemma with_tx_audited:
  assumes "with_tx env m db = (r, db')"
    and "\<And>a s. m (tx_begin db) = (Inr a, s) \<Longrightarrow> audited t ac an db (tx_commit s db)"
  shows "audited t ac an db db'"
  using assms(1)
proof (cases rule: with_tx_cases)
  case (unchanged e)
  then show ?thesis by (simp add: audited_def)
next
  case (installed a s)
  then show ?thesis using assms(2) by simp
qed

definition same_audit :: "audit_row list \<Rightarrow> 'v pg_tx \<Rightarrow> bool" where
  "same_audit rows s \<longleftrightarrow> pt_audit (tx_tables s) = rows"

lemma audit_sql:
  assumes "\<And>ts s. pt_audit (tx_tables (snd (q ts s))) = pt_audit (tx_tables s)"
  shows "tx_keeps (same_audit rows) (sql env q)"
  by (rule keeps_sql) (simp_all add: same_audit_def assms)

lemma audit_statements [keeps_intros]:
  "tx_keeps (same_audit rows) (sql env (REQUIRE_ENABLED_TENANT_SQL x t))"
  "tx_keeps (same_audit rows) (sql env (AGENT_CARDINALITY_SQL x t a))"
  "tx_keeps (same_audit rows) (set_tenant_context x env t)"
  "tx_keeps (same_audit rows) (lock_tenant env t)"
  "tx_keeps (same_audit rows) (sql env (update_agent_enabled x e' t a en))"
  "tx_keeps (same_audit rows) (sql env (upsert_tenant_row x e' t sl dn))"
  "tx_keeps (same_audit rows) (sql env (upsert_agent_row x e' t a od))"
  unfolding set_tenant_context_def lock_tenant_def
  by (rule audit_sql, simp add: statement_defs Let_def split: option.splits sum.splits)+

text \<open>Bodies that on success have added one audit row.\<close>

definition adds_audit :: "tenant_id \<Rightarrow> string \<Rightarrow> string \<Rightarrow> ('v, 'a) tx \<Rightarrow> bool" where
  "adds_audit t ac an m \<longleftrightarrow> (\<forall>s a s'. m s = (Inr a, s') \<longrightarrow>
     (\<exists>row. pt_audit (tx_tables s') = pt_audit (tx_tables s) @ [row] \<and> au_tenant_id row = tenant_uuid t \<and>
        au_actor_id row = ac \<and> au_action row = an))"

lemma adds_audit_insert:
  "adds_audit t ac an (tx_bind (sql env (insert_audit x e' t ac an tt ti de)) (\<lambda>_. tx_return b))"
  by (fastforce simp: adds_audit_def tx_simps dest: insert_audit_Inr)

lemma adds_audit_bind:
  assumes "\<And>rows. tx_keeps (same_audit rows) m" and "\<And>a. adds_audit t ac an (k a)"
  shows "adds_audit t ac an (tx_bind m k)"
  unfolding adds_audit_def
proof (intro allI impI)
  fix s b s'
  assume "tx_bind m k s = (Inr b, s')"
  then obtain a s1 where run: "m s = (Inr a, s1)" "k a s1 = (Inr b, s')" by (auto simp: tx_simps)
  have "same_audit (pt_audit (tx_tables s)) s1"
    by (rule keepsD [OF assms(1) _ run(1)]) (simp add: same_audit_def)
  then show "\<exists>row. pt_audit (tx_tables s') = pt_audit (tx_tables s) @ [row] \<and> au_tenant_id row = tenant_uuid t \<and>
      au_actor_id row = ac \<and> au_action row = an"
    using assms(2) run(2) unfolding adds_audit_def same_audit_def by metis
qed

lemma adds_audit_if:
  "adds_audit t ac an m \<Longrightarrow> adds_audit t ac an (if b then tx_lift (Inl e) else m)"
  by (simp add: adds_audit_def tx_lift_def)

lemma adds_audit_prod:
  "(\<And>a b. adds_audit t ac an (k a b)) \<Longrightarrow> adds_audit t ac an (case p of (a, b) \<Rightarrow> k a b)"
  by (cases p) simp

lemmas adds_audit_intros = adds_audit_insert adds_audit_bind adds_audit_if adds_audit_prod

lemma with_tx_adds_audit:
  assumes "with_tx env m db = (r, db')" and "adds_audit t ac an m"
  shows "audited t ac an db db'"
  by (rule with_tx_audited [OF assms(1)])
    (use assms(2) in \<open>fastforce simp: adds_audit_def audited_def tx_commit_def tx_begin_def\<close>)

lemma upsert_tenant_audited:
  assumes "upsert_tenant_as x env t sl dn ac db = (r, db')"
  shows "audited t (trim ac) ''tenant.upsert'' db db'"
proof (cases "required_actor_id ac")
  case (Inl e)
  then show ?thesis using assms by (simp add: upsert_tenant_as_def audited_def)
next
  case (Inr actor)
  then have "actor = trim ac" by (auto simp: required_actor_id_def Let_def split: if_splits)
  then show ?thesis
    using assms Inr unfolding upsert_tenant_as_def Let_def
    by (auto intro!: adds_audit_intros keeps_intros elim!: with_tx_adds_audit)
qed

lemma enroll_agent_audited:
  assumes "enroll_agent_as x env t a od ac db = (r, db')"
  shows "audited t (trim ac) ''agent.enroll'' db db'"
proof (cases "required_actor_id ac")
  case (Inl e)
  then show ?thesis using assms by (simp add: enroll_agent_as_def audited_def)
next
  case (Inr actor)
  then have "actor = trim ac" by (auto simp: required_actor_id_def Let_def split: if_splits)
  then show ?thesis
    using assms Inr unfolding enroll_agent_as_def Let_def require_enabled_tenant_def
    by (auto intro!: adds_audit_intros keeps_intros elim!: with_tx_adds_audit)
qed

lemma update_agent_none:
  assumes "update_agent_enabled x env t a en ts s = (Inr None, s')"
  shows "tx_tables s' = tx_tables s"
proof -
  let ?hit = "\<lambda>r. rls x s (ar_tenant_id r) \<and> ar_tenant_id r = tenant_uuid t \<and> ar_agent_id r = agent_id_str a"
  have none: "filter ?hit (pt_agents (tx_tables s)) = []"
    and s': "s' = s\<lparr>tx_tables := (tx_tables s)\<lparr>pt_agents := map (\<lambda>r. if ?hit r then
        r\<lparr>ar_enabled := en, ar_updated_at := now_of env\<rparr> else r) (pt_agents (tx_tables s))\<rparr>\<rparr>"
    using assms by (auto simp: update_agent_enabled_def Let_def transpose_option_def result_simps
        split: option.splits sum.splits)
  have "map (\<lambda>r. if ?hit r then r\<lparr>ar_enabled := en, ar_updated_at := now_of env\<rparr> else r)
      (pt_agents (tx_tables s)) = pt_agents (tx_tables s)"
    using none by (intro map_idI) (auto simp: filter_empty_conv)
  then show ?thesis by (simp only: s') simp
qed

lemma set_agent_enabled_audited:
  assumes run: "set_agent_enabled_as x env t a en ac db = (r, db')"
  shows "audited t (trim ac) ''agent.set_enabled'' db db'"
proof (cases "required_actor_id ac")
  case (Inl e)
  then show ?thesis using run by (simp add: set_agent_enabled_as_def audited_def)
next
  case (Inr actor)
  then have actor: "actor = trim ac" by (auto simp: required_actor_id_def Let_def split: if_splits)
  show ?thesis
  proof (rule with_tx_audited [OF run [unfolded set_agent_enabled_as_def Inr sum.case]])
    fix b s
    assume "tx_bind (set_tenant_context x env t) (\<lambda>_.
           tx_bind (require_enabled_tenant x env t) (\<lambda>_.
           tx_bind (sql env (update_agent_enabled x env t a en)) (\<lambda>row.
           tx_bind (tx_lift (transpose_option (agent_record_from_row t) row)) (\<lambda>agent.
           tx_bind (if agent \<noteq> None
             then sql env (insert_audit x env t actor ''agent.set_enabled'' ''agent''
               (agent_id_str a) [(''enabled'', DBool en)])
             else tx_return ()) (\<lambda>_.
           tx_return agent))))) (tx_begin db) = (Inr b, s)"
    then obtain k1 s1 k2 s2 u row s3 agent k3 where s1: "set_tenant_context x env t (tx_begin db) = (Inr k1, s1)"
      and s2: "require_enabled_tenant x env t s1 = (Inr k2, s2)"
      and s3: "update_agent_enabled x env t a en u (s2\<lparr>tx_stmt := Suc (tx_stmt s2)\<rparr>) = (Inr row, s3)"
      and agent: "transpose_option (agent_record_from_row t) row = Inr agent"
      and audit: "(if agent \<noteq> None then sql env (insert_audit x env t actor ''agent.set_enabled'' ''agent''
               (agent_id_str a) [(''enabled'', DBool en)]) else tx_return ()) s3 = (Inr k3, s)"
      unfolding tx_bind_Inr tx_lift_Inr sql_Inr tx_return_Inr by blast
    have s2': "tx_tables s2 = db_tables db"
      using s1 require_enabled_tenant_Inr [OF s2]
      by (auto simp: set_tenant_context_Inr tx_begin_def)
    have "pt_audit (tx_tables s3) = pt_audit (db_tables db)"
      using s3 s2' by (auto simp: update_agent_enabled_def Let_def split: sum.splits)
    moreover have "tx_tables s3 = db_tables db" if "agent = None"
      using that agent s2' update_agent_none [of x env t a en u "s2\<lparr>tx_stmt := Suc (tx_stmt s2)\<rparr>" s3] s3
      by (auto simp: transpose_option_def result_simps split: option.splits)
    ultimately show "audited t (trim ac) ''agent.set_enabled'' db (tx_commit s db)"
      using audit actor
      by (cases "agent = None")
        (auto simp: audited_def tx_commit_def tx_return_Inr sql_Inr dest!: insert_audit_Inr)
  qed
qed

end
