(* ===== verification/Client_Api.thy ===== *)
theory Client_Api
  imports Cloud_Ingress Store_Isolation
begin

text \<open>
  The client access plane of the cloud service (\<open>skid-monitor-server/src/api.rs\<close>): the handlers
  of its routes, the mapping of errors to responses, the streamed body of a replay page, and the
  WebSocket stream of a tenant's signals. A request is its decoded parts (headers, query, path,
  body); a response is its status and typed content. Waiting for a replay permit is not
  modelled: a handler runs once it has its permit, or finds the semaphore closed.
\<close>

section \<open>Errors\<close>

record api_error =
  ae_status :: nat
  ae_code :: string
  ae_message :: string

definition bad_request :: "string \<Rightarrow> api_error" where
  "bad_request m = \<lparr>ae_status = 400, ae_code = ''bad_request'', ae_message = m\<rparr>"

definition service_unavailable :: api_error where
  "service_unavailable =
     \<lparr>ae_status = 503, ae_code = ''store_unavailable'', ae_message = ''signal store is temporarily unavailable''\<rparr>"

definition internal_error :: api_error where
  "internal_error =
     \<lparr>ae_status = 500, ae_code = ''internal_error'', ae_message = ''the operation could not be completed''\<rparr>"

definition invalid_stream_ticket :: api_error where
  "invalid_stream_ticket =
     \<lparr>ae_status = 401, ae_code = ''invalid_stream_ticket'',
      ae_message = ''the one-time stream ticket is invalid or expired''\<rparr>"

definition auth_api_error :: "auth_error \<Rightarrow> api_error" where
  "auth_api_error e =
     (let (st, cd) = (case e of
            MissingRole _ \<Rightarrow> (403, ''forbidden'')
          | Discovery _ \<Rightarrow> (503, ''authentication_unavailable'')
          | KeySet _ \<Rightarrow> (503, ''authentication_unavailable'')
          | _ \<Rightarrow> (401, ''unauthorized''))
      in \<lparr>ae_status = st, ae_code = cd,
          ae_message = (if st = 403 then ''the access token does not grant this operation''
            else if st = 503 then ''the authentication service is temporarily unavailable''
            else ''a valid OIDC access token is required'')\<rparr>)"

definition store_api_error :: "pg_store_error \<Rightarrow> api_error" where
  "store_api_error e = (case e of
     Database _ \<Rightarrow> service_unavailable
   | Migration _ \<Rightarrow> service_unavailable
   | RuntimeSchemaNotReady _ \<Rightarrow> service_unavailable
   | TenantDisabled _ \<Rightarrow> \<lparr>ae_status = 403, ae_code = ''tenant_disabled'', ae_message = ''the tenant is disabled''\<rparr>
   | AgentLimitReached _ max_agents \<Rightarrow>
       \<lparr>ae_status = 409, ae_code = ''agent_limit_reached'',
        ae_message = ''the tenant cannot enroll more than '' @ show_nat max_agents @ '' agents''\<rparr>
   | StreamTicketAuthorizationExpired \<Rightarrow> auth_api_error (InvalidToken ''access token expired'')
   | _ \<Rightarrow> internal_error)"

section \<open>State and requests\<close>

record ('s, 'v) app_state =
  as_db :: "'v pg_db"
  as_auth :: "'s oidc_verifier"
  as_admin_role :: string
  as_stream_batch_size :: nat
  as_stream_batch_bytes :: nat
  as_stream_slots :: nat
  as_replay_closed :: bool

text \<open>What a request finds: \<open>rq_now\<close> is the clock when its token is verified, \<open>ar_unix_now\<close> the
  clock when the handler reads it afterwards.\<close>

record api_env = request_env +
  ar_unix_now :: u64
  ar_collate :: "agent_row list \<Rightarrow> agent_row list"

type_synonym headers = "metadata_value option"

definition authorization :: "headers \<Rightarrow> api_error + string" where
  "authorization h = (case h of
     None \<Rightarrow> Inl (auth_api_error MissingBearer)
   | Some NotAscii \<Rightarrow> Inl (auth_api_error InvalidBearer)
   | Some (AsciiText s) \<Rightarrow> Inr s)"

definition authenticate ::
  "('j, 'k, 's) oidc_ext \<Rightarrow> api_env \<Rightarrow> headers \<Rightarrow> string option \<Rightarrow> ('s, 'v) app_state \<Rightarrow>
   (api_error + authenticated_principal) \<times> ('s, 'v) app_state"
where
  "authenticate ox env h required_role s =
     (case authorization h of
        Inl e \<Rightarrow> (Inl e, s)
      | Inr a \<Rightarrow>
          (case (case required_role of
                   Some role \<Rightarrow> verify_bearer_for_role ox (rq_refresh env) (rq_now env) a role (as_auth s)
                 | None \<Rightarrow> verify_bearer ox (rq_refresh env) (rq_now env) a (as_auth s)) of
             (r, v) \<Rightarrow> (map_err auth_api_error r, s\<lparr>as_auth := v\<rparr>)))"

text \<open>A handler that authenticates first and then runs an operation of the store.\<close>

definition with_principal ::
  "('j, 'k, 's) oidc_ext \<Rightarrow> api_env \<Rightarrow> headers \<Rightarrow> string option \<Rightarrow>
   (authenticated_principal \<Rightarrow> ('s, 'v) app_state \<Rightarrow> (api_error + 'r) \<times> ('s, 'v) app_state) \<Rightarrow>
   ('s, 'v) app_state \<Rightarrow> (api_error + 'r) \<times> ('s, 'v) app_state"
where
  "with_principal ox env h required_role k s =
     (case authenticate ox env h required_role s of (Inl e, s') \<Rightarrow> (Inl e, s') | (Inr p, s') \<Rightarrow> k p s')"

definition run_store ::
  "('v pg_db \<Rightarrow> (pg_store_error + 'a) \<times> 'v pg_db) \<Rightarrow> ('s, 'v) app_state \<Rightarrow> (api_error + 'a) \<times> ('s, 'v) app_state"
where
  "run_store op s = (case op (as_db s) of (r, db) \<Rightarrow> (map_err store_api_error r, s\<lparr>as_db := db\<rparr>))"

section \<open>Handlers\<close>

definition live :: string where "live = ''ok''"

definition ready :: "(nat \<Rightarrow> bool) \<Rightarrow> (int \<times> bytes) list \<Rightarrow> pg_catalog \<Rightarrow> api_error + string" where
  "ready fault embedded cat =
     map_ok (\<lambda>_. ''ready'') (map_err (\<lambda>_. service_unavailable) (verify_runtime_schema fault embedded cat))"

definition acquire_replay_permit :: "('s, 'v) app_state \<Rightarrow> api_error + unit" where
  "acquire_replay_permit s = (if as_replay_closed s then Inl service_unavailable else Inr ())"

definition signals ::
  "('j, 'k, 's) oidc_ext \<Rightarrow> 'v ext \<Rightarrow> api_env \<Rightarrow> headers \<Rightarrow> signal_cursor \<Rightarrow> nat option \<Rightarrow>
   ('s, 'v) app_state \<Rightarrow> (api_error + signal_record list \<times> signal_cursor) \<times> ('s, 'v) app_state"
where
  "signals ox x env h after limit =
     with_principal ox env h None (\<lambda>p s.
       case acquire_replay_permit s of
         Inl e \<Rightarrow> (Inl e, s)
       | Inr _ \<Rightarrow>
           (case run_store (load_envelopes_after_bounded x (rq_store env) (Tenant (ap_tenant_id p)) after
                   (min (max (unwrap_or (as_stream_batch_size s) limit) 1) (as_stream_batch_size s))
                   (as_stream_batch_bytes s)) s of
              (r, s') \<Rightarrow>
                (map_ok (\<lambda>records. (records, if records = [] then after else sr_cursor (last records))) r, s')))"

definition agents ::
  "('j, 'k, 's) oidc_ext \<Rightarrow> 'v ext \<Rightarrow> api_env \<Rightarrow> headers \<Rightarrow> ('s, 'v) app_state \<Rightarrow>
   (api_error + agent_record list) \<times> ('s, 'v) app_state"
where
  "agents ox x env h =
     with_principal ox env h None (\<lambda>p.
       run_store (list_agents x (ar_collate env) (rq_store env) (ap_tenant_id p)))"

definition projection ::
  "('j, 'k, 's) oidc_ext \<Rightarrow> 'v ext \<Rightarrow> api_env \<Rightarrow> headers \<Rightarrow> ('s, 'v) app_state \<Rightarrow>
   (api_error + projection_record option) \<times> ('s, 'v) app_state"
where
  "projection ox x env h =
     with_principal ox env h None (\<lambda>p. run_store (load_projection x (rq_store env) (ap_tenant_id p)))"

definition api_upsert_tenant ::
  "('j, 'k, 's) oidc_ext \<Rightarrow> 'v ext \<Rightarrow> api_env \<Rightarrow> headers \<Rightarrow> string \<Rightarrow> string \<Rightarrow> ('s, 'v) app_state \<Rightarrow>
   (api_error + tenant_record) \<times> ('s, 'v) app_state"
where
  "api_upsert_tenant ox x env h slug display_name s0 =
     with_principal ox env h (Some (as_admin_role s0)) (\<lambda>p s.
       if trim slug = [] \<or> trim display_name = []
       then (Inl (bad_request ''tenant slug and display_name must not be empty''), s)
       else run_store (upsert_tenant_as x (rq_store env) (ap_tenant_id p) slug display_name (ap_subject p)) s) s0"

definition api_enroll_agent ::
  "('j, 'k, 's) oidc_ext \<Rightarrow> 'v ext \<Rightarrow> api_env \<Rightarrow> headers \<Rightarrow> string \<Rightarrow> string option \<Rightarrow> ('s, 'v) app_state \<Rightarrow>
   (api_error + nat \<times> agent_record) \<times> ('s, 'v) app_state"
where
  "api_enroll_agent ox x env h agent_id display_name s0 =
     with_principal ox env h (Some (as_admin_role s0)) (\<lambda>p s.
       case agent_id_new agent_id of
         Inl e \<Rightarrow> (Inl (bad_request (id_error_display e)), s)
       | Inr a \<Rightarrow>
           (case run_store (enroll_agent_as x (rq_store env) (ap_tenant_id p) a display_name (ap_subject p)) s of
              (r, s') \<Rightarrow> (map_ok (\<lambda>record. (201, record)) r, s'))) s0"

definition update_agent ::
  "('j, 'k, 's) oidc_ext \<Rightarrow> 'v ext \<Rightarrow> api_env \<Rightarrow> headers \<Rightarrow> string \<Rightarrow> bool \<Rightarrow> ('s, 'v) app_state \<Rightarrow>
   (api_error + agent_record) \<times> ('s, 'v) app_state"
where
  "update_agent ox x env h agent_id enabled s0 =
     with_principal ox env h (Some (as_admin_role s0)) (\<lambda>p s.
       case agent_id_new agent_id of
         Inl e \<Rightarrow> (Inl (bad_request (id_error_display e)), s)
       | Inr a \<Rightarrow>
           (case run_store (set_agent_enabled_as x (rq_store env) (ap_tenant_id p) a enabled (ap_subject p)) s of
              (r, s') \<Rightarrow>
                (and_then r (ok_or \<lparr>ae_status = 404, ae_code = ''agent_not_found'',
                   ae_message = ''the agent does not exist in this tenant''\<rparr>), s'))) s0"

section \<open>Stream tickets and the start of a stream\<close>

definition STREAM_TICKET_TTL :: nat where "STREAM_TICKET_TTL = secs 30"
definition REST_REPLAY_CHUNK_BYTES :: nat where "REST_REPLAY_CHUNK_BYTES = 64 * 1024"

definition stream_ticket ::
  "('j, 'k, 's) oidc_ext \<Rightarrow> 'v ext \<Rightarrow> api_env \<Rightarrow> headers \<Rightarrow> ('s, 'v) app_state \<Rightarrow>
   (api_error + string \<times> u64) \<times> ('s, 'v) app_state"
where
  "stream_ticket ox x env h =
     with_principal ox env h None (\<lambda>p s.
       case run_store (create_stream_ticket x (rq_store env) (rq_uuid env) (ap_tenant_id p) (ap_subject p)
               (ap_authorized_until_unix p) STREAM_TICKET_TTL) s of
         (r, s') \<Rightarrow>
           (map_ok (\<lambda>ticket_id.
               (x_uuid_show x (tenant_uuid (ap_tenant_id p)) @ ''.'' @ x_uuid_show x ticket_id,
                min 30 (sat_sub (ap_authorized_until_unix p) (ar_unix_now env)))) r, s'))"

definition parse_stream_ticket :: "'v ext \<Rightarrow> string \<Rightarrow> api_error + tenant_id \<times> uuid" where
  "parse_stream_ticket x v =
     and_then (ok_or invalid_stream_ticket (split_once (CHR ''.'') v)) (\<lambda>(tenant, ticket).
     and_then (ok_or invalid_stream_ticket (map_option TenantId (x_uuid_parse x tenant))) (\<lambda>tenant_id.
     map_ok (\<lambda>ticket_id. (tenant_id, ticket_id)) (ok_or invalid_stream_ticket (x_uuid_parse x ticket))))"

record stream_grant =
  gr_tenant_id :: tenant_id
  gr_after :: signal_cursor
  gr_authorized_until_unix :: u64

definition stream_authorization ::
  "('j, 'k, 's) oidc_ext \<Rightarrow> 'v ext \<Rightarrow> api_env \<Rightarrow> headers \<Rightarrow> string option \<Rightarrow> ('s, 'v) app_state \<Rightarrow>
   (api_error + tenant_id \<times> u64) \<times> ('s, 'v) app_state"
where
  "stream_authorization ox x env h ticket s =
     (case ticket of
        Some v \<Rightarrow>
          (case parse_stream_ticket x v of
             Inl e \<Rightarrow> (Inl e, s)
           | Inr (t, ticket_id) \<Rightarrow>
               (case run_store (consume_stream_ticket x (rq_store env) t ticket_id) s of
                  (r, s') \<Rightarrow>
                    (and_then r (\<lambda>grant. map_ok (\<lambda>g. (t, sg_authorized_until_unix g))
                       (ok_or invalid_stream_ticket grant)), s')))
      | None \<Rightarrow>
          with_principal ox env h None (\<lambda>p s'. (Inr (ap_tenant_id p, ap_authorized_until_unix p), s')) s)"

definition stream ::
  "('j, 'k, 's) oidc_ext \<Rightarrow> 'v ext \<Rightarrow> api_env \<Rightarrow> headers \<Rightarrow> signal_cursor \<Rightarrow> string option \<Rightarrow> ('s, 'v) app_state \<Rightarrow>
   (api_error + stream_grant) \<times> ('s, 'v) app_state"
where
  "stream ox x env h after ticket s =
     (if as_stream_slots s = 0
      then (Inl \<lparr>ae_status = 503, ae_code = ''stream_capacity_reached'',
              ae_message = ''stream connection capacity is temporarily exhausted''\<rparr>, s)
      else case stream_authorization ox x env h ticket s of
        (Inl e, s') \<Rightarrow> (Inl e, s')
      | (Inr (t, until), s') \<Rightarrow>
          if until \<le> ar_unix_now env then (Inl (auth_api_error (InvalidToken ''access token expired'')), s')
          else (Inr \<lparr>gr_tenant_id = t, gr_after = after, gr_authorized_until_unix = until\<rparr>,
                s'\<lparr>as_stream_slots := as_stream_slots s' - 1\<rparr>))"

section \<open>The routes\<close>

datatype api_request =
    GetSignals signal_cursor "nat option"
  | GetProjection
  | GetStream signal_cursor "string option"
  | PostStreamTicket
  | PutTenant string string
  | GetAgents
  | PostAgent string "string option"
  | PatchAgent string bool

datatype api_response =
    SignalPage "signal_record list" signal_cursor
  | Projection "projection_record option"
  | Upgraded stream_grant
  | TicketCreated string u64
  | TenantResponse tenant_record
  | AgentList "agent_record list"
  | AgentCreated agent_record
  | AgentUpdated agent_record

definition respond :: "('a \<Rightarrow> 'b) \<Rightarrow> ('e + 'a) \<times> 's \<Rightarrow> ('e + 'b) \<times> 's" where
  "respond f = (\<lambda>(r, s). (map_ok f r, s))"

fun router ::
  "('j, 'k, 's) oidc_ext \<Rightarrow> 'v ext \<Rightarrow> api_env \<Rightarrow> headers \<Rightarrow> api_request \<Rightarrow> ('s, 'v) app_state \<Rightarrow>
   (api_error + api_response) \<times> ('s, 'v) app_state"
where
  "router ox x env h (GetSignals after limit) s =
     respond (\<lambda>(records, cursor). SignalPage records cursor) (signals ox x env h after limit s)"
| "router ox x env h GetProjection s = respond Projection (projection ox x env h s)"
| "router ox x env h (GetStream after ticket) s = respond Upgraded (stream ox x env h after ticket s)"
| "router ox x env h PostStreamTicket s =
     respond (\<lambda>(ticket, expires). TicketCreated ticket expires) (stream_ticket ox x env h s)"
| "router ox x env h (PutTenant slug display_name) s =
     respond TenantResponse (api_upsert_tenant ox x env h slug display_name s)"
| "router ox x env h GetAgents s = respond AgentList (agents ox x env h s)"
| "router ox x env h (PostAgent agent_id display_name) s =
     respond (\<lambda>(_, record). AgentCreated record) (api_enroll_agent ox x env h agent_id display_name s)"
| "router ox x env h (PatchAgent agent_id enabled) s =
     respond AgentUpdated (update_agent ox x env h agent_id enabled s)"

section \<open>The body of a replay page\<close>

text \<open>The JSON encoders of a record and of a cursor are library functions.\<close>

record json_out =
  jo_record :: "signal_record \<Rightarrow> string + bytes"
  jo_cursor :: "signal_cursor \<Rightarrow> string + bytes"

record signal_page_stream =
  sp_records :: "signal_record list"
  sp_next_cursor :: signal_cursor
  sp_prefix_sent :: bool
  sp_first_record :: bool
  sp_suffix_sent :: bool
  sp_pending :: bytes

definition page_prefix :: bytes where
  "page_prefix = as_bytes ([CHR 0x7B, CHR 0x22] @ ''signals'' @ [CHR 0x22] @ '':['')"

definition page_suffix :: bytes where
  "page_suffix = as_bytes ('']'' @ '','' @ [CHR 0x22] @ ''next_cursor'' @ [CHR 0x22] @ '':'')"

definition signal_page_response :: "signal_record list \<Rightarrow> signal_cursor \<Rightarrow> signal_page_stream" where
  "signal_page_response records next_cursor =
     \<lparr>sp_records = records, sp_next_cursor = next_cursor, sp_prefix_sent = False, sp_first_record = True,
      sp_suffix_sent = False, sp_pending = []\<rparr>"

text \<open>One poll of the stream: the next chunk, if there is one.\<close>

function page_poll :: "json_out \<Rightarrow> signal_page_stream \<Rightarrow> ((string + bytes) \<times> signal_page_stream) option" where
  "page_poll j s =
     (if sp_pending s \<noteq> [] then
        (let n = min (length (sp_pending s)) REST_REPLAY_CHUNK_BYTES
         in Some (Inr (take n (sp_pending s)), s\<lparr>sp_pending := drop n (sp_pending s)\<rparr>))
      else if \<not> sp_prefix_sent s then page_poll j (s\<lparr>sp_prefix_sent := True, sp_pending := page_prefix\<rparr>)
      else case sp_records s of
        record # rest \<Rightarrow>
          (let comma = (if sp_first_record s then [] else as_bytes '','');
               s' = s\<lparr>sp_records := rest, sp_first_record := False\<rparr>
           in case jo_record j record of
                Inl e \<Rightarrow> Some (Inl e, s'\<lparr>sp_suffix_sent := True\<rparr>)
              | Inr b \<Rightarrow> page_poll j (s'\<lparr>sp_pending := comma @ b\<rparr>))
      | [] \<Rightarrow>
          if \<not> sp_suffix_sent s then
            (let s' = s\<lparr>sp_suffix_sent := True\<rparr>
             in case jo_cursor j (sp_next_cursor s) of
                  Inl e \<Rightarrow> Some (Inl e, s')
                | Inr b \<Rightarrow> page_poll j (s'\<lparr>sp_pending := page_suffix @ b @ as_bytes [CHR 0x7D]\<rparr>))
          else None)"
  by pat_completeness auto
termination
  by (relation "measure (\<lambda>(_, s). length (sp_records s) + (if sp_prefix_sent s then 0 else 1) +
      (if sp_suffix_sent s then 0 else 1))") auto

declare page_poll.simps [simp del]

definition page_work :: "signal_page_stream \<Rightarrow> nat" where
  "page_work s = length (sp_records s) + (if sp_prefix_sent s then 0 else 1) + (if sp_suffix_sent s then 0 else 1)"

lemma page_poll_pending:
  "sp_pending s \<noteq> [] \<Longrightarrow> page_poll j s =
    (let n = min (length (sp_pending s)) REST_REPLAY_CHUNK_BYTES
     in Some (Inr (take n (sp_pending s)), s\<lparr>sp_pending := drop n (sp_pending s)\<rparr>))"
  by (subst page_poll.simps) simp

lemma page_poll_prefix:
  "sp_pending s = [] \<Longrightarrow> \<not> sp_prefix_sent s \<Longrightarrow>
    page_poll j s = page_poll j (s\<lparr>sp_prefix_sent := True, sp_pending := page_prefix\<rparr>)"
  by (subst page_poll.simps) simp

lemma page_poll_record:
  "sp_pending s = [] \<Longrightarrow> sp_prefix_sent s \<Longrightarrow> sp_records s = r # rs \<Longrightarrow> page_poll j s =
    (case jo_record j r of
       Inl e \<Rightarrow> Some (Inl e, s\<lparr>sp_records := rs, sp_first_record := False, sp_suffix_sent := True\<rparr>)
     | Inr b \<Rightarrow> page_poll j (s\<lparr>sp_records := rs, sp_first_record := False,
         sp_pending := (if sp_first_record s then [] else as_bytes '','') @ b\<rparr>))"
  by (subst page_poll.simps) (simp add: Let_def)

lemma page_poll_suffix:
  "sp_pending s = [] \<Longrightarrow> sp_prefix_sent s \<Longrightarrow> sp_records s = [] \<Longrightarrow> page_poll j s =
    (if sp_suffix_sent s then None
     else case jo_cursor j (sp_next_cursor s) of
       Inl e \<Rightarrow> Some (Inl e, s\<lparr>sp_suffix_sent := True\<rparr>)
     | Inr b \<Rightarrow> page_poll j (s\<lparr>sp_suffix_sent := True,
         sp_pending := page_suffix @ b @ as_bytes [CHR 0x7D]\<rparr>))"
  by (subst page_poll.simps) (simp add: Let_def)

lemma page_cases [case_names pending prefix item suffix]:
  assumes "sp_pending s \<noteq> [] \<Longrightarrow> P" and "sp_pending s = [] \<Longrightarrow> \<not> sp_prefix_sent s \<Longrightarrow> P"
    and "\<And>r rs. sp_pending s = [] \<Longrightarrow> sp_prefix_sent s \<Longrightarrow> sp_records s = r # rs \<Longrightarrow> P"
    and "sp_pending s = [] \<Longrightarrow> sp_prefix_sent s \<Longrightarrow> sp_records s = [] \<Longrightarrow> P"
  shows P
  using assms by (cases "sp_records s") blast+

lemma page_poll_decreases:
  assumes "page_poll j s = Some (c, s')"
  shows "page_work s' < page_work s \<or> page_work s' = page_work s \<and> length (sp_pending s') < length (sp_pending s)"
  using assms
proof (induction "page_work s" arbitrary: s rule: less_induct)
  case less
  show ?case
  proof (cases s rule: page_cases)
    case pending
    then show ?thesis
      using less.prems by (auto simp: page_poll_pending Let_def page_work_def REST_REPLAY_CHUNK_BYTES_def)
  next
    case prefix
    then show ?thesis
      using less.prems less.hyps [of "s\<lparr>sp_prefix_sent := True, sp_pending := page_prefix\<rparr>"]
      by (auto simp: page_poll_prefix page_work_def)
  next
    case (item r rs)
    then show ?thesis
      using less.prems less.hyps [of "s\<lparr>sp_records := rs, sp_first_record := False,
         sp_pending := (if sp_first_record s then [] else as_bytes '','') @ projr (jo_record j r)\<rparr>"]
      by (auto simp: page_poll_record page_work_def split: sum.splits)
  next
    case suffix
    then show ?thesis
      using less.prems less.hyps [of "s\<lparr>sp_suffix_sent := True,
         sp_pending := page_suffix @ projr (jo_cursor j (sp_next_cursor s)) @ as_bytes [CHR 0x7D]\<rparr>"]
      by (auto simp: page_poll_suffix page_work_def split: sum.splits if_splits)
  qed
qed

function page_chunks :: "json_out \<Rightarrow> signal_page_stream \<Rightarrow> (string + bytes) list" where
  "page_chunks j s = (case page_poll j s of None \<Rightarrow> [] | Some (c, s') \<Rightarrow> c # page_chunks j s')"
  by pat_completeness auto
termination
  by (relation "inv_image (less_than <*lex*> less_than) (\<lambda>(_, s). (page_work s, length (sp_pending s)))")
    (auto dest: page_poll_decreases)

declare page_chunks.simps [simp del]

text \<open>What the stream has still to send when every record can be encoded.\<close>

fun comma_records :: "(signal_record \<Rightarrow> bytes) \<Rightarrow> bool \<Rightarrow> signal_record list \<Rightarrow> bytes" where
  "comma_records f first [] = []"
| "comma_records f first (r # rs) = (if first then [] else as_bytes '','') @ f r @ comma_records f False rs"

definition page_rest :: "(signal_record \<Rightarrow> bytes) \<Rightarrow> bytes \<Rightarrow> signal_page_stream \<Rightarrow> bytes" where
  "page_rest f cb s =
     sp_pending s @ (if sp_prefix_sent s then [] else page_prefix) @
     comma_records f (sp_first_record s) (sp_records s) @
     (if sp_suffix_sent s then [] else page_suffix @ cb @ as_bytes [CHR 0x7D])"

definition encodes :: "json_out \<Rightarrow> (signal_record \<Rightarrow> bytes) \<Rightarrow> bytes \<Rightarrow> signal_page_stream \<Rightarrow> bool" where
  "encodes j f cb s \<longleftrightarrow> (\<forall>r \<in> set (sp_records s). jo_record j r = Inr (f r)) \<and> jo_cursor j (sp_next_cursor s) = Inr cb \<and>
     (sp_pending s = [] \<or> sp_prefix_sent s)"

lemma page_poll_rest:
  assumes "encodes j f cb s"
  shows "case page_poll j s of
      None \<Rightarrow> page_rest f cb s = []
    | Some (c, s') \<Rightarrow> \<exists>b. c = Inr b \<and> b \<noteq> [] \<and> length b \<le> 64 * 1024 \<and>
        page_rest f cb s = b @ page_rest f cb s' \<and> encodes j f cb s'"
  using assms
proof (induction "page_work s" arbitrary: s rule: less_induct)
  case less
  have step: ?case if "page_poll j s = page_poll j s1" "page_rest f cb s1 = page_rest f cb s"
    "page_work s1 < page_work s" "encodes j f cb s1" for s1
    using less.hyps [OF that(3,4)] unfolding that(1,2) .
  show ?case
  proof (cases s rule: page_cases)
    case pending
    then show ?thesis
      using less.prems
      by (auto simp: page_poll_pending Let_def page_rest_def encodes_def REST_REPLAY_CHUNK_BYTES_def)
  next
    case prefix
    then show ?thesis
      using less.prems by (intro step) (rule page_poll_prefix, simp_all add: page_work_def page_rest_def encodes_def)
  next
    case (item r rs)
    then show ?thesis
      using less.prems
      by (intro step [of "s\<lparr>sp_records := rs, sp_first_record := False,
         sp_pending := (if sp_first_record s then [] else as_bytes '','') @ f r\<rparr>"])
        (simp_all add: page_poll_record page_work_def page_rest_def encodes_def)
  next
    case suffix
    show ?thesis
    proof (cases "sp_suffix_sent s")
      case True
      then show ?thesis using suffix by (simp add: page_poll_suffix page_rest_def)
    next
      case False
      then show ?thesis
        using suffix less.prems
        by (intro step [of "s\<lparr>sp_suffix_sent := True, sp_pending := page_suffix @ cb @ as_bytes [CHR 0x7D]\<rparr>"])
          (simp_all add: page_poll_suffix page_work_def page_rest_def encodes_def)
    qed
  qed
qed

lemma page_chunks_rest:
  assumes "encodes j f cb s"
  shows "(\<forall>c \<in> set (page_chunks j s). \<exists>b. c = Inr b \<and> b \<noteq> [] \<and> length b \<le> 64 * 1024) \<and>
    concat (map projr (page_chunks j s)) = page_rest f cb s"
  using assms
proof (induction j s rule: page_chunks.induct)
  case (1 j s)
  show ?case
  proof (cases "page_poll j s")
    case None
    then have "page_chunks j s = []" by (subst page_chunks.simps) simp
    then show ?thesis using page_poll_rest [OF "1.prems"] None by simp
  next
    case (Some cs)
    then obtain c s' where cs: "page_poll j s = Some (c, s')" by (cases cs) auto
    then obtain b where "c = Inr b" "b \<noteq> []" "length b \<le> 64 * 1024" "page_rest f cb s = b @ page_rest f cb s'"
      "encodes j f cb s'"
      using page_poll_rest [OF "1.prems"] by auto
    moreover have "page_chunks j s = c # page_chunks j s'" by (subst page_chunks.simps) (simp add: cs)
    ultimately show ?thesis using "1.IH" [OF cs refl] by simp
  qed
qed


lemma signal_page_rest:
  assumes "\<forall>r \<in> set rs. jo_record j r = Inr (f r)" and "jo_cursor j c = Inr cb"
  shows "encodes j f cb (signal_page_response rs c) \<and>
    page_rest f cb (signal_page_response rs c) = page_prefix @ comma_records f True rs @ page_suffix @ cb @ as_bytes [CHR 0x7D]"
  using assms by (simp add: encodes_def page_rest_def signal_page_response_def)

section \<open>The directory of tenants and agents\<close>

definition directory :: "'v pg_tables \<Rightarrow> tenant_row list \<times> agent_row list" where
  "directory tb = (pt_tenants tb, pt_agents tb)"

definition same_directory :: "tenant_row list \<times> agent_row list \<Rightarrow> 'v pg_tx \<Rightarrow> bool" where
  "same_directory d s \<longleftrightarrow> directory (tx_tables s) = d"

lemma directory_sql:
  assumes "\<And>ts s. directory (tx_tables (snd (q ts s))) = directory (tx_tables s)"
  shows "tx_keeps (same_directory d) (sql env q)"
  by (rule keeps_sql) (simp_all add: same_directory_def assms)

lemma directory_statements [keeps_intros]:
  "tx_keeps (same_directory d) (sql env (REQUIRE_ENABLED_TENANT_SQL x t))"
  "tx_keeps (same_directory d) (sql env (select_projection x t))"
  "tx_keeps (same_directory d) (sql env (LOAD_ENVELOPES_BOUNDED_SQL x t af l b))"
  "tx_keeps (same_directory d) (sql env (\<lambda>ts s. (f ts s, s)))"
  "tx_keeps (same_directory d) (set_tenant_context x env t)"
  "tx_keeps (same_directory d) (sql env (CREATE_STREAM_TICKET_SQL x e' tk t su ttl au))"
  "tx_keeps (same_directory d) (sql env (CONSUME_STREAM_TICKET_SQL x t tk))"
  "tx_keeps (same_directory d) (sql env (cleanup_stream_tickets_in x t))"
  unfolding set_tenant_context_def
  by (rule directory_sql, simp add: statement_defs Let_def directory_def)+

lemma with_tx_directory:
  assumes "with_tx env m db = (r, db')" and "tx_keeps (same_directory (directory (db_tables db))) m"
  shows "directory (db_tables db') = directory (db_tables db)"
  using assms(1)
proof (cases rule: with_tx_cases)
  case (installed a s)
  have "same_directory (directory (db_tables db)) (tx_begin db)"
    by (simp add: same_directory_def tx_begin_def)
  from keepsD [OF assms(2) this installed(1)] show ?thesis
    by (simp add: installed(2) same_directory_def tx_commit_def)
qed simp

lemma readers_keep_directory:
  "load_envelopes_after_bounded x env sc af l b db = (r1, db') \<Longrightarrow> directory (db_tables db') = directory (db_tables db)"
  "list_agents x collate env t db = (r2, db') \<Longrightarrow> directory (db_tables db') = directory (db_tables db)"
  "load_projection x env t db = (r3, db') \<Longrightarrow> directory (db_tables db') = directory (db_tables db)"
  "create_stream_ticket x env rnd t su au ttl db = (r7, db') \<Longrightarrow> directory (db_tables db') = directory (db_tables db)"
  "consume_stream_ticket x env t tk db = (r8, db') \<Longrightarrow> directory (db_tables db') = directory (db_tables db)"
  unfolding load_envelopes_after_bounded_def list_agents_def load_projection_def create_stream_ticket_def
    consume_stream_ticket_def require_enabled_tenant_def Let_def
  by (auto split: sum.splits prod.splits intro!: keeps_intros elim!: with_tx_directory)

section \<open>What a request may do\<close>

fun required_role_of :: "api_request \<Rightarrow> ('s, 'v) app_state \<Rightarrow> string option" where
  "required_role_of (PutTenant _ _) s = Some (as_admin_role s)"
| "required_role_of (PostAgent _ _) s = Some (as_admin_role s)"
| "required_role_of (PatchAgent _ _) s = Some (as_admin_role s)"
| "required_role_of _ s = None"

text \<open>The tenant a request acts for: that of its verified token, or that of the stream ticket it
  presents.\<close>

definition acts_for ::
  "('j, 'k, 's) oidc_ext \<Rightarrow> 'v ext \<Rightarrow> api_env \<Rightarrow> headers \<Rightarrow> api_request \<Rightarrow> ('s, 'v) app_state \<Rightarrow> tenant_id \<Rightarrow> bool"
where
  "acts_for ox x env h req s t \<longleftrightarrow>
     (\<exists>after v k. req = GetStream after (Some v) \<and> parse_stream_ticket x v = Inr (t, k)) \<or>
     (\<exists>p. fst (authenticate ox env h (required_role_of req s) s) = Inr p \<and> ap_tenant_id p = t)"

lemma authenticate_db [simp]: "as_db (snd (authenticate ox env h role s)) = as_db s"
  "as_admin_role (snd (authenticate ox env h role s)) = as_admin_role s"
  by (auto simp: authenticate_def split: sum.splits prod.splits)

lemma with_principal_cases:
  assumes "with_principal ox env h role k s = (r, s')"
  obtains (refused) e where "r = Inl e" "as_db s' = as_db s"
  | (granted) p s1 where "fst (authenticate ox env h role s) = Inr p" "as_db s1 = as_db s" "k p s1 = (r, s')"
proof (cases "authenticate ox env h role s")
  case (Pair q s1)
  then have "as_db s1 = as_db s" using authenticate_db(1) [of ox env h role s] by simp
  then show ?thesis
    using assms Pair refused granted by (cases q) (auto simp: with_principal_def)
qed

lemma run_store_eq: "run_store op s = (r, s') \<longleftrightarrow>
    (\<exists>q db. op (as_db s) = (q, db) \<and> r = map_err store_api_error q \<and> s' = s\<lparr>as_db := db\<rparr>)"
  by (auto simp: run_store_def split: prod.splits)

text \<open>Every request either leaves the store alone or runs one operation for its tenant.\<close>

inductive store_call ::
  "'v ext \<Rightarrow> api_request \<Rightarrow> tenant_id \<Rightarrow> string \<Rightarrow> 'v pg_db \<Rightarrow> 'v pg_db \<Rightarrow> bool"
for x where
  call_load: "load_envelopes_after_bounded x e (Tenant t) af l b db = (q, db') \<Longrightarrow>
    store_call x (GetSignals af lim) t subject db db'"
| call_projection: "load_projection x e t db = (q, db') \<Longrightarrow> store_call x GetProjection t subject db db'"
| call_agents: "list_agents x collate e t db = (q, db') \<Longrightarrow> store_call x GetAgents t subject db db'"
| call_ticket: "create_stream_ticket x e u t subject au ttl db = (q, db') \<Longrightarrow>
    store_call x PostStreamTicket t subject db db'"
| call_consume: "consume_stream_ticket x e t tk db = (q, db') \<Longrightarrow>
    store_call x (GetStream af ticket) t subject db db'"
| call_tenant: "upsert_tenant_as x e t sl dn subject db = (q, db') \<Longrightarrow>
    store_call x (PutTenant sl dn) t subject db db'"
| call_enroll: "enroll_agent_as x e t a od subject db = (q, db') \<Longrightarrow>
    store_call x (PostAgent an od) t subject db db'"
| call_update: "set_agent_enabled_as x e t a en subject db = (q, db') \<Longrightarrow>
    store_call x (PatchAgent an en) t subject db db'"

inductive_cases store_callE: "store_call x req t subject db db'"

lemma store_call_views: "store_call x req t subject db db' \<Longrightarrow> others_unchanged t db db'"
  by (auto elim!: store_callE intro: load_views load_projection_views list_agents_views create_ticket_views
      consume_ticket_views upsert_tenant_views enroll_agent_views set_agent_enabled_views)

lemma store_call_directory:
  assumes "store_call x req t subject db db'" and "directory (db_tables db') \<noteq> directory (db_tables db)"
  shows "(\<exists>action. audited t (trim subject) action db db') \<and> required_role_of req s = Some (as_admin_role s)"
  using assms
  by (auto elim!: store_callE dest: readers_keep_directory upsert_tenant_audited enroll_agent_audited
      set_agent_enabled_audited)

lemma respond_eq: "respond f q = (r, s) \<longleftrightarrow> (\<exists>r0. q = (r0, s) \<and> r = map_ok f r0)"
  by (cases q) (auto simp: respond_def)

text \<open>A handler that runs its continuation under the verified principal makes at most the store
  call of that principal.\<close>

definition calls_as ::
  "('j, 'k, 's) oidc_ext \<Rightarrow> 'v ext \<Rightarrow> api_env \<Rightarrow> headers \<Rightarrow> api_request \<Rightarrow> ('s, 'v) app_state \<Rightarrow> 'v pg_db \<Rightarrow> bool"
where
  "calls_as ox x env h req s db' \<longleftrightarrow> db' = as_db s \<or>
     (\<exists>p. fst (authenticate ox env h (required_role_of req s) s) = Inr p \<and>
        store_call x req (ap_tenant_id p) (ap_subject p) (as_db s) db')"

lemma with_principal_calls:
  assumes "with_principal ox env h role k s = (r, s')" and "role = required_role_of req s"
    and "\<And>p s1. k p s1 = (r, s') \<Longrightarrow> as_db s' = as_db s1 \<or> store_call x req (ap_tenant_id p) (ap_subject p) (as_db s1) (as_db s')"
  shows "calls_as ox x env h req s (as_db s')"
  using assms(1)
proof (cases rule: with_principal_cases)
  case (granted p s1)
  then show ?thesis using assms(2) assms(3) [OF granted(3)] by (auto simp: calls_as_def)
qed (simp add: calls_as_def)

lemma signals_calls:
  assumes "signals ox x env h af lim s = (r, s')"
  shows "calls_as ox x env h (GetSignals af lim) s (as_db s')"
  by (rule with_principal_calls [OF assms [unfolded signals_def]])
    (auto simp: run_store_eq split: sum.splits prod.splits intro: call_load)

lemma projection_calls:
  assumes "projection ox x env h s = (r, s')"
  shows "calls_as ox x env h GetProjection s (as_db s')"
  by (rule with_principal_calls [OF assms [unfolded projection_def]])
    (auto simp: run_store_eq intro: call_projection)

lemma agents_calls:
  assumes "agents ox x env h s = (r, s')"
  shows "calls_as ox x env h GetAgents s (as_db s')"
  by (rule with_principal_calls [OF assms [unfolded agents_def]]) (auto simp: run_store_eq intro: call_agents)

lemma ticket_calls:
  assumes "stream_ticket ox x env h s = (r, s')"
  shows "calls_as ox x env h PostStreamTicket s (as_db s')"
  by (rule with_principal_calls [OF assms [unfolded stream_ticket_def]])
    (auto simp: run_store_eq split: prod.splits intro: call_ticket)

lemma tenant_calls:
  assumes "api_upsert_tenant ox x env h sl dn s = (r, s')"
  shows "calls_as ox x env h (PutTenant sl dn) s (as_db s')"
  by (rule with_principal_calls [OF assms [unfolded api_upsert_tenant_def]])
    (auto simp: run_store_eq split: if_splits intro: call_tenant)

lemma enroll_calls:
  assumes "api_enroll_agent ox x env h an od s = (r, s')"
  shows "calls_as ox x env h (PostAgent an od) s (as_db s')"
  by (rule with_principal_calls [OF assms [unfolded api_enroll_agent_def]])
    (auto simp: run_store_eq split: sum.splits prod.splits intro: call_enroll)

lemma update_calls:
  assumes "update_agent ox x env h an en s = (r, s')"
  shows "calls_as ox x env h (PatchAgent an en) s (as_db s')"
  by (rule with_principal_calls [OF assms [unfolded update_agent_def]])
    (auto simp: run_store_eq split: sum.splits prod.splits intro: call_update)

lemma stream_calls:
  assumes "stream ox x env h af ticket s = (r, s')"
  shows "as_db s' = as_db s \<or> (\<exists>v t k subject. ticket = Some v \<and> parse_stream_ticket x v = Inr (t, k) \<and>
    store_call x (GetStream af ticket) t subject (as_db s) (as_db s'))"
proof -
  obtain q s1 where auth: "stream_authorization ox x env h ticket s = (q, s1)" by fastforce
  have db: "as_db s' = as_db s \<or> as_db s' = as_db s1"
    using assms auth by (auto simp: stream_def split: if_splits sum.splits)
  show ?thesis
  proof (cases ticket)
    case None
    then have "as_db s1 = as_db s"
      using auth by (auto simp: stream_authorization_def elim!: with_principal_cases)
    then show ?thesis using db by auto
  next
    case (Some v)
    then consider "as_db s1 = as_db s" | t k p where "parse_stream_ticket x v = Inr (t, k)"
        "consume_stream_ticket x (rq_store env) t k (as_db s) = (p, as_db s1)"
      using auth by (auto simp: stream_authorization_def run_store_eq split: sum.splits prod.splits)
    then show ?thesis
    proof cases
      case 2
      then show ?thesis using db Some call_consume [OF 2(2)] by metis
    qed (use db in auto)
  qed
qed

lemma router_calls:
  assumes "router ox x env h req s = (r, s')"
  shows "calls_as ox x env h req s (as_db s') \<or>
    (\<exists>af v t k subject. req = GetStream af (Some v) \<and> parse_stream_ticket x v = Inr (t, k) \<and>
      store_call x req t subject (as_db s) (as_db s'))"
proof (cases req)
  case (GetStream af ticket)
  then show ?thesis
    using assms stream_calls [of ox x env h af ticket s] by (auto simp: respond_eq calls_as_def)
qed (use assms signals_calls projection_calls agents_calls ticket_calls tenant_calls enroll_calls update_calls
    in \<open>auto simp: respond_eq\<close>)

lemma verified_principal:
  assumes "verify_bearer_for_role ox re now a role v = (Inr p, v')"
  shows "has_role p role" and "trim (ap_subject p) = ap_subject p"
proof -
  obtain claims where "principal_from_claims ox (ov_config v) now claims role = Inr p"
    using assms by (auto simp: verify_bearer_for_role_def result_simps split: sum.splits prod.splits)
  from principal_from_claims_Inr [OF this] show "has_role p role" "trim (ap_subject p) = ap_subject p"
    by (auto simp: has_role_def clean_text_def)
qed

lemma authenticated_principal:
  assumes "fst (authenticate ox env h (Some role) s) = Inr p"
  shows "has_role p role" and "trim (ap_subject p) = ap_subject p"
  using assms by (auto simp: authenticate_def result_simps dest: verified_principal split: sum.splits prod.splits)

lemma stream_call_directory:
  "store_call x (GetStream af ticket) t subject db db' \<Longrightarrow> directory (db_tables db') = directory (db_tables db)"
  by (auto elim!: store_callE dest: readers_keep_directory)

section \<open>Example requests\<close>

definition ex_api_env :: api_env where
  "ex_api_env = request_env.extend ex_request \<lparr>ar_unix_now = 150, ar_collate = (\<lambda>rows. rows)\<rparr>"

definition ex_app :: "(unit, ex_value) app_state" where
  "ex_app =
     \<lparr>as_db = ex_db, as_auth = ex_verifier, as_admin_role = ''reader'', as_stream_batch_size = 10,
      as_stream_batch_bytes = 1, as_stream_slots = 1, as_replay_closed = False\<rparr>"

definition ex_headers :: headers where "ex_headers = Some (AsciiText ''Bearer x'')"

lemma ex_authenticate:
  "authenticate ex_ox ex_api_env ex_headers (Some ''reader'') ex_app = (Inr ex_principal, ex_app)"
  by (simp add: authenticate_def authorization_def ex_headers_def ex_api_env_def ex_request_def
      request_env.defs ex_app_def ex_verified)

lemma ex_agent_id: "agent_id_new ''a'' = Inr ex_agent"
  using ex_agent_valid by (simp add: valid_agent_id_def ex_envelope_def signal_envelope_new_def ex_agent_def)

lemma ex_patch:
  "directory (db_tables (snd (set_agent_enabled_as ex_ext ex_env ex_tenant ex_agent False ''u'' ex_db))) \<noteq>
   directory (db_tables ex_db)"
  using ex_codec ex_agent_id unfolding codec_ok_def uuid_ok_def
  by (simp add: set_agent_enabled_as_def required_actor_id_def ex_trim with_tx_def tx_begin_def tx_commit_def
      tx_bind_def tx_lift_def tx_return_def sql_def set_tenant_context_def require_enabled_tenant_def
      REQUIRE_ENABLED_TENANT_SQL_def rls_def update_agent_enabled_def insert_audit_def audit_checks_def
      pg_text_def pg_blank_def agent_times_def epoch_nanos_def agent_record_from_row_def ex_env_def ex_db_def
      ex_tenant_def ex_agent_def Let_def transpose_option_def from_pg_i64_def result_simps first_row_def
      directory_def now_of_def)

definition ex_patched :: "(unit, ex_value) app_state" where
  "ex_patched = ex_app\<lparr>as_db := snd (set_agent_enabled_as ex_ext ex_env ex_tenant ex_agent False ''u'' ex_db)\<rparr>"

lemma ex_router:
  "\<exists>r. router ex_ox ex_ext ex_api_env ex_headers (PatchAgent ''a'' False) ex_app = (r, ex_patched)"
proof -
  have fields: "rq_store ex_api_env = ex_env" "ap_subject ex_principal = ''u''" "ap_tenant_id ex_principal = ex_tenant"
    "as_admin_role ex_app = ''reader''" "as_db ex_app = ex_db"
    by (simp_all add: ex_api_env_def request_env.defs ex_request_def ex_principal_def ex_tenant_def ex_app_def)
  show ?thesis
    by (simp add: update_agent_def with_principal_def fields ex_authenticate ex_agent_id run_store_def respond_def
        ex_patched_def split_beta)
qed

section \<open>Properties\<close>

text \<open>C9: a client cannot touch another tenant: a request that changes anything acts for the tenant
  of its verified token or of the stream ticket it presents, and whatever its outcome every row
  of every other tenant stays as it is; a request that acts for no tenant changes nothing.\<close>

theorem client_requests_are_isolated:
  assumes "router ox x env h req s = (r, s')"
  shows "db_tables (as_db s') = db_tables (as_db s) \<or>
    (\<exists>t. acts_for ox x env h req s t \<and> others_unchanged t (as_db s) (as_db s'))"
  using router_calls [OF assms] unfolding calls_as_def acts_for_def by (metis store_call_views)

theorem client_requests_are_isolated_witness:
  "db_tables (as_db ex_patched) = db_tables (as_db ex_app) \<or>
   (\<exists>t. acts_for ex_ox ex_ext ex_api_env ex_headers (PatchAgent ''a'' False) ex_app t \<and>
      others_unchanged t (as_db ex_app) (as_db ex_patched))"
  using ex_router client_requests_are_isolated by blast

text \<open>C36: tenants and agents are only changed by administrators, and every change is recorded: when
  a request changes the tenant or agent tables, its token grants the administrator role and the
  same transaction added one audit row with the token's tenant and subject.\<close>

theorem administration_is_audited:
  assumes run: "router ox x env h req s = (r, s')"
    and changed: "directory (db_tables (as_db s')) \<noteq> directory (db_tables (as_db s))"
  shows "\<exists>p row. fst (authenticate ox env h (Some (as_admin_role s)) s) = Inr p \<and> has_role p (as_admin_role s) \<and>
    pt_audit (db_tables (as_db s')) = pt_audit (db_tables (as_db s)) @ [row] \<and>
    au_tenant_id row = tenant_uuid (ap_tenant_id p) \<and> au_actor_id row = ap_subject p"
proof -
  obtain p where p: "fst (authenticate ox env h (required_role_of req s) s) = Inr p"
    "store_call x req (ap_tenant_id p) (ap_subject p) (as_db s) (as_db s')"
    using router_calls [OF run] changed stream_call_directory unfolding calls_as_def by metis
  obtain action where action: "audited (ap_tenant_id p) (trim (ap_subject p)) action (as_db s) (as_db s')"
    and role: "required_role_of req s = Some (as_admin_role s)"
    using store_call_directory [OF p(2) changed] by blast
  have "has_role p (as_admin_role s)" "trim (ap_subject p) = ap_subject p"
    using authenticated_principal p(1) role by metis+
  then show ?thesis
    using action changed p(1) role unfolding audited_def by (metis (no_types))
qed

theorem administration_is_audited_witness:
  "\<exists>p row. has_role p ''reader'' \<and> pt_audit (db_tables (as_db ex_patched)) = pt_audit (db_tables ex_db) @ [row] \<and>
     au_actor_id row = ap_subject p"
proof -
  obtain r where r: "router ex_ox ex_ext ex_api_env ex_headers (PatchAgent ''a'' False) ex_app = (r, ex_patched)"
    using ex_router by blast
  have fields: "as_db ex_app = ex_db" "as_admin_role ex_app = ''reader''" by (simp_all add: ex_app_def)
  have "directory (db_tables (as_db ex_patched)) \<noteq> directory (db_tables (as_db ex_app))"
    using ex_patch by (simp add: ex_patched_def fields)
  from administration_is_audited [OF r this] show ?thesis unfolding fields by blast
qed

text \<open>C37: the body of a replay page is one JSON document delivered in bounded chunks: when every
  record and the cursor can be encoded, the chunks are non-empty, at most 64 KiB each, free of
  errors, and together exactly the opening, the records in order separated by commas, and the
  next cursor; the stream then ends.\<close>

theorem replay_body_is_one_document:
  assumes "\<forall>r \<in> set records. jo_record j r = Inr (f r)" and "jo_cursor j c = Inr cb"
  shows "(\<forall>k \<in> set (page_chunks j (signal_page_response records c)). \<exists>b. k = Inr b \<and> b \<noteq> [] \<and> length b \<le> 64 * 1024) \<and>
    concat (map projr (page_chunks j (signal_page_response records c))) =
      page_prefix @ comma_records f True records @ page_suffix @ cb @ as_bytes [CHR 0x7D]"
  using page_chunks_rest signal_page_rest [OF assms] by metis

theorem replay_body_is_one_document_witness:
  "concat (map projr (page_chunks \<lparr>jo_record = (\<lambda>_. Inl []), jo_cursor = (\<lambda>_. Inr (as_bytes ''9''))\<rparr> (signal_page_response [] 9))) =
    page_prefix @ page_suffix @ as_bytes ''9'' @ as_bytes [CHR 0x7D]"
  using replay_body_is_one_document [of "[]" "\<lparr>jo_record = (\<lambda>_. Inl []), jo_cursor = (\<lambda>_. Inr (as_bytes ''9''))\<rparr>"
      "\<lambda>_. []" 9 "as_bytes ''9''"] by simp

end
