(* ===== verification/Signal_Stream.thy ===== *)
theory Signal_Stream
  imports Client_Api
begin

text \<open>
  The WebSocket stream of a tenant's signals (\<open>stream_signals\<close> in
  \<open>skid-monitor-server/src/api.rs\<close>). A connection alternates between checking its
  authorization and loading a page, sending the records of the page one by one, and waiting for
  a notification or the next poll. The outcome of every \<open>select!\<close> is an event; between any two
  steps other operations change the store. The record of what was sent, with the clock at which
  the record was released, is kept beside the state.
\<close>

section \<open>A connection\<close>

datatype stream_phase =
    Checking
  | Sending (page_left: "signal_record list") (had_records: bool)
  | Waiting
  | Closed

record stream_conn =
  sk_tenant :: tenant_id
  sk_start :: signal_cursor
  sk_until :: u64
  sk_cursor :: signal_cursor
  sk_phase :: stream_phase
  sk_sent :: "(u64 \<times> signal_record) list"

definition stream_open :: "stream_grant \<Rightarrow> stream_conn" where
  "stream_open g =
     \<lparr>sk_tenant = gr_tenant_id g, sk_start = gr_after g, sk_until = gr_authorized_until_unix g,
      sk_cursor = gr_after g, sk_phase = Checking, sk_sent = []\<rparr>"

datatype permit_event = PermitAcquired | PermitsClosed | PermitExpired
datatype send_event = SendOk | SendError | SendExpired | SendTimeout

datatype client_message = CloseMessage | EndOfStream | ReceiveError | Ping (pong_sent: bool) | OtherMessage

datatype wait_event =
    Notified tenant_id
  | Lagged
  | NotificationsClosed
  | PollTick
  | AuthorizationExpired
  | Received client_message

text \<open>The top of the loop: the expiry check, the replay permit and the query.\<close>

definition stream_check ::
  "'v ext \<Rightarrow> pg_env \<Rightarrow> nat \<Rightarrow> nat \<Rightarrow> u64 \<Rightarrow> permit_event \<Rightarrow> stream_conn \<Rightarrow> 'v pg_db \<Rightarrow> stream_conn \<times> 'v pg_db"
where
  "stream_check x env batch_size batch_bytes now permit c db =
     (if now \<ge> sk_until c \<or> permit \<noteq> PermitAcquired then (c\<lparr>sk_phase := Closed\<rparr>, db)
      else case load_envelopes_after_bounded x env (Tenant (sk_tenant c)) (sk_cursor c) batch_size batch_bytes db of
        (Inl _, db') \<Rightarrow> (c\<lparr>sk_phase := Closed\<rparr>, db')
      | (Inr records, db') \<Rightarrow> (c\<lparr>sk_phase := Sending records (records \<noteq> [])\<rparr>, db'))"

text \<open>One turn of the loop over the records of a page.\<close>

definition stream_send ::
  "(signal_record \<Rightarrow> string + string) \<Rightarrow> u64 \<Rightarrow> send_event \<Rightarrow> stream_conn \<Rightarrow> stream_conn"
where
  "stream_send to_string now ev c =
     (case sk_phase c of
        Sending [] had \<Rightarrow> c\<lparr>sk_phase := (if had then Checking else Waiting)\<rparr>
      | Sending (r # rs) had \<Rightarrow>
          if now \<ge> sk_until c then c\<lparr>sk_phase := Closed\<rparr>
          else (case to_string r of
            Inl _ \<Rightarrow> c\<lparr>sk_phase := Closed\<rparr>
          | Inr _ \<Rightarrow>
              (let c' = c\<lparr>sk_cursor := sr_cursor r\<rparr>
               in if ev = SendOk then c'\<lparr>sk_phase := Sending rs had, sk_sent := sk_sent c @ [(now, r)]\<rparr>
                  else c'\<lparr>sk_phase := Closed\<rparr>))
      | _ \<Rightarrow> c)"

text \<open>The inner loop that waits.\<close>

fun on_message :: "client_message \<Rightarrow> stream_phase" where
  "on_message CloseMessage = Closed"
| "on_message EndOfStream = Closed"
| "on_message ReceiveError = Closed"
| "on_message (Ping answered) = (if answered then Waiting else Closed)"
| "on_message OtherMessage = Waiting"

fun on_wait :: "tenant_id \<Rightarrow> wait_event \<Rightarrow> stream_phase" where
  "on_wait t (Notified changed_tenant) = (if changed_tenant \<noteq> t then Waiting else Checking)"
| "on_wait t Lagged = Checking"
| "on_wait t NotificationsClosed = Closed"
| "on_wait t PollTick = Checking"
| "on_wait t AuthorizationExpired = Closed"
| "on_wait t (Received m) = on_message m"

inductive stream_step ::
  "'v ext \<Rightarrow> (signal_record \<Rightarrow> string + string) \<Rightarrow> nat \<Rightarrow> nat \<Rightarrow> stream_conn \<times> 'v pg_db \<Rightarrow> stream_conn \<times> 'v pg_db \<Rightarrow> bool"
for x to_string n b where
  check: "sk_phase c = Checking \<Longrightarrow> stream_step x to_string n b (c, db) (stream_check x env n b now permit c db)"
| send: "sk_phase c = Sending rs had \<Longrightarrow> stream_step x to_string n b (c, db) (stream_send to_string now ev c, db)"
| wait: "sk_phase c = Waiting \<Longrightarrow>
    stream_step x to_string n b (c, db) (c\<lparr>sk_phase := on_wait (sk_tenant c) ev\<rparr>, db)"
| other: "store_step x db db' \<Longrightarrow> stream_step x to_string n b (c, db) (c, db')"

inductive_cases stream_stepE: "stream_step x to_string n b s s'"

section \<open>Readers of a growing log\<close>

definition delivered :: "signal_cursor \<Rightarrow> signal_record list \<Rightarrow> signal_record list \<Rightarrow> bool" where
  "delivered start xs log \<longleftrightarrow> (\<exists>rest. records_after start log = xs @ rest)"

definition next_cursor :: "signal_cursor \<Rightarrow> signal_record list \<Rightarrow> signal_cursor" where
  "next_cursor start xs = (if xs = [] then start else sr_cursor (last xs))"

locale growing_reader = signal_reader ok log load
  for ok :: "'s \<Rightarrow> bool" and log :: "'s \<Rightarrow> signal_record list"
    and load :: "'s \<Rightarrow> signal_cursor \<Rightarrow> nat \<Rightarrow> 'e + signal_record list" +
  fixes step :: "'s \<Rightarrow> 's \<Rightarrow> bool"
  assumes step_ok: "ok s \<Longrightarrow> step s s' \<Longrightarrow> ok s'"
    and log_grows: "ok s \<Longrightarrow> step s s' \<Longrightarrow> \<exists>ys. log s' = log s @ ys"
begin

lemma delivered_step:
  assumes "ok s" and "step s s'" and "delivered start xs (log s)"
  shows "delivered start xs (log s')"
  using log_grows [OF assms(1,2)] assms(3) by (auto simp: delivered_def records_after_def)

lemma records_after_delivered:
  assumes "ok s" and "records_after start (log s) = xs @ rest"
  shows "records_after (next_cursor start xs) (log s) = rest"
  using records_after_split [OF log_sorted [OF assms(1)] assms(2)] assms(2) by (auto simp: next_cursor_def)

lemma delivered_load:
  assumes ok: "ok s" and xs: "delivered start xs (log s)" and load: "load s (next_cursor start xs) n = Inr rs"
  shows "delivered start (xs @ rs) (log s)"
proof -
  obtain rest where rest: "records_after start (log s) = xs @ rest" using xs by (auto simp: delivered_def)
  obtain k where "rs = take k rest"
    using load_prefix [OF ok load] records_after_delivered [OF ok rest] by auto
  then have "records_after start (log s) = (xs @ rs) @ drop k rest" using rest by simp
  then show ?thesis unfolding delivered_def by blast
qed

lemma delivered_all:
  assumes ok: "ok s" and xs: "delivered start xs (log s)" and load: "load s (next_cursor start xs) n = Inr []"
    and "0 < n"
  shows "records_after start (log s) = xs"
proof -
  obtain rest where rest: "records_after start (log s) = xs @ rest" using xs by (auto simp: delivered_def)
  then show ?thesis
    using load_progress [OF ok load \<open>0 < n\<close> refl] records_after_delivered [OF ok rest] by simp
qed

end

interpretation pg_stream: growing_reader "\<lambda>db. codec_ok x \<and> store_inv x db" "tenant_log x t"
  "\<lambda>db after n. fst (load_envelopes_after_bounded x env (Tenant t) after n budget db)" "store_step x"
  by unfold_locales (auto intro: step_inv step_log_grows)

section \<open>The invariant of a connection\<close>

definition sent_records :: "stream_conn \<Rightarrow> signal_record list" where
  "sent_records c = map snd (sk_sent c)"

definition page_of :: "stream_phase \<Rightarrow> signal_record list" where
  "page_of p = (case p of Sending rs _ \<Rightarrow> rs | _ \<Rightarrow> [])"

definition stream_inv :: "'v ext \<Rightarrow> stream_conn \<times> 'v pg_db \<Rightarrow> bool" where
  "stream_inv x = (\<lambda>(c, db). store_inv x db \<and>
     delivered (sk_start c) (sent_records c @ page_of (sk_phase c)) (tenant_log x (sk_tenant c) db) \<and>
     (sk_phase c \<noteq> Closed \<longrightarrow> sk_cursor c = next_cursor (sk_start c) (sent_records c)) \<and>
     (\<forall>(now, r) \<in> set (sk_sent c). now < sk_until c))"

lemma page_of_simps [simp]:
  "page_of Checking = []" "page_of (Sending rs had) = rs" "page_of Waiting = []" "page_of Closed = []"
  by (simp_all add: page_of_def)

lemma delivered_prefix: "delivered start (xs @ ys) log \<Longrightarrow> delivered start xs log"
  by (auto simp: delivered_def)

lemma on_wait_page [simp]: "page_of (on_wait t ev) = []"
  by (cases "(t, ev)" rule: on_wait.cases; cases "case ev of Received m \<Rightarrow> m | _ \<Rightarrow> OtherMessage")
    (auto split: wait_event.splits)

lemma load_keeps_log:
  assumes "load_envelopes_after_bounded x env sc af l bb db = (r, db')"
  shows "tenant_log x t db' = tenant_log x t db"
  using other_steps_keep_events(1) [OF assms] by (simp add: tenant_log_def tenant_rows_def)

lemma stream_check_inv:
  assumes ok: "codec_ok x" and inv: "stream_inv x (c, db)" and phase: "sk_phase c = Checking"
  shows "stream_inv x (stream_check x env n b now permit c db)"
proof (cases "now \<ge> sk_until c \<or> permit \<noteq> PermitAcquired")
  case True
  then show ?thesis
    using inv phase by (auto simp: stream_check_def stream_inv_def sent_records_def)
next
  case False
  obtain r db' where load:
    "load_envelopes_after_bounded x env (Tenant (sk_tenant c)) (sk_cursor c) n b db = (r, db')" by fastforce
  have inv': "store_inv x db'" using load_inv [OF _ load] inv by (simp add: stream_inv_def)
  show ?thesis
  proof (cases r)
    case (Inl e)
    then show ?thesis
      using inv inv' phase False load load_keeps_log [OF load]
      by (auto simp: stream_check_def stream_inv_def sent_records_def)
  next
    case (Inr rs)
    have cursor: "sk_cursor c = next_cursor (sk_start c) (sent_records c)"
      using inv phase by (simp add: stream_inv_def)
    have "delivered (sk_start c) (sent_records c @ rs) (tenant_log x (sk_tenant c) db)"
      by (rule pg_stream.delivered_load [where env = env and n = n and budget = b])
        (use inv phase ok load Inr cursor in \<open>auto simp: stream_inv_def\<close>)
    then show ?thesis
      using inv inv' phase False load Inr load_keeps_log [OF load]
      by (auto simp: stream_check_def stream_inv_def sent_records_def)
  qed
qed

lemma stream_send_inv:
  assumes inv: "stream_inv x (c, db)" and phase: "sk_phase c = Sending rs had"
  shows "stream_inv x (stream_send to_string now ev c, db)"
proof (cases rs)
  case Nil
  then show ?thesis
    using inv phase by (auto simp: stream_send_def stream_inv_def sent_records_def)
next
  case (Cons r rest)
  have "delivered (sk_start c) (sent_records c) (tenant_log x (sk_tenant c) db)"
    using inv by (auto simp: stream_inv_def intro: delivered_prefix)
  then show ?thesis
    using inv phase Cons
    by (auto simp: stream_send_def stream_inv_def sent_records_def next_cursor_def Let_def split: sum.splits)
qed

lemma stream_step_inv:
  assumes ok: "codec_ok x" and step: "stream_step x to_string n b s s'" and inv: "stream_inv x s"
  shows "stream_inv x s'"
  using step
proof cases
  case (check c db env now permit)
  then show ?thesis using stream_check_inv [OF ok, of c db env n b now permit] inv by simp
next
  case (send c rs had db now ev)
  then show ?thesis using stream_send_inv [of x c db rs had] inv by simp
next
  case (wait c db ev)
  then show ?thesis using inv by (auto simp: stream_inv_def sent_records_def)
next
  case (other db db' c)
  then show ?thesis
    using inv ok step_inv [OF ok, of db db']
      pg_stream.delivered_step [where x = x and s = db and s' = db' and start = "sk_start c" and
        xs = "sent_records c @ page_of (sk_phase c)" and t = "sk_tenant c"]
    by (auto simp: stream_inv_def)
qed

lemma stream_step_fixed:
  "stream_step x to_string n b s s' \<Longrightarrow> sk_tenant (fst s') = sk_tenant (fst s) \<and>
    sk_start (fst s') = sk_start (fst s) \<and> sk_until (fst s') = sk_until (fst s)"
  by (cases rule: stream_step.cases, assumption)
    (auto simp: stream_check_def stream_send_def Let_def split: prod.splits sum.splits stream_phase.splits list.splits)

lemma stream_steps_inv:
  assumes "(stream_step x to_string n b)\<^sup>*\<^sup>* s s'" and "codec_ok x" and "stream_inv x s"
  shows "stream_inv x s' \<and> sk_tenant (fst s') = sk_tenant (fst s) \<and> sk_start (fst s') = sk_start (fst s) \<and>
    sk_until (fst s') = sk_until (fst s)"
  using assms
  by (induction rule: rtranclp_induct) (auto dest: stream_step_inv stream_step_fixed)

lemma stream_open_inv: "store_inv x db \<Longrightarrow> stream_inv x (stream_open g, db)"
  by (simp add: stream_inv_def stream_open_def delivered_def sent_records_def next_cursor_def)

lemma stream_idle:
  assumes ok: "codec_ok x" and inv: "stream_inv x (c, db)" and phase: "sk_phase c = Checking" and n: "0 < n"
    and idle: "sk_phase (fst (stream_check x env n b now permit c db)) = Sending [] had"
  shows "records_after (sk_start c) (tenant_log x (sk_tenant c) db) = sent_records c"
proof (rule pg_stream.delivered_all [where env = env and n = n and budget = b])
  show "fst (load_envelopes_after_bounded x env (Tenant (sk_tenant c)) (next_cursor (sk_start c) (sent_records c)) n b db) =
      Inr []"
    using idle inv phase by (auto simp: stream_check_def stream_inv_def split: if_splits sum.splits prod.splits)
qed (use inv phase ok n in \<open>auto simp: stream_inv_def\<close>)

section \<open>An example connection\<close>

definition ex_grant :: stream_grant where
  "ex_grant = \<lparr>gr_tenant_id = ex_tenant, gr_after = 0, gr_authorized_until_unix = 200\<rparr>"

definition ex_record :: signal_record where
  "ex_record = \<lparr>sr_cursor = 1, sr_envelope = ex_envelope\<rparr>"

lemma ex_load:
  "fst (load_envelopes_after_bounded ex_ext ex_env (Tenant ex_tenant) 0 10 1 ex_db) = Inr [ex_record]"
proof -
  obtain rs where rs: "fst (load_envelopes_after_bounded ex_ext ex_env (Tenant ex_tenant) 0 10 1 ex_db) = Inr rs"
    using load_healthy [OF ex_codec ex_inv ex_healthy ex_enabled(1), of 0 10 1] by (auto simp: is_ok_iff)
  have "records_after 0 (tenant_log ex_ext ex_tenant ex_db) = [ex_record]"
    by (simp add: ex_log records_after_def ex_record_def)
  then obtain k where k: "rs = take k [ex_record]" "rs \<noteq> []"
    using load_page [OF ex_codec ex_inv, of ex_env ex_tenant 0 10 1 rs] rs by (metis list.discI prod.collapse zero_less_numeral)
  then show ?thesis using rs by (cases k) auto
qed

lemma ex_stream:
  assumes "to_string ex_record = Inr s"
  shows "\<exists>db. (stream_step ex_ext to_string 10 1)\<^sup>*\<^sup>* (stream_open ex_grant, ex_db)
     ((stream_open ex_grant)\<lparr>sk_cursor := 1, sk_phase := Sending [] True, sk_sent := [(150, ex_record)]\<rparr>, db)"
proof -
  let ?c = "stream_open ex_grant"
  obtain db1 where load:
    "load_envelopes_after_bounded ex_ext ex_env (Tenant ex_tenant) 0 10 1 ex_db = (Inr [ex_record], db1)"
    using ex_load by (metis prod.collapse)
  have "stream_step ex_ext to_string 10 1 (?c, ex_db) (stream_check ex_ext ex_env 10 1 150 PermitAcquired ?c ex_db)"
    by (rule check) (simp add: stream_open_def)
  also have "stream_check ex_ext ex_env 10 1 150 PermitAcquired ?c ex_db = (?c\<lparr>sk_phase := Sending [ex_record] True\<rparr>, db1)"
    using load by (simp add: stream_check_def stream_open_def ex_grant_def)
  finally have s1: "stream_step ex_ext to_string 10 1 (?c, ex_db) (?c\<lparr>sk_phase := Sending [ex_record] True\<rparr>, db1)" .
  have "stream_step ex_ext to_string 10 1 (?c\<lparr>sk_phase := Sending [ex_record] True\<rparr>, db1)
      (stream_send to_string 150 SendOk (?c\<lparr>sk_phase := Sending [ex_record] True\<rparr>), db1)"
    by (rule send) simp
  also have "stream_send to_string 150 SendOk (?c\<lparr>sk_phase := Sending [ex_record] True\<rparr>) =
      ?c\<lparr>sk_cursor := 1, sk_phase := Sending [] True, sk_sent := [(150, ex_record)]\<rparr>"
    using assms by (simp add: stream_send_def stream_open_def ex_grant_def ex_record_def)
  finally show ?thesis using s1 by (meson converse_rtranclp_into_rtranclp rtranclp.rtrancl_refl)
qed

section \<open>Properties\<close>

text \<open>C4: a stream delivers its tenant's signals in order, without gaps or duplicates, only while
  it is authorized: whatever other clients and agents do in between, what was sent is a prefix
  of the events stored after the starting cursor, every record was released before the
  authorization ended, and when a page comes back empty everything stored so far has been sent.\<close>

theorem stream_delivers_log_in_order:
  assumes ok: "codec_ok x" and inv: "store_inv x db0"
    and run: "(stream_step x to_string n b)\<^sup>*\<^sup>* (stream_open g, db0) (c, db)"
  shows "(\<exists>rest. records_after (gr_after g) (tenant_log x (gr_tenant_id g) db) = map snd (sk_sent c) @ rest) \<and>
    (\<forall>(now, r) \<in> set (sk_sent c). now < gr_authorized_until_unix g) \<and>
    (\<forall>env now permit had. sk_phase c = Checking \<and> 0 < n \<and>
       sk_phase (fst (stream_check x env n b now permit c db)) = Sending [] had \<longrightarrow>
       records_after (gr_after g) (tenant_log x (gr_tenant_id g) db) = map snd (sk_sent c))"
proof -
  have c: "stream_inv x (c, db)" "sk_tenant c = gr_tenant_id g" "sk_start c = gr_after g"
    "sk_until c = gr_authorized_until_unix g"
    using stream_steps_inv [OF run ok stream_open_inv [OF inv]] by (simp_all add: stream_open_def)
  show ?thesis
    using c stream_idle [OF ok c(1)] by (auto simp: stream_inv_def delivered_def sent_records_def)
qed

theorem stream_delivers_log_in_order_witness:
  "\<exists>db rest. records_after 0 (tenant_log ex_ext ex_tenant db) = [ex_record] @ rest \<and> (150 :: u64) < 200"
proof -
  obtain db where "(stream_step ex_ext (\<lambda>_. Inr []) 10 1)\<^sup>*\<^sup>* (stream_open ex_grant, ex_db)
     ((stream_open ex_grant)\<lparr>sk_cursor := 1, sk_phase := Sending [] True, sk_sent := [(150, ex_record)]\<rparr>, db)"
    using ex_stream [of "\<lambda>_. Inr []"] by blast
  from stream_delivers_log_in_order [OF ex_codec ex_inv this] show ?thesis
    by (auto simp: ex_grant_def)
qed

end
