(* ===== verification/Dashboard_Stream.thy ===== *)
theory Dashboard_Stream
  imports Browser_Session Signal_Stream
begin

text \<open>
  A browser dashboard that follows the stream of a tenant's signals. The messages that arrive on a
  socket are a prefix of what the server sends on it; across all sockets the dashboard then
  receives the tenant's log in order and without gaps.
\<close>

section \<open>Messages on a socket\<close>

fun socket_data ::
  "'u web_lib \<Rightarrow> (io_error \<Rightarrow> string) \<Rightarrow> nat \<Rightarrow> (web_page \<times> browser_event) list \<Rightarrow> browser \<Rightarrow> ws_data list"
where
  "socket_data wl show_io i [] b = []"
| "socket_data wl show_io i ((pg, ev) # evs) b =
     (case ev of
        SocketEvent j (SocketMessage data) \<Rightarrow> if j = i \<and> i < length (br_sockets b) then [data] else []
      | _ \<Rightarrow> []) @ socket_data wl show_io i evs (browser_step wl show_io pg ev b)"

text \<open>What the dashboard makes of a record, and messages that carry the first records after a cursor.\<close>

definition record_view :: "signal_record \<Rightarrow> u64 \<times> signal" where
  "record_view r = (sr_cursor r, env_payload (sr_envelope r))"

definition decoded_record :: "signal_record \<Rightarrow> decoded_json_signal" where
  "decoded_record r = \<lparr>dj_signal = env_payload (sr_envelope r), dj_cursor = Some (sr_cursor r),
     dj_tenant_id = scope_tenant_id (env_scope (sr_envelope r))\<rparr>"

definition carries :: "'u web_lib \<Rightarrow> signal_record list \<Rightarrow> u64 \<Rightarrow> ws_data list \<Rightarrow> bool" where
  "carries wl log start data \<longleftrightarrow> (\<exists>ys rest. records_after start log = ys @ rest \<and>
     map (decode_cloud_message wl) data = map (Inr \<circ> decoded_record) ys)"

definition views_for ::
  "string \<Rightarrow> tenant_id \<Rightarrow> (string \<times> tenant_id \<times> decoded_json_signal \<times> signal) list \<Rightarrow> (u64 \<times> signal) list"
where
  "views_for e t rs =
     List.map_filter (\<lambda>(e', t', d, s). if e' = e \<and> t' = t then map_option (\<lambda>n. (n, s)) (dj_cursor d) else None) rs"

section \<open>One step\<close>

lemma carries_Cons:
  assumes sorted: "sorted_wrt (<) (map sr_cursor log)" and data: "carries wl log start (x # data)"
  obtains r where "decode_cloud_message wl x = Inr (decoded_record r)" "r \<in> set log" "start < sr_cursor r"
    "carries wl log (sr_cursor r) data" "records_after start log = r # records_after (sr_cursor r) log"
proof -
  obtain ys rest where ys: "records_after start log = ys @ rest"
      "map (decode_cloud_message wl) (x # data) = map (Inr \<circ> decoded_record) ys"
    using data unfolding carries_def by blast
  then obtain r zs where r: "ys = r # zs" "decode_cloud_message wl x = Inr (decoded_record r)"
      "map (decode_cloud_message wl) data = map (Inr \<circ> decoded_record) zs"
    by (cases ys) auto
  have after: "records_after start log = [r] @ (zs @ rest)" using ys(1) r(1) by simp
  have "r \<in> set (records_after start log)" using after by simp
  then have "r \<in> set log" "start < sr_cursor r" by (auto simp: records_after_def)
  moreover have rest: "records_after (sr_cursor r) log = zs @ rest"
    using records_after_split [OF sorted after] by simp
  moreover have "carries wl log (sr_cursor r) data" using rest r(3) by (auto simp: carries_def)
  ultimately show thesis using that r(2) after by simp
qed

lemma received_live:
  assumes "received wl show_io pg ev b \<noteq> []"
  obtains i data e g t d where "ev = SocketEvent i (SocketMessage data)" "live_socket b e g t i"
    "decode_cloud_message wl data = Inr d" "\<forall>(e', t', d', s) \<in> set (received wl show_io pg ev b). e' = e \<and> t' = t \<and> d' = d"
proof -
  obtain e t d where m: "cloud_message wl ev b = Some (e, t, d)"
    using assms by (auto simp: received_def split: option.splits)
  then obtain i data g where ev: "ev = SocketEvent i (SocketMessage data)" "i < length (br_sockets b)"
      "ws_binding (br_sockets b ! i) = CloudBinding e g t" "decode_cloud_message wl data = Inr d"
    by (auto simp: cloud_message_def split: browser_event.splits socket_event.splits if_splits ws_binding.splits sum.splits)
  have "live_socket b e g t i"
    using assms ev by (auto simp: live_socket_def received_def cloud_message_def on_socket_event_def mark_closed_def Let_def split: if_splits)
  then show thesis by (rule that [OF ev(1) _ ev(4)]) (auto simp: received_def m)
qed

text \<open>A record with a later cursor that arrives on a live socket is received.\<close>

lemma message_received:
  assumes works: "storage_works pg" and uuid: "uuid_text_ok wl" and inv: "cursor_inv wl b" and sess: "session_inv n b"
    and live: "live_socket b e g t i" and d: "decode_cloud_message wl data = Inr d" "dj_cursor d = Some m" "dj_tenant_id d = Some t"
    and later: "stored_cursor wl e t b < m"
  shows "received wl show_io pg (SocketEvent i (SocketMessage data)) b = [(e, t, d, dj_signal d)]"
proof -
  obtain c where c: "cloud_at b e g = Some c" "cc_tenant_id c = Some t"
    using session_live(2) [OF sess live] by blast
  have "cc_persisted_cursor c = stored_cursor wl e t b" using inv c by (auto simp: cursor_inv_def cloud_at_Some)
  then have q: "should_queue b e g t m" using c later by (simp add: should_queue_def)
  have "pushed_signals b (queue_cloud_record wl pg e g t d b) = [(e, dj_signal d)]"
    using queue_record_inv(4) [OF works uuid inv d(2,3) q] by simp
  then show ?thesis
    using live d by (simp add: received_def cloud_message_def on_socket_event_def mark_closed_def live_socket_def Let_def)
qed

section \<open>Runs\<close>

lemma views_for_simps [simp]:
  "views_for e t [] = []" "views_for e t (rs @ rs') = views_for e t rs @ views_for e t rs'"
  "views_for e t [(e', t', d, s)] = (if e' = e \<and> t' = t then (case dj_cursor d of None \<Rightarrow> [] | Some n \<Rightarrow> [(n, s)]) else [])"
  by (auto simp: views_for_def List.map_filter_def split: option.splits)

lemma kept_run:
  assumes "browser_run wl show_io evs b = (rs, b')" and "\<forall>(pg, ev) \<in> set evs. ev \<noteq> Reload"
  shows "kept_sockets b b'"
  using assms
proof (induction evs arbitrary: b rs)
  case Nil
  then show ?case by (simp add: kept_refl)
next
  case (Cons p evs)
  obtain pg ev where p: "p = (pg, ev)" by fastforce
  obtain rs' where "browser_run wl show_io evs (browser_step wl show_io pg ev b) = (rs', b')"
    using Cons.prems(1) by (auto simp: p split: prod.splits)
  then have "kept_sockets (browser_step wl show_io pg ev b) b'" using Cons.IH Cons.prems(2) by simp
  then show ?case using kept_step [of ev b wl show_io pg] Cons.prems(2) kept_trans by (auto simp: p)
qed

lemma socket_data_later:
  assumes "length (br_sockets b) \<le> i"
  shows "socket_data wl show_io i ((pg, ev) # evs) b = socket_data wl show_io i evs (browser_step wl show_io pg ev b)"
  using assms by (auto split: browser_event.splits socket_event.splits)

text \<open>What is carried by the streams that are open, and by those that are opened later.\<close>

definition streams_carry ::
  "'u web_lib \<Rightarrow> (io_error \<Rightarrow> string) \<Rightarrow> signal_record list \<Rightarrow> string \<Rightarrow> tenant_id \<Rightarrow> (web_page \<times> browser_event) list \<Rightarrow>
   browser \<Rightarrow> browser \<Rightarrow> bool"
where
  "streams_carry wl show_io log e t evs b b' \<longleftrightarrow>
     (\<forall>g i. live_socket b e g t i \<longrightarrow> carries wl log (stored_cursor wl e t b) (socket_data wl show_io i evs b)) \<and>
     (\<forall>g i ticket after. length (br_sockets b) \<le> i \<and> i < length (br_sockets b') \<and>
        ws_binding (br_sockets b' ! i) = CloudBinding e g t \<and>
        stream_endpoint wl e ticket after = Inr (ws_url (br_sockets b' ! i)) \<longrightarrow>
        carries wl log after (socket_data wl show_io i evs b))"

lemma live_unique:
  assumes "session_inv n b" and "live_socket b e g t i" and "live_socket b e g' t' j"
  shows "i = j"
proof -
  obtain c where c: "cloud_at b e g = Some c" "cc_socket c = Some i" using session_live(2) [OF assms(1,2)] by blast
  obtain c' where c': "cloud_at b e g' = Some c'" "cc_socket c' = Some j" using session_live(2) [OF assms(1,3)] by blast
  show ?thesis using c c' cloud_at_other [OF c(1), of g'] by (auto split: if_splits)
qed

lemma streams_carry_step:
  fixes wl :: "'u web_lib" and show_io :: "io_error \<Rightarrow> string" and pg :: web_page
  assumes sess: "session_inv n b" "session_inv (Suc n) b1" and inv1: "cursor_inv wl b1"
    and b1: "b1 = browser_step wl show_io pg ev b"
    and live: "\<And>e g t i. live_socket b1 e g t i \<Longrightarrow> live_socket b e g t i \<or> opened wl b b1 e g i"
    and kept: "kept_sockets b b1" "kept_sockets b1 b'"
    and carry: "streams_carry wl show_io log e t ((pg, ev) # evs) b b'"
    and still: "\<And>g i. live_socket b e g t i \<Longrightarrow>
      carries wl log (stored_cursor wl e t b1) (socket_data wl show_io i evs b1)"
  shows "streams_carry wl show_io log e t evs b1 b'"
proof -
  have len: "length (br_sockets b) \<le> length (br_sockets b1)" using kept(1) by (simp add: kept_sockets_def)
  have final: "i < length (br_sockets b') \<and> ws_binding (br_sockets b' ! i) = ws_binding (br_sockets b1 ! i) \<and>
      ws_url (br_sockets b' ! i) = ws_url (br_sockets b1 ! i)" if "i < length (br_sockets b1)" for i
    using kept(2) that by (auto simp: kept_sockets_def)
  have later: "carries wl log after (socket_data wl show_io i evs b1)"
    if "length (br_sockets b) \<le> i" "i < length (br_sockets b')" "ws_binding (br_sockets b' ! i) = CloudBinding e g t"
      "stream_endpoint wl e ticket after = Inr (ws_url (br_sockets b' ! i))" for g i ticket after
  proof -
    have "carries wl log after (socket_data wl show_io i ((pg, ev) # evs) b)"
      using carry that unfolding streams_carry_def by blast
    then show ?thesis unfolding b1 socket_data_later [OF that(1)] .
  qed
  have "carries wl log (stored_cursor wl e t b1) (socket_data wl show_io i evs b1)" if l: "live_socket b1 e g t i" for g i
    using live [OF l]
  proof
    assume "opened wl b b1 e g i"
    then obtain ticket c where o: "length (br_sockets b) \<le> i" "cloud_at b1 e g = Some c"
        "stream_endpoint wl e ticket (cc_persisted_cursor c) = Inr (ws_url (br_sockets b1 ! i))"
      by (auto simp: opened_def)
    have "cc_tenant_id c = Some t" using session_live(2) [OF sess(2) l] o(2) by auto
    then have "cc_persisted_cursor c = stored_cursor wl e t b1" using inv1 o(2) by (auto simp: cursor_inv_def cloud_at_Some)
    then show ?thesis using later [of i g ticket] o l final [of i] by (auto simp: live_socket_def)
  qed (rule still)
  then show ?thesis using later len unfolding streams_carry_def by (meson order_trans)
qed

text \<open>A step receives the next record of the tenant or none.\<close>

lemma message_step:
  assumes works: "storage_works pg" and uuid: "uuid_text_ok wl" and inv: "cursor_inv wl b" and sess: "session_inv n b"
    and sorted: "sorted_wrt (<) (map sr_cursor log)" and scope: "\<forall>r \<in> set log. env_scope (sr_envelope r) = Tenant t"
    and live: "live_socket b e g t i" and ev: "ev = SocketEvent i (SocketMessage data)"
    and b1: "b1 = browser_step wl show_io pg ev b"
    and carry: "carries wl log (stored_cursor wl e t b) (socket_data wl show_io i ((pg, ev) # evs) b)"
  shows "\<exists>r. records_after (stored_cursor wl e t b) log = r # records_after (stored_cursor wl e t b1) log \<and>
    views_for e t (received wl show_io pg ev b) = [record_view r] \<and>
    carries wl log (stored_cursor wl e t b1) (socket_data wl show_io i evs b1)"
proof -
  have data: "socket_data wl show_io i ((pg, ev) # evs) b = data # socket_data wl show_io i evs b1"
    using live by (simp add: ev b1 live_socket_def)
  obtain r where r: "decode_cloud_message wl data = Inr (decoded_record r)" "r \<in> set log" "stored_cursor wl e t b < sr_cursor r"
      "carries wl log (sr_cursor r) (socket_data wl show_io i evs b1)"
      "records_after (stored_cursor wl e t b) log = r # records_after (sr_cursor r) log"
    using carries_Cons [OF sorted carry [unfolded data]] by blast
  have recv: "received wl show_io pg ev b = [(e, t, decoded_record r, dj_signal (decoded_record r))]"
    unfolding ev by (rule message_received [OF works uuid inv sess live r(1), of "sr_cursor r"])
      (use r(2,3) scope in \<open>simp_all add: decoded_record_def\<close>)
  have "stored_cursor wl e t b1 = sr_cursor r"
    using browser_step_cases [OF works uuid inv, of ev show_io] recv by (auto simp: b1 ev decoded_record_def)
  then show ?thesis using r recv by (auto simp: record_view_def decoded_record_def)
qed

lemma follow_step:
  assumes works: "storage_works pg" and uuid: "uuid_text_ok wl" and inv: "cursor_inv wl b" and sess: "session_inv n b"
    and ev: "stores_no_cursor ev"
    and sorted: "sorted_wrt (<) (map sr_cursor log)" and scope: "\<forall>r \<in> set log. env_scope (sr_envelope r) = Tenant t"
    and b1: "b1 = browser_step wl show_io pg ev b"
    and carry: "streams_carry wl show_io log e t ((pg, ev) # evs) b b'"
  shows "\<exists>ys. records_after (stored_cursor wl e t b) log = ys @ records_after (stored_cursor wl e t b1) log \<and>
    map record_view ys = views_for e t (received wl show_io pg ev b) \<and>
    (\<forall>g i. live_socket b e g t i \<longrightarrow> carries wl log (stored_cursor wl e t b1) (socket_data wl show_io i evs b1))"
proof (cases "\<exists>g i data. ev = SocketEvent i (SocketMessage data) \<and> live_socket b e g t i")
  case True
  then obtain g i data where m: "ev = SocketEvent i (SocketMessage data)" "live_socket b e g t i" by blast
  have "carries wl log (stored_cursor wl e t b) (socket_data wl show_io i ((pg, ev) # evs) b)"
    using carry m(2) unfolding streams_carry_def by blast
  then obtain r where r: "records_after (stored_cursor wl e t b) log = r # records_after (stored_cursor wl e t b1) log"
      "views_for e t (received wl show_io pg ev b) = [record_view r]"
      "carries wl log (stored_cursor wl e t b1) (socket_data wl show_io i evs b1)"
    using message_step [OF works uuid inv sess sorted scope m(2,1) b1] by blast
  then show ?thesis using live_unique [OF sess m(2)] by (intro exI [of _ "[r]"]) auto
next
  case False
  have quiet: "stored_cursor wl e t b1 = stored_cursor wl e t b \<and> views_for e t (received wl show_io pg ev b) = []"
  proof (cases "received wl show_io pg ev b = []")
    case True
    then show ?thesis using browser_step_cases [OF works uuid inv ev, of show_io] by (auto simp: b1 quiet_def)
  next
    case recv: False
    obtain i data e' g t' d where r: "ev = SocketEvent i (SocketMessage data)" "live_socket b e' g t' i"
        "\<forall>(e'', t'', d', s) \<in> set (received wl show_io pg ev b). e'' = e' \<and> t'' = t' \<and> d' = d"
      using received_live [OF recv] by metis
    have "\<not> (e' = e \<and> t' = t)" using False r(1,2) by blast
    then show ?thesis
      using browser_step_cases [OF works uuid inv ev, of show_io] recv r(3) by (auto simp: b1)
  qed
  have "socket_data wl show_io i ((pg, ev) # evs) b = socket_data wl show_io i evs b1" if "live_socket b e g t i" for g i
    using False that by (auto simp: b1 split: browser_event.splits socket_event.splits)
  then show ?thesis
    using carry quiet unfolding streams_carry_def by (intro exI [of _ "[]"]) (metis append_Nil list.simps(8))
qed

lemma browser_follows_log:
  assumes "uuid_text_ok wl" and "sorted_wrt (<) (map sr_cursor log)" and "\<forall>r \<in> set log. env_scope (sr_envelope r) = Tenant t"
    and "cursor_inv wl b" and "session_inv n b" and "n + length evs < 2 ^ 64"
    and "\<forall>(pg, ev) \<in> set evs. storage_works pg \<and> stores_no_cursor ev \<and> ev \<noteq> Reload"
    and "browser_run wl show_io evs b = (rs, b')"
    and "streams_carry wl show_io log e t evs b b'"
  shows "\<exists>ys. records_after (stored_cursor wl e t b) log = ys @ records_after (stored_cursor wl e t b') log \<and>
    map record_view ys = views_for e t rs"
  using assms
proof (induction evs arbitrary: b n rs)
  case Nil
  then show ?case by simp
next
  case (Cons p evs)
  obtain pg ev where p: "p = (pg, ev)" by fastforce
  obtain b1 where b1: "b1 = browser_step wl show_io pg ev b" by simp
  obtain rs1 where run: "browser_run wl show_io evs b1 = (rs1, b')" and rs: "rs = received wl show_io pg ev b @ rs1"
    using Cons.prems(8) by (auto simp: p b1 split: prod.splits)
  have step: "storage_works pg" "stores_no_cursor ev" "ev \<noteq> Reload" using Cons.prems(7) by (auto simp: p)
  have inv1: "cursor_inv wl b1"
    using browser_step_cases [OF step(1) Cons.prems(1,4) step(2), of show_io] by (auto simp: b1 quiet_def)
  have n: "n < 2 ^ 64 - 1" using Cons.prems(6) by simp
  have sess: "session_inv (Suc n) b1"
      "\<And>e g t i. live_socket b1 e g t i \<Longrightarrow> live_socket b e g t i \<or> opened wl b b1 e g i"
    using session_step [OF Cons.prems(5) n step(3), of wl show_io pg] unfolding b1 by blast+
  have kept: "kept_sockets b b1" "kept_sockets b1 b'"
    using kept_step [OF step(3), of b wl show_io pg] kept_run [OF run] Cons.prems(7) by (auto simp: b1)
  obtain ys where ys: "records_after (stored_cursor wl e t b) log = ys @ records_after (stored_cursor wl e t b1) log"
      "map record_view ys = views_for e t (received wl show_io pg ev b)"
      and still: "\<And>g i. live_socket b e g t i \<Longrightarrow> carries wl log (stored_cursor wl e t b1) (socket_data wl show_io i evs b1)"
    using follow_step [OF step(1) Cons.prems(1,4,5) step(2) Cons.prems(2,3) b1 Cons.prems(9) [unfolded p]] by blast
  have carry: "streams_carry wl show_io log e t evs b1 b'"
    by (rule streams_carry_step [OF Cons.prems(5) sess(1) inv1 b1 sess(2) kept Cons.prems(9) [unfolded p] still])
  obtain zs where "records_after (stored_cursor wl e t b1) log = zs @ records_after (stored_cursor wl e t b') log"
      "map record_view zs = views_for e t rs1"
    using Cons.IH [OF Cons.prems(1-3) inv1 sess(1) _ _ run carry] Cons.prems(6,7) by auto
  then show ?case using ys rs by (intro exI [of _ "ys @ zs"]) simp
qed

section \<open>A page load\<close>

lemma session_start_endpoint:
  assumes "session_inv n b" and "n < 2 ^ 64 - 1" and "\<And>e g t i. \<not> live_socket b e g t i"
  shows "session_inv (Suc n) (start_endpoint wl pg v b) \<and> (\<forall>e g t i. \<not> live_socket (start_endpoint wl pg v b) e g t i)"
proof (cases "ingress_add wl pg v b")
  case (Pair r b1)
  have b1: "session_inv (Suc n) b1" "\<not> live_socket b1 e g t i" for e g t i
    using session_add [OF assms(1,2), of wl pg v] assms(3) Pair by auto
  have "\<not> live_socket (report_error l m b1) e g t i" for l m e g t i
    using tame_live [OF tame_report b1(1)] b1(2) by blast
  then show ?thesis
    using Pair b1 tame_session [OF tame_report b1(1)] by (auto simp: start_endpoint_def split: sum.splits)
qed

lemma session_fold_start:
  assumes "session_inv n b" and "n + length es < 2 ^ 64 - 1" and "\<And>e g t i. \<not> live_socket b e g t i"
  shows "session_inv (n + length es) (fold (start_endpoint wl pg) es b) \<and>
    (\<forall>e g t i. \<not> live_socket (fold (start_endpoint wl pg) es b) e g t i)"
  using assms
proof (induction es arbitrary: n b)
  case (Cons v es)
  then show ?case using session_start_endpoint [of n b wl pg v] Cons.IH [of "Suc n" "start_endpoint wl pg v b"] by simp
qed simp

lemma session_ingress_start:
  "session_inv 3 (ingress_start wl pg stored)" "\<not> live_socket (ingress_start wl pg stored) e g t i"
proof -
  let ?b = "\<lparr>br_messages = [Listening []], br_connections = [], br_active = [], br_next_generation = 1,
        br_sockets = [], br_tasks = [], br_local = stored\<rparr>"
  have len: "length (configured_endpoints pg) \<le> 2"
  proof -
    have "length (remdups (filter P (map f (List.map_filter h [x, y])))) \<le> 2"
      for P and f :: "string \<Rightarrow> string" and h :: "string option \<Rightarrow> string option" and x y
      by (intro order_trans [OF length_remdups_leq] order_trans [OF length_filter_le])
        (simp add: List.map_filter_def split: option.splits)
    then show ?thesis by (simp add: configured_endpoints_def split: option.splits)
  qed
  have "session_inv 1 ?b" "\<not> live_socket ?b e g t i" for e g t i
    by (simp_all add: session_inv_def live_socket_def cloud_at_def)
  then have "session_inv (1 + length (configured_endpoints pg)) (ingress_start wl pg stored)"
      "\<not> live_socket (ingress_start wl pg stored) e g t i" for e g t i
    using session_fold_start [of 1 ?b "configured_endpoints pg" wl pg] len by (auto simp: ingress_start_def)
  then show "session_inv 3 (ingress_start wl pg stored)" "\<not> live_socket (ingress_start wl pg stored) e g t i"
    using session_mono [of "1 + length (configured_endpoints pg)" _ 3] len by auto
qed

section \<open>The server's side\<close>

definition record_text :: "(signal_record \<Rightarrow> string + string) \<Rightarrow> signal_record \<Rightarrow> string" where
  "record_text to_string r = (case to_string r of Inr s \<Rightarrow> s | Inl _ \<Rightarrow> [])"

text \<open>The messages of a connection are the first ones that a stream of the tenant has sent by the time
  the store is in state \<open>db\<close>.\<close>

definition served_by ::
  "'v ext \<Rightarrow> (signal_record \<Rightarrow> string + string) \<Rightarrow> nat \<Rightarrow> nat \<Rightarrow> 'v pg_db \<Rightarrow> tenant_id \<Rightarrow> u64 \<Rightarrow> ws_data list \<Rightarrow> bool"
where
  "served_by x to_string n budget db t start data \<longleftrightarrow> (\<exists>gr db0 c k. store_inv x db0 \<and> gr_tenant_id gr = t \<and> gr_after gr = start \<and>
     (stream_step x to_string n budget)\<^sup>*\<^sup>* (stream_open gr, db0) (c, db) \<and>
     data = map (TextData \<circ> record_text to_string) (take k (sent_records c)))"

lemma sent_texts:
  assumes "(stream_step x to_string n budget)\<^sup>*\<^sup>* s s'" and "\<forall>r \<in> set (sent_records (fst s)). is_ok (to_string r)"
  shows "\<forall>r \<in> set (sent_records (fst s')). is_ok (to_string r)"
  using assms
proof (induction rule: rtranclp_induct)
  case (step s1 s2)
  show ?case
    using step(2) step.IH [OF step.prems]
    by (cases rule: stream_step.cases)
      (auto simp: stream_check_def stream_send_def sent_records_def Let_def is_ok_iff
        split: prod.splits sum.splits stream_phase.splits list.splits if_splits)
qed

lemma served_carries:
  assumes ok: "codec_ok x" and json: "\<And>r s. to_string r = Inr s \<Longrightarrow> wl_record_from_str wl s = Some r"
    and served: "served_by x to_string n budget db t start data"
  shows "carries wl (tenant_log x t db) start data"
proof -
  obtain gr db0 c k where gr: "store_inv x db0" "gr_tenant_id gr = t" "gr_after gr = start"
      and run: "(stream_step x to_string n budget)\<^sup>*\<^sup>* (stream_open gr, db0) (c, db)"
      and data: "data = map (TextData \<circ> record_text to_string) (take k (sent_records c))"
    using served unfolding served_by_def by blast
  have "stream_inv x (c, db)" "sk_tenant c = t" "sk_start c = start"
    using stream_steps_inv [OF run ok stream_open_inv [OF gr(1)]] gr by (simp_all add: stream_open_def)
  then obtain rest where rest: "records_after start (tenant_log x t db) = sent_records c @ rest"
    by (auto simp: stream_inv_def delivered_def)
  have texts: "\<forall>r \<in> set (sent_records c). is_ok (to_string r)"
    using sent_texts [OF run] by (simp add: stream_open_def sent_records_def)
  have "decode_cloud_message wl (TextData (record_text to_string r)) = Inr (decoded_record r)"
    if r: "r \<in> set (sent_records c)" for r
  proof -
    obtain s where s: "to_string r = Inr s" using texts r by (auto simp: is_ok_iff)
    have "r \<in> set (records_after start (tenant_log x t db))" using rest r by simp
    then have "sr_cursor r \<noteq> 0" by (auto simp: records_after_def)
    then show ?thesis
      using s json [OF s] by (simp add: decode_cloud_message_def decode_json_signal_def record_text_def decoded_record_def)
  qed
  then have "map (decode_cloud_message wl) data = map (Inr \<circ> decoded_record) (take k (sent_records c))"
    by (auto simp: data dest: in_set_takeD)
  moreover have "records_after start (tenant_log x t db) = take k (sent_records c) @ drop k (sent_records c) @ rest"
    using rest by simp
  ultimately show ?thesis unfolding carries_def by blast
qed

lemma tenant_log_scope:
  assumes "store_inv x db" and "r \<in> set (tenant_log x t db)"
  shows "env_scope (sr_envelope r) = Tenant t"
proof -
  obtain row where row: "row \<in> set (tenant_rows (tenant_uuid t) (db_tables db))" "r = projr (row_record x row)"
    using assms by (auto simp: tenant_log_map)
  then have "row_record x row = Inr r" "er_tenant_id row = tenant_uuid t"
    using tenant_rows_ok(1) [OF assms(1), of "tenant_uuid t"] by (auto simp: is_ok_iff tenant_rows_def)
  then show ?thesis using row_record_fields by fastforce
qed

lemma streams_carry_start:
  assumes ok: "codec_ok x" and json: "\<And>r s. to_string r = Inr s \<Longrightarrow> wl_record_from_str wl s = Some r"
    and url: "\<And>ticket after u. stream_endpoint wl e ticket after = Inr u \<Longrightarrow> after_of u = after"
    and served: "\<And>i g. i < length (br_sockets b) \<Longrightarrow> ws_binding (br_sockets b ! i) = CloudBinding e g t \<Longrightarrow>
      served_by x to_string n budget db t (after_of (ws_url (br_sockets b ! i)))
        (socket_data wl show_io i evs (ingress_start wl pg0 stored))"
  shows "streams_carry wl show_io (tenant_log x t db) e t evs (ingress_start wl pg0 stored) b"
  unfolding streams_carry_def
  using session_ingress_start(2) served_carries [OF ok json served] url by fastforce

section \<open>An example\<close>

definition ex_to_string :: "signal_record \<Rightarrow> string + string" where
  "ex_to_string r = (if r = ex_record then Inr [] else Inl [])"

definition ex_after_of :: "string \<Rightarrow> u64" where
  "ex_after_of u = (case parse_u64 (rev (takeWhile is_digit (rev u))) of Some n \<Rightarrow> n | None \<Rightarrow> 0)"

lemma ex_after_of_url: "ex_after_of (u @ ''after'' @ show_u64 n) = n"
proof -
  have "\<not> is_digit (CHR ''r'')" by code_simp
  moreover have "\<forall>c \<in> set (rev (show_u64 n)). is_digit c"
    using show_nat_digits [of "unat n"] by (auto simp: show_u64_def list_all_iff)
  ultimately have "takeWhile is_digit (rev (show_u64 n) @ CHR ''r'' # ''etfa'' @ rev u) = rev (show_u64 n)"
    by (subst takeWhile_append2) auto
  then show ?thesis by (simp add: ex_after_of_def)
qed

lemma ex_url_after:
  "stream_endpoint (ex_web_lib r) e ticket after = Inr u \<Longrightarrow> ex_after_of u = after"
  using ex_after_of_url [of "e @ ''ticket'' @ ticket" after]
  by (auto simp: stream_endpoint_def cloud_url_def ex_web_lib_def Let_def)

definition ex_start :: browser where
  "ex_start = ingress_start (ex_web_lib ex_record) ex_page Map.empty"

lemma ex_socket_data: "socket_data (ex_web_lib ex_record) show_io 0 ex_web_events ex_start = [TextData []]"
proof -
  obtain b1 b2 b3 where b: "b1 = browser_step (ex_web_lib ex_record) show_io ex_page (AddEndpoint ''https://h'') ex_start"
      "b2 = browser_step (ex_web_lib ex_record) show_io ex_page (TaskDone 0 (\<lambda>_ _. Body [])) b1"
      "b3 = browser_step (ex_web_lib ex_record) show_io ex_page (SocketEvent 0 SocketOpen) b2"
      "br_sockets b1 = []" "br_sockets b2 = [ex_socket]" "br_sockets b3 = [ex_socket]"
      "br_connections b3 = [(''https://h'', CloudConnection ex_connection)]"
    unfolding ex_start_def by (rule ex_web_states)
  then show ?thesis by (simp add: ex_web_events_def)
qed

lemma ex_served:
  obtains db where "store_inv ex_ext db" "served_by ex_ext ex_to_string 10 1 db ex_tenant 0 [TextData []]"
proof -
  obtain db where run: "(stream_step ex_ext ex_to_string 10 1)\<^sup>*\<^sup>* (stream_open ex_grant, ex_db)
     ((stream_open ex_grant)\<lparr>sk_cursor := 1, sk_phase := Sending [] True, sk_sent := [(150, ex_record)]\<rparr>, db)"
    using ex_stream [of ex_to_string] by (auto simp: ex_to_string_def)
  have inv: "store_inv ex_ext db"
    using stream_steps_inv [OF run ex_codec stream_open_inv [OF ex_inv]] by (simp add: stream_inv_def)
  have "served_by ex_ext ex_to_string 10 1 db ex_tenant 0 [TextData []]"
    unfolding served_by_def
    by (rule exI [of _ ex_grant], rule exI [of _ ex_db], rule exI, rule exI [of _ 1], intro conjI, rule ex_inv)
      (simp add: ex_grant_def, simp add: ex_grant_def, rule run,
       simp add: sent_records_def record_text_def ex_to_string_def)
  then show thesis using that inv by blast
qed

end
