(* ===== verification/Spec2Isabelle.thy ===== *)
theory Spec2Isabelle
  imports Device_Socket Database_Logs Dashboard_Stream
begin

text \<open>
  \<^bold>\<open>skid-monitor: a verification development\<close>

  skid-monitor collects metrics, traces and logs from devices, hosts and databases and shows
  them on dashboards. A device sends compact binary frames to an agent; the agent lifts them, its
  own observations, OTLP requests of other programs and the lines of database logs into OTLP
  signals and sends every signal through a pipeline to its exporters. An authenticated OTLP
  exporter numbers its requests and obtains access tokens. The cloud service accepts the signals
  (ingress plane), appends them to the log of the tenant named by the token in PostgreSQL and
  serves them to clients (client plane) as pages, projections and WebSocket streams. A browser
  dashboard exchanges its token for a one-time ticket, follows the stream and stores its cursor.

  \<^bold>\<open>Theories\<close>

  \<^item> \<open>Skid_Prelude\<close>: machine integers, results (\<open>Inl\<close> is the error), checked slices, big-endian
    codecs (locale \<open>fixed_codec\<close>) and the lemma collections. \<open>Rust_Text\<close>, \<open>Rust_Float\<close> and \<open>Rust_Std\<close>:
    the parts of Rust's library the program uses: UTF-8 strings as lists of bytes, trimming,
    splitting, number formatting and parsing, IEEE casts and comparisons on bit patterns, socket
    addresses.
  \<^item> \<open>Edge_Wire\<close>: \<open>skid-edge-wire/src/lib.rs\<close>, one definition per function; \<open>None\<close> is a panic.
  \<^item> \<open>Otlp_Model\<close>, \<open>Metric_Export\<close>, \<open>Signal_Frame\<close>: the signal types and \<open>skid-protocol/src/metrics.rs\<close>,
    \<open>frame.rs\<close>, \<open>protocol.rs\<close>. Writers are an interface (\<open>byte_sink\<close>) with two instances.
  \<^item> \<open>Signal_Core\<close>: \<open>skid-monitor-core\<close>: identifiers, envelopes, the projection.
  \<^item> \<open>Device_Socket\<close>: \<open>skid-monitor-agent/src/device_socket.rs\<close>.
  \<^item> \<open>Sequence_State\<close>: the sequence allocators of \<open>exporters.rs\<close> over a host with files, locks, crashes
    and I/O faults; \<open>Agent_Export\<close>: retries, tokens and dispatch of \<open>exporters.rs\<close>, \<open>pipeline.rs\<close>,
    \<open>transport.rs\<close> and the services of \<open>otlp_receiver.rs\<close>; \<open>Agent_Config\<close>: \<open>config.rs\<close> and how exporters
    and pipeline are built from it; \<open>Database_Logs\<close>: \<open>database_logs.rs\<close>.
  \<^item> \<open>Pg_Schema\<close>: the migration as DDL, the catalog, and the start-up checks of \<open>store.rs\<close>; \<open>Pg_Store\<close>:
    every operation of \<open>PgSignalStore\<close> as a transaction on the tables with row-level security,
    injected faults and commit outcomes; \<open>Store_Facts\<close>, \<open>Store_Log\<close>, \<open>Store_Isolation\<close>: the store
    invariant, the refinement to an append-only log per tenant, and tenant isolation.
  \<^item> \<open>Server_Config\<close>, \<open>Oidc_Auth\<close>, \<open>Cloud_Ingress\<close>, \<open>Client_Api\<close>, \<open>Signal_Stream\<close>: \<open>config.rs\<close>, \<open>auth.rs\<close>,
    \<open>ingress.rs\<close> and \<open>api.rs\<close> of \<open>skid-monitor-server\<close>; the stream of \<open>api.rs\<close> is a step relation.
  \<^item> \<open>Browser_Cloud\<close>, \<open>Browser_Ingress\<close>: \<open>cloud.rs\<close>, \<open>web.rs\<close> and \<open>ingress.rs\<close> of the dashboard's
    \<open>platform\<close> module, each callback, timer and completed request being one step; \<open>Browser_Session\<close>
    and \<open>Dashboard_Stream\<close>: which stream a received record came from, and how the browser's side
    meets the server's.

  \<^bold>\<open>Conventions\<close>

  A struct is a record, an enum a datatype, an operation one function with every early return as a
  branch. State is passed explicitly. Libraries are records of functions, passed to the definitions
  that call them: serde codecs, \<open>url\<close>, \<open>uuid\<close>, HTTP and JWT clients, the gRPC channel, SQL value
  conversion, browser interfaces. Clocks, random values and I/O outcomes are arguments. What the
  theorems need of a library is a named hypothesis, for instance \<open>codec_ok\<close> (a stored JSON value is
  read back to the same signal) or \<open>uuid_text_ok\<close> (identifiers print with 36 bytes and are parsed
  back), and the witnesses give a function that meets it.

  \<^bold>\<open>What the lemmas show\<close>

  \<^item> Wire formats: decoding inverts encoding and vice versa, no input makes a decoder panic, errors are
    classified, frames never exceed their bounds.
  \<^item> Agent: sequence numbers are never reused over crashes, an export ends after three attempts that
    carry one number and one signal, every exporter is attempted, tokens are refreshed before they
    expire, a started agent has all its exporters and sends tokens only over TLS, a growing log is
    exported line by line, once.
  \<^item> Store: every reachable state satisfies the invariant; appending refines an append-only log; replay
    pages are bounded prefixes and catch up; the projection summarises the log; tickets are used once;
    the start-up checks imply tenant isolation and the migration passes them.
  \<^item> Services: accepted tokens are authorized, key refreshes are rate limited, ingest acknowledges only
    what is stored, requests touch one tenant, administration is audited, replies are well formed,
    streams deliver a prefix of the log while authorized.
  \<^item> Dashboard: a browser receives each record once and in order, and, with the server's stream, the
    log without gaps (below).

  \<^bold>\<open>Bounds\<close>

  Loops are structural or have a termination proof (\<open>iter_run\<close>, UTF-8 and number functions). \<open>catch_up\<close>
  takes fuel, and any fuel above the number of remaining events is shown to be enough. The export
  loop runs over the list of the three attempts. The browser theorem on gaps assumes fewer than
  \<open>2\<^sup>6\<^sup>4 - 3\<close> events in one page load, so that the connection generation does not wrap around. \<open>usize\<close> is
  64 bits wide.

  \<^bold>\<open>Not modelled\<close>

  \<^item> Accept loops, server start-up, TLS and gRPC channel set-up, connection pools, the PostgreSQL
    notification listener and the \<open>bin\<close> programs: they only wire modelled parts to I/O libraries.
  \<^item> \<open>system_metrics.rs\<close>, \<open>collector.rs\<close>, \<open>telemetry.rs\<close> and the small nodes (\<open>skid-file-node\<close>,
    \<open>skid-compute-advisor\<close>, \<open>skid-edge-agent\<close>): they read kernel interfaces and divide floating-point
    numbers, and \<open>Rust_Float\<close> has no rounding arithmetic.
  \<^item> The native receiver of \<open>skid-monitor-client\<close>, its extension and file-share processes: threads,
    sockets and child processes.
  \<^item> The dashboard's state, alert rules, edge state and storage back ends, which follow the received
    signals and are outside this development; its settings, pages, components and avatars, which
    call the widget and graphics libraries.
\<close>

section \<open>From the store to the dashboard\<close>

text \<open>C3: a browser dashboard follows a tenant's log from the store to its screen: with a server that
  answers each of its connections as \<open>stream_signals\<close> does, with working browser storage and
  JSON and URL libraries that restore what they wrote, the signals a page receives for the tenant
  are exactly the events of the tenant's log between the cursor stored when the page was loaded and
  the cursor stored now, in order, without gaps or duplicates, over any number of reconnects.\<close>

theorem dashboard_follows_tenant_log:
  assumes ok: "codec_ok x" and inv: "store_inv x db" and uuid: "uuid_text_ok wl"
    and json: "\<And>r s. to_string r = Inr s \<Longrightarrow> wl_record_from_str wl s = Some r"
    and url: "\<And>ticket after u. stream_endpoint wl e ticket after = Inr u \<Longrightarrow> after_of u = after"
    and events: "\<forall>(pg, ev) \<in> set evs. storage_works pg \<and> stores_no_cursor ev \<and> ev \<noteq> Reload"
    and short: "length evs < 2 ^ 64 - 3"
    and run: "browser_run wl show_io evs (ingress_start wl pg0 stored) = (rs, b)"
    and served: "\<And>i g. i < length (br_sockets b) \<Longrightarrow> ws_binding (br_sockets b ! i) = CloudBinding e g t \<Longrightarrow>
      served_by x to_string n budget db t (after_of (ws_url (br_sockets b ! i)))
        (socket_data wl show_io i evs (ingress_start wl pg0 stored))"
  shows "\<exists>ys. records_after (stored_cursor wl e t (ingress_start wl pg0 stored)) (tenant_log x t db) =
      ys @ records_after (stored_cursor wl e t b) (tenant_log x t db) \<and> views_for e t rs = map record_view ys"
proof -
  have "streams_carry wl show_io (tenant_log x t db) e t evs (ingress_start wl pg0 stored) b"
    by (rule streams_carry_start [OF ok json url served])
  then show ?thesis
    using browser_follows_log [OF uuid tenant_log_sorted [OF inv] _ ingress_start_inv(2) session_ingress_start(1) _ events run]
      tenant_log_scope [OF inv] short by (metis add.commute less_diff_conv)
qed

theorem dashboard_follows_tenant_log_witness:
  "\<exists>db ys. fst (browser_run (ex_web_lib ex_record) (\<lambda>_. []) ex_web_events ex_start) \<noteq> [] \<and>
     map record_view (records_after 0 (tenant_log ex_ext ex_tenant db)) = record_view ex_record # ys"
proof -
  let ?wl = "ex_web_lib ex_record"
  obtain rs b where run: "browser_run ?wl (\<lambda>_. []) ex_web_events ex_start = (rs, b)" by fastforce
  obtain db where db: "store_inv ex_ext db" "served_by ex_ext ex_to_string 10 1 db ex_tenant 0 [TextData []]"
    by (rule ex_served)
  have sockets: "br_sockets b = [ex_socket]" and rs: "fst (browser_run ?wl (\<lambda>_. []) ex_web_events ex_start) =
      [(''https://h'', ex_tenant, decoded_record ex_record, env_payload ex_envelope)]"
    using ex_web_run [of ex_record "\<lambda>_. []"] run ex_scope
    by (simp_all add: ex_start_def ex_record_def ex_web_tenant_def ex_tenant_def decoded_record_def)
  have uuid: "uuid_text_ok ?wl" by (simp add: uuid_text_ok_def ex_web_lib_def ex_uuid_ok)
  have json: "ex_to_string r = Inr s \<Longrightarrow> wl_record_from_str ?wl s = Some r" for r s
    by (simp add: ex_to_string_def ex_web_lib_def split: if_splits)
  have events: "\<forall>(pg, ev) \<in> set ex_web_events. storage_works pg \<and> stores_no_cursor ev \<and> ev \<noteq> Reload"
    and short: "length ex_web_events < 2 ^ 64 - 3"
    by (simp_all add: ex_web_events_def storage_works_def local_storage_def page_storage_def ex_page_def)
  have served: "served_by ex_ext ex_to_string 10 1 db ex_tenant (ex_after_of (ws_url (br_sockets b ! i)))
      (socket_data ?wl (\<lambda>_. []) i ex_web_events (ingress_start ?wl ex_page Map.empty))"
    if "i < length (br_sockets b)" "ws_binding (br_sockets b ! i) = CloudBinding ''https://h'' g ex_tenant" for i g
    using that db(2) ex_socket_data [unfolded ex_start_def] ex_after_of_url [of "''https://h'' @ ''ticket'' @ ex_uuid_text @ ''.'' @ ex_uuid_text" 0]
    by (simp add: sockets ex_socket_def ex_stream_url_def)
  have "\<exists>ys. records_after (stored_cursor ?wl ''https://h'' ex_tenant ex_start) (tenant_log ex_ext ex_tenant db) =
      ys @ records_after (stored_cursor ?wl ''https://h'' ex_tenant b) (tenant_log ex_ext ex_tenant db) \<and>
      views_for ''https://h'' ex_tenant rs = map record_view ys"
    unfolding ex_start_def
    by (rule dashboard_follows_tenant_log [OF ex_codec db(1) uuid json ex_url_after events short run [unfolded ex_start_def] served])
  moreover have "stored_cursor ?wl ''https://h'' ex_tenant ex_start = 0"
    by (simp add: ex_start_def stored_cursor_def ingress_start_inv(1))
  moreover have "views_for ''https://h'' ex_tenant rs = [record_view ex_record]"
    using run rs by (simp add: decoded_record_def record_view_def ex_record_def)
  ultimately show ?thesis using rs by (intro exI [of _ db]) (auto simp: Cons_eq_map_conv)
qed

end
